(* ===== verification/Prelude.thy ===== *)
theory Prelude
  imports Main "HOL-Library.Word" "HOL-Library.Sublist" "HOL-Library.AList"
begin

text \<open>
  Shared vocabulary of the development: Go values and errors, the result type of a fallible
  call, the two string operations of package \<^verbatim>\<open>strings\<close> the sources use, the collections of
  rewrite rules, and lemmas on lists and keyed rows that every component needs.
\<close>

section \<open>Types\<close>

type_synonym byte = "8 word"
type_synonym bytes = "byte list"

text \<open>\<^verbatim>\<open>uuid.UUID\<close> is an array of sixteen bytes.\<close>
type_synonym uuid = "128 word"

text \<open>
  The errors the sources tell apart: \<^verbatim>\<open>sql.ErrNoRows\<close>, a \<^verbatim>\<open>pq.Error\<close> with its SQLSTATE code,
  \<^verbatim>\<open>redis.Nil\<close>, and any other error, known by its text.
\<close>
datatype go_error = ErrNoRows | PqError string | RedisNil | Err string

type_synonym 'a res = "go_error + 'a"

fun err_text :: "go_error \<Rightarrow> string" where
  "err_text ErrNoRows = ''sql: no rows in result set''"
| "err_text (PqError c) = ''pq: '' @ c"
| "err_text RedisNil = ''redis: nil''"
| "err_text (Err m) = m"

section \<open>Collections of facts\<close>

named_theorems go_simps \<open>characteristic equations of the model's operations\<close>
named_theorems frame_simps \<open>what an operation leaves unchanged\<close>

section \<open>Package strings\<close>

definition strContains :: "string \<Rightarrow> string \<Rightarrow> bool" where
  "strContains s sub = list_ex (\<lambda>t. take (length sub) t = sub) (suffixes s)"

definition cutPrefix :: "string \<Rightarrow> string \<Rightarrow> string option" where
  "cutPrefix s p = (if take (length p) s = p then Some (drop (length p) s) else None)"

lemma cutPrefix_append [simp]: "cutPrefix (p @ s) p = Some s"
  by (simp add: cutPrefix_def)

lemma cutPrefix_Some: "cutPrefix s p = Some r \<longleftrightarrow> s = p @ r"
  by (auto simp: cutPrefix_def) (metis append_take_drop_id)

text \<open>\<^verbatim>\<open>strings.ToLower\<close> on the ASCII range.\<close>

definition toLowerChar :: "char \<Rightarrow> char" where
  "toLowerChar c = (if 65 \<le> (of_char c :: nat) \<and> (of_char c :: nat) \<le> 90
                    then char_of (of_char c + 32 :: nat) else c)"

definition toLower :: "string \<Rightarrow> string" where
  "toLower s = map toLowerChar s"

lemma toLowerChar_idem [simp]: "toLowerChar (toLowerChar c) = toLowerChar c"
  by (auto simp: toLowerChar_def)

lemma toLower_idem [simp]: "toLower (toLower s) = toLower s"
  by (simp add: toLower_def)

lemma length_toLower [simp]: "length (toLower s) = length s"
  by (simp add: toLower_def)

section \<open>Machine integers of Go\<close>

text \<open>
  \<^verbatim>\<open>int\<close> and \<^verbatim>\<open>time.Duration\<close> are 64 bits wide on every platform the services are built for.
  The wrap-around of a sum or product is the signed reading of the low bits.
\<close>

definition int64 :: "int \<Rightarrow> int" where
  "int64 i = signed_take_bit 63 i"

definition int32 :: "int \<Rightarrow> int" where
  "int32 i = signed_take_bit 31 i"

definition in_int64 :: "int \<Rightarrow> bool" where
  "in_int64 i \<longleftrightarrow> - (2 ^ 63) \<le> i \<and> i < 2 ^ 63"

definition in_int32 :: "int \<Rightarrow> bool" where
  "in_int32 i \<longleftrightarrow> - (2 ^ 31) \<le> i \<and> i < 2 ^ 31"

lemma int64_in: "in_int64 i \<Longrightarrow> int64 i = i"
  by (simp add: int64_def in_int64_def signed_take_bit_int_eq_self_iff)

lemma int32_in: "in_int32 i \<Longrightarrow> int32 i = i"
  by (simp add: int32_def in_int32_def signed_take_bit_int_eq_self_iff)

lemma int64_range: "in_int64 (int64 i)"
  using signed_take_bit_int_greater_eq_minus_exp [of 63 i] signed_take_bit_int_less_exp [of 63 i]
  by (simp add: int64_def in_int64_def)

lemma int32_range: "in_int32 (int32 i)"
  using signed_take_bit_int_greater_eq_minus_exp [of 31 i] signed_take_bit_int_less_exp [of 31 i]
  by (simp add: int32_def in_int32_def)

text \<open>\<^verbatim>\<open>time.Second\<close>: durations and instants count nanoseconds.\<close>

definition Second :: int where
  "Second = 10 ^ 9"

section \<open>Rows addressed by a key\<close>

text \<open>
  An SQL \<^verbatim>\<open>UPDATE ... WHERE key = k\<close> on a table kept as a list of rows, and the first row a
  \<^verbatim>\<open>SELECT\<close> with the same condition returns.
\<close>

definition update_where :: "('r \<Rightarrow> bool) \<Rightarrow> ('r \<Rightarrow> 'r) \<Rightarrow> 'r list \<Rightarrow> 'r list" where
  "update_where P f rs = map (\<lambda>r. if P r then f r else r) rs"

lemma update_where_Nil [simp]: "update_where P f [] = []"
  by (simp add: update_where_def)

lemma update_where_Cons [simp]:
  "update_where P f (r # rs) = (if P r then f r else r) # update_where P f rs"
  by (simp add: update_where_def)

lemma length_update_where [simp]: "length (update_where P f rs) = length rs"
  by (simp add: update_where_def)

lemma map_update_where:
  "(\<And>r. P r \<Longrightarrow> g (f r) = g r) \<Longrightarrow> map g (update_where P f rs) = map g rs"
  by (induction rs) auto

lemma update_where_none: "(\<And>r. r \<in> set rs \<Longrightarrow> \<not> P r) \<Longrightarrow> update_where P f rs = rs"
  by (induction rs) auto

lemma set_update_where: "set (update_where P f rs) = {if P r then f r else r | r. r \<in> set rs}"
  by (auto simp: update_where_def)

lemma find_update_where_same:
  assumes "\<And>r. key (f r) = key r"
  shows "find (\<lambda>r. key r = k) (update_where (\<lambda>r. key r = k) f rs) =
         map_option f (find (\<lambda>r. key r = k) rs)"
  using assms by (induction rs) auto

lemma find_update_where_other:
  assumes "\<And>r. key (f r) = key r" "k' \<noteq> k"
  shows "find (\<lambda>r. key r = k') (update_where (\<lambda>r. key r = k) f rs) = find (\<lambda>r. key r = k') rs"
  using assms by (induction rs) auto

lemma find_append:
  "find P (xs @ ys) = (case find P xs of Some x \<Rightarrow> Some x | None \<Rightarrow> find P ys)"
  by (induction xs) auto

lemma find_SomeD: "find P xs = Some x \<Longrightarrow> x \<in> set xs \<and> P x"
  by (induction xs) (auto split: if_splits)

lemma find_None_iff_ball: "find P xs = None \<longleftrightarrow> (\<forall>x\<in>set xs. \<not> P x)"
  by (induction xs) auto

lemma find_distinct_key:
  assumes "distinct (map key rs)" "r \<in> set rs"
  shows "find (\<lambda>x. key x = key r) rs = Some r"
  using assms by (induction rs) (auto simp: rev_image_eqI)

section \<open>Encoders and decoders\<close>

text \<open>
  The contract every wire format of the system has: what was encoded decodes to itself. The
  formats (base64, the stream fields of a job reference, the link frames) interpret it.
\<close>

locale codec =
  fixes enc :: "'a \<Rightarrow> 'b" and dec :: "'b \<Rightarrow> 'a option" and valid :: "'a \<Rightarrow> bool"
  assumes dec_enc: "valid x \<Longrightarrow> dec (enc x) = Some x"
begin

lemma enc_inj_on: "inj_on enc {x. valid x}"
  by (rule inj_onI) (metis dec_enc mem_Collect_eq option.inject)

lemma enc_eq_iff: "valid x \<Longrightarrow> valid y \<Longrightarrow> enc x = enc y \<longleftrightarrow> x = y"
  by (metis dec_enc option.inject)

end

end
