(* ===== verification/Tables.thy ===== *)
theory Tables
  imports Prelude "HOL-Library.List_Lexorder" "HOL-Library.Char_ord"
begin

text \<open>
  The database of \<^verbatim>\<open>services/cloud/db\<close>: the rows of \<^verbatim>\<open>models.go\<close>, the schema's constraints
  (\<^verbatim>\<open>schema.sql\<close>), and one definition per query of \<^verbatim>\<open>queries.sql.go\<close>, read off its SQL text. A table is the list of its
  rows in insertion order. A statement maps the tables to its result and the tables after it; a
  constraint it would break makes it fail and change nothing. \<^verbatim>\<open>now()\<close>, \<^verbatim>\<open>gen_random_uuid()\<close>,
  the pgcrypto functions, the collation and the row locks other sessions hold are arguments.
\<close>

section \<open>Rows\<close>

record building =
  bdID :: uuid
  bdAddress :: string
  bdCreatedAt :: int

record mailbox =
  mbID :: uuid
  mbBuildingID :: uuid
  mbPublicKeyPem :: string
  mbStatus :: string
  mbLastHeartbeatAt :: "int option"
  mbCreatedAt :: int

record mailbox_slot =
  slID :: uuid
  slMailboxID :: uuid
  slSlotNumber :: int
  slMaxCount :: int
  slCreatedAt :: int

record resident =
  rsID :: uuid
  rsSlotID :: uuid
  rsNameEnc :: bytes
  rsCreatedAt :: int

record sender =
  snID :: uuid
  snEmailEnc :: bytes
  snNameEnc :: bytes
  snPasswordHash :: string
  snRole :: string
  snCreatedAt :: int

record refresh_token =
  rtID :: uuid
  rtSenderID :: uuid
  rtTokenHash :: string
  rtExpiresAt :: int
  rtRevokedAt :: "int option"
  rtCreatedAt :: int

record job =
  jID :: uuid
  jSenderID :: "uuid option"
  jGuestTokenHash :: "string option"
  jMailboxID :: uuid
  jSlotID :: uuid
  jEncryptedKey :: bytes
  jBlobRef :: string
  jPageCount :: int
  jStatus :: string
  jRetryCount :: int
  jBlobExpiresAt :: "int option"
  jBlobDeletedAt :: "int option"
  jCreatedAt :: int
  jDeliveredAt :: "int option"

record audit_event =
  auID :: uuid
  auJobID :: uuid
  auAction :: string
  auActorID :: "uuid option"
  auTimestamp :: int

record tables =
  buildings :: "building list"
  mailboxes :: "mailbox list"
  mailbox_slots :: "mailbox_slot list"
  residents :: "resident list"
  senders :: "sender list"
  refresh_tokens :: "refresh_token list"
  jobs :: "job list"
  audit_events :: "audit_event list"

type_synonym 'a stmt = "tables \<Rightarrow> 'a res \<times> tables"

definition job_of :: "tables \<Rightarrow> uuid \<Rightarrow> job option" where
  "job_of t i = find (\<lambda>j. jID j = i) (jobs t)"

definition status_of :: "tables \<Rightarrow> uuid \<Rightarrow> string option" where
  "status_of t i = map_option jStatus (job_of t i)"

definition set_job :: "uuid \<Rightarrow> (job \<Rightarrow> job) \<Rightarrow> tables \<Rightarrow> tables" where
  "set_job i f t = t\<lparr>jobs := update_where (\<lambda>j. jID j = i) f (jobs t)\<rparr>"

text \<open>The SQLSTATE codes of the constraints the statements can break.\<close>

abbreviation "unique_violation \<equiv> ''23505''"
abbreviation "foreign_key_violation \<equiv> ''23503''"
abbreviation "check_violation \<equiv> ''23514''"
abbreviation "invalid_row_count_in_offset \<equiv> ''2201X''"
abbreviation "invalid_row_count_in_limit \<equiv> ''2201W''"
abbreviation "lock_not_available \<equiv> ''55P03''"

section \<open>Jobs: writing\<close>

record InsertJobParams =
  ijSenderID :: "uuid option"
  ijGuestTokenHash :: "string option"
  ijMailboxID :: uuid
  ijSlotID :: uuid
  ijEncryptedKey :: bytes
  ijBlobRef :: string
  ijPageCount :: int

definition new_job :: "uuid \<Rightarrow> int \<Rightarrow> InsertJobParams \<Rightarrow> job" where
  "new_job i now p = \<lparr>jID = i, jSenderID = ijSenderID p, jGuestTokenHash = ijGuestTokenHash p,
     jMailboxID = ijMailboxID p, jSlotID = ijSlotID p, jEncryptedKey = ijEncryptedKey p,
     jBlobRef = ijBlobRef p, jPageCount = ijPageCount p, jStatus = ''submitted'', jRetryCount = 0,
     jBlobExpiresAt = None, jBlobDeletedAt = None, jCreatedAt = now, jDeliveredAt = None\<rparr>"

definition InsertJob :: "uuid \<Rightarrow> int \<Rightarrow> InsertJobParams \<Rightarrow> (uuid \<times> string) stmt" where
  "InsertJob i now p t =
     (if ijSenderID p = None \<and> ijGuestTokenHash p = None then (Inl (PqError check_violation), t)
      else if i \<in> jID ` set (jobs t) then (Inl (PqError unique_violation), t)
      else if ijMailboxID p \<notin> mbID ` set (mailboxes t) \<or> ijSlotID p \<notin> slID ` set (mailbox_slots t)
              \<or> (case ijSenderID p of None \<Rightarrow> False | Some s \<Rightarrow> s \<notin> snID ` set (senders t))
        then (Inl (PqError foreign_key_violation), t)
      else (Inr (i, ''submitted''), t\<lparr>jobs := jobs t @ [new_job i now p]\<rparr>))"

definition MarkJobDispatching :: "uuid \<Rightarrow> unit stmt" where
  "MarkJobDispatching i t = (Inr (), set_job i (\<lambda>j. j\<lparr>jStatus := ''dispatching''\<rparr>) t)"

definition RequeueJob :: "uuid \<Rightarrow> unit stmt" where
  "RequeueJob i t = (Inr (), set_job i (\<lambda>j. j\<lparr>jStatus := ''queued''\<rparr>) t)"

definition SetJobBlobDeleted :: "int \<Rightarrow> uuid \<Rightarrow> unit stmt" where
  "SetJobBlobDeleted now i t = (Inr (), set_job i (\<lambda>j. j\<lparr>jBlobDeletedAt := Some now\<rparr>) t)"

record UpdateJobStatusRow =
  ujID :: uuid
  ujMailboxID :: uuid
  ujBlobRef :: string
  ujStatus :: string

definition apply_status :: "int \<Rightarrow> string \<Rightarrow> job \<Rightarrow> job" where
  "apply_status now st j = j\<lparr>jStatus := st,
     jDeliveredAt := (if st = ''delivered'' then Some now else jDeliveredAt j)\<rparr>"

definition UpdateJobStatus :: "int \<Rightarrow> uuid \<Rightarrow> string \<Rightarrow> UpdateJobStatusRow stmt" where
  "UpdateJobStatus now i st t =
     (case job_of t i of None \<Rightarrow> (Inl ErrNoRows, t)
      | Some j \<Rightarrow> (Inr \<lparr>ujID = i, ujMailboxID = jMailboxID j, ujBlobRef = jBlobRef j, ujStatus = st\<rparr>,
                   set_job i (apply_status now st) t))"

section \<open>Jobs: reading\<close>

definition claimable :: "string \<Rightarrow> bool" where
  "claimable st \<longleftrightarrow> st = ''submitted'' \<or> st = ''queued''"

text \<open>
  \<^verbatim>\<open>FOR UPDATE NOWAIT\<close>: a row that meets the condition but is locked by another session fails
  the statement with 55P03; a row that does not meet it is no row at all, locked or not.
\<close>

definition LockJobForDispatch :: "(uuid \<Rightarrow> bool) \<Rightarrow> uuid \<Rightarrow> job stmt" where
  "LockJobForDispatch locked i t =
     (case job_of t i of None \<Rightarrow> (Inl ErrNoRows, t)
      | Some j \<Rightarrow> (if \<not> claimable (jStatus j) then (Inl ErrNoRows, t)
                   else if locked i then (Inl (PqError lock_not_available), t)
                   else (Inr j, t)))"

record GetJobForStreamRow =
  gjID :: uuid
  gjSenderID :: "uuid option"
  gjGuestTokenHash :: "string option"
  gjStatus :: string

definition GetJobForStream :: "uuid \<Rightarrow> GetJobForStreamRow stmt" where
  "GetJobForStream i t =
     (case job_of t i of None \<Rightarrow> (Inl ErrNoRows, t)
      | Some j \<Rightarrow> (Inr \<lparr>gjID = jID j, gjSenderID = jSenderID j,
                       gjGuestTokenHash = jGuestTokenHash j, gjStatus = jStatus j\<rparr>, t))"

record GetJobsBySenderRow =
  gsID :: uuid
  gsStatus :: string
  gsPageCount :: int
  gsCreatedAt :: int
  gsDeliveredAt :: "int option"

definition sender_row :: "job \<Rightarrow> GetJobsBySenderRow" where
  "sender_row j = \<lparr>gsID = jID j, gsStatus = jStatus j, gsPageCount = jPageCount j,
     gsCreatedAt = jCreatedAt j, gsDeliveredAt = jDeliveredAt j\<rparr>"

definition newest_first :: "job list \<Rightarrow> job list" where
  "newest_first js = sort_key (\<lambda>j. - jCreatedAt j) js"

definition GetJobsBySender :: "uuid \<Rightarrow> GetJobsBySenderRow list stmt" where
  "GetJobsBySender s t =
     (Inr (map sender_row (take 200 (newest_first (filter (\<lambda>j. jSenderID j = Some s) (jobs t))))), t)"

section \<open>Jobs: the operator's view\<close>

definition status_match :: "string \<Rightarrow> job \<Rightarrow> bool" where
  "status_match st j \<longleftrightarrow> st = [] \<or> jStatus j = st"

record AdminListJobsRow =
  ajID :: uuid
  ajSlotID :: uuid
  ajSlotNumber :: int
  ajStatus :: string
  ajPageCount :: int
  ajCreatedAt :: int
  ajDeliveredAt :: "int option"

definition slot_of :: "tables \<Rightarrow> uuid \<Rightarrow> mailbox_slot option" where
  "slot_of t i = find (\<lambda>s. slID s = i) (mailbox_slots t)"

definition admin_row :: "tables \<Rightarrow> job \<Rightarrow> AdminListJobsRow option" where
  "admin_row t j = map_option (\<lambda>s. \<lparr>ajID = jID j, ajSlotID = jSlotID j, ajSlotNumber = slSlotNumber s,
     ajStatus = jStatus j, ajPageCount = jPageCount j, ajCreatedAt = jCreatedAt j,
     ajDeliveredAt = jDeliveredAt j\<rparr>) (slot_of t (jSlotID j))"

definition AdminListJobs :: "string \<Rightarrow> int \<Rightarrow> int \<Rightarrow> AdminListJobsRow list stmt" where
  "AdminListJobs st off lim t =
     (if lim < 0 then (Inl (PqError invalid_row_count_in_limit), t)
      else if off < 0 then (Inl (PqError invalid_row_count_in_offset), t)
      else (Inr (take (nat lim) (drop (nat off)
                  (List.map_filter (admin_row t) (newest_first (filter (status_match st) (jobs t)))))), t))"

definition AdminCountJobs :: "string \<Rightarrow> int stmt" where
  "AdminCountJobs st t = (Inr (int (length (filter (status_match st) (jobs t)))), t)"

definition count_status :: "string \<Rightarrow> job list \<Rightarrow> nat" where
  "count_status st js = length (filter (\<lambda>j. jStatus j = st) js)"

definition AdminJobStatusCounts :: "(string \<times> int) list stmt" where
  "AdminJobStatusCounts t =
     (Inr (map (\<lambda>st. (st, int (count_status st (jobs t)))) (remdups (map jStatus (jobs t)))), t)"

definition AdminCountDeliveredSince :: "int \<Rightarrow> int stmt" where
  "AdminCountDeliveredSince since t =
     (Inr (int (length (filter (\<lambda>j. jStatus j = ''delivered'' \<and>
        (case jDeliveredAt j of None \<Rightarrow> False | Some d \<Rightarrow> since \<le> d)) (jobs t)))), t)"

section \<open>Mailboxes and slots\<close>

definition UpdateMailboxLiveness :: "int \<Rightarrow> uuid \<Rightarrow> string \<Rightarrow> unit stmt" where
  "UpdateMailboxLiveness now i st t = (Inr (), t\<lparr>mailboxes :=
     update_where (\<lambda>m. mbID m = i) (\<lambda>m. m\<lparr>mbStatus := st, mbLastHeartbeatAt := Some now\<rparr>) (mailboxes t)\<rparr>)"

record AdminListMailboxesRow =
  amMailboxID :: uuid
  amBuildingAddress :: string
  amStatus :: string
  amLastHeartbeatAt :: "int option"

definition mailbox_row :: "tables \<Rightarrow> mailbox \<Rightarrow> AdminListMailboxesRow option" where
  "mailbox_row t m = map_option (\<lambda>b. \<lparr>amMailboxID = mbID m, amBuildingAddress = bdAddress b,
     amStatus = mbStatus m, amLastHeartbeatAt = mbLastHeartbeatAt m\<rparr>)
     (find (\<lambda>b. bdID b = mbBuildingID m) (buildings t))"

definition AdminListMailboxes :: "(string \<Rightarrow> string) \<Rightarrow> AdminListMailboxesRow list stmt" where
  "AdminListMailboxes collate t =
     (Inr (sort_key (\<lambda>r. collate (amBuildingAddress r)) (List.map_filter (mailbox_row t) (mailboxes t))), t)"

definition AdminListSlots :: "mailbox_slot list stmt" where
  "AdminListSlots t =
     (Inr (sort_key (\<lambda>s. uint (slMailboxID s)) (sort_key slSlotNumber (mailbox_slots t))), t)"

section \<open>Recipients\<close>

record ResolveRecipientRow =
  rrRecipientID :: uuid
  rrSlotID :: uuid
  rrMailboxID :: uuid
  rrPublicKeyPem :: string

definition ResolveRecipient :: "uuid \<Rightarrow> ResolveRecipientRow stmt" where
  "ResolveRecipient i t =
     (case find (\<lambda>r. rsID r = i) (residents t) of None \<Rightarrow> (Inl ErrNoRows, t)
      | Some r \<Rightarrow> (case slot_of t (rsSlotID r) of None \<Rightarrow> (Inl ErrNoRows, t)
        | Some s \<Rightarrow> (case find (\<lambda>m. mbID m = slMailboxID s) (mailboxes t) of None \<Rightarrow> (Inl ErrNoRows, t)
          | Some m \<Rightarrow> (Inr \<lparr>rrRecipientID = i, rrSlotID = slID s, rrMailboxID = mbID m,
                           rrPublicKeyPem = mbPublicKeyPem m\<rparr>, t))))"

text \<open>
  \<^verbatim>\<open>ILIKE\<close> on ASCII text: a percent sign stands for any text, an underscore for any character,
  a backslash takes the next character literally, and letter case does not count.
\<close>

fun ilike :: "string \<Rightarrow> string \<Rightarrow> bool" where
  "ilike [] t = (t = [])"
| "ilike (c # p) [] = (c = CHR ''%'' \<and> ilike p [])"
| "ilike (c # p) (x # t) =
     (if c = CHR ''%'' then ilike p (x # t) \<or> ilike (c # p) t
      else if c = CHR ''_'' then ilike p t
      else if c = CHR 0x5C then
        (case p of [] \<Rightarrow> False | d # q \<Rightarrow> toLowerChar d = toLowerChar x \<and> ilike q t)
      else toLowerChar c = toLowerChar x \<and> ilike p t)"

record SearchRecipientsRow =
  sqRecipientID :: uuid
  sqFullName :: string
  sqBuildingAddress :: string

text \<open>The joined rows, with the name as pgcrypto decrypts it; one bad row fails the query.\<close>

definition recipient_row :: "(bytes \<Rightarrow> string option) \<Rightarrow> tables \<Rightarrow> resident \<Rightarrow>
    (go_error + SearchRecipientsRow) option" where
  "recipient_row decrypt t r =
     (case slot_of t (rsSlotID r) of None \<Rightarrow> None
      | Some s \<Rightarrow> (case find (\<lambda>m. mbID m = slMailboxID s) (mailboxes t) of None \<Rightarrow> None
        | Some m \<Rightarrow> (case find (\<lambda>b. bdID b = mbBuildingID m) (buildings t) of None \<Rightarrow> None
          | Some b \<Rightarrow> Some (case decrypt (rsNameEnc r) of None \<Rightarrow> Inl (PqError ''39000'')
              | Some n \<Rightarrow> Inr \<lparr>sqRecipientID = rsID r, sqFullName = n, sqBuildingAddress = bdAddress b\<rparr>))))"

fun collect_rows :: "('a res) list \<Rightarrow> 'a list res" where
  "collect_rows [] = Inr []"
| "collect_rows (Inl e # xs) = Inl e"
| "collect_rows (Inr x # xs) = (case collect_rows xs of Inl e \<Rightarrow> Inl e | Inr ys \<Rightarrow> Inr (x # ys))"

definition SearchRecipients :: "(bytes \<Rightarrow> string option) \<Rightarrow> (string \<Rightarrow> string) \<Rightarrow> string \<Rightarrow>
    SearchRecipientsRow list stmt" where
  "SearchRecipients decrypt collate q t =
     (case collect_rows (List.map_filter (recipient_row decrypt t) (residents t)) of
        Inl e \<Rightarrow> (Inl e, t)
      | Inr rows \<Rightarrow> (Inr (take 20 (sort_key (\<lambda>r. collate (sqFullName r))
          (filter (\<lambda>r. ilike (''%'' @ q @ ''%'') (sqFullName r) \<or>
                       ilike (''%'' @ q @ ''%'') (sqBuildingAddress r)) rows))), t))"

section \<open>Senders and refresh tokens\<close>

definition GetSenderByEmail :: "(bytes \<Rightarrow> string option) \<Rightarrow> string \<Rightarrow> sender stmt" where
  "GetSenderByEmail decrypt email t =
     (if \<exists>s\<in>set (senders t). decrypt (snEmailEnc s) = None then (Inl (PqError ''39000''), t)
      else (case find (\<lambda>s. decrypt (snEmailEnc s) = Some email) (senders t) of
              None \<Rightarrow> (Inl ErrNoRows, t) | Some s \<Rightarrow> (Inr s, t)))"

definition GetSenderByID :: "uuid \<Rightarrow> sender stmt" where
  "GetSenderByID i t =
     (case find (\<lambda>s. snID s = i) (senders t) of None \<Rightarrow> (Inl ErrNoRows, t) | Some s \<Rightarrow> (Inr s, t))"

definition InsertSender :: "uuid \<Rightarrow> int \<Rightarrow> bytes \<Rightarrow> bytes \<Rightarrow> string \<Rightarrow> (uuid \<times> string) stmt" where
  "InsertSender i now email_enc name_enc hash t =
     (if i \<in> snID ` set (senders t) then (Inl (PqError unique_violation), t)
      else (Inr (i, ''sender''), t\<lparr>senders := senders t @
        [\<lparr>snID = i, snEmailEnc = email_enc, snNameEnc = name_enc, snPasswordHash = hash,
          snRole = ''sender'', snCreatedAt = now\<rparr>]\<rparr>))"

definition InsertRefreshToken :: "uuid \<Rightarrow> int \<Rightarrow> uuid \<Rightarrow> string \<Rightarrow> int \<Rightarrow> unit stmt" where
  "InsertRefreshToken i now sid hash expires t =
     (if i \<in> rtID ` set (refresh_tokens t) then (Inl (PqError unique_violation), t)
      else if sid \<notin> snID ` set (senders t) then (Inl (PqError foreign_key_violation), t)
      else (Inr (), t\<lparr>refresh_tokens := refresh_tokens t @
        [\<lparr>rtID = i, rtSenderID = sid, rtTokenHash = hash, rtExpiresAt = expires,
          rtRevokedAt = None, rtCreatedAt = now\<rparr>]\<rparr>))"

definition active_token :: "string \<Rightarrow> refresh_token \<Rightarrow> bool" where
  "active_token h r \<longleftrightarrow> rtTokenHash r = h \<and> rtRevokedAt r = None"

definition GetActiveRefreshToken :: "string \<Rightarrow> refresh_token stmt" where
  "GetActiveRefreshToken h t =
     (case find (active_token h) (refresh_tokens t) of
        None \<Rightarrow> (Inl ErrNoRows, t) | Some r \<Rightarrow> (Inr r, t))"

definition RevokeRefreshTokenByHash :: "int \<Rightarrow> string \<Rightarrow> unit stmt" where
  "RevokeRefreshTokenByHash now h t = (Inr (), t\<lparr>refresh_tokens :=
     update_where (active_token h) (\<lambda>r. r\<lparr>rtRevokedAt := Some now\<rparr>) (refresh_tokens t)\<rparr>)"

section \<open>The audit log\<close>

definition InsertAuditEvent :: "uuid \<Rightarrow> int \<Rightarrow> uuid \<Rightarrow> string \<Rightarrow> uuid option \<Rightarrow> unit stmt" where
  "InsertAuditEvent i now jid action actor t =
     (if i \<in> auID ` set (audit_events t) then (Inl (PqError unique_violation), t)
      else if jid \<notin> jID ` set (jobs t) then (Inl (PqError foreign_key_violation), t)
      else (Inr (), t\<lparr>audit_events := audit_events t @
        [\<lparr>auID = i, auJobID = jid, auAction = action, auActorID = actor, auTimestamp = now\<rparr>]\<rparr>))"

end
