(* ===== verification/Schema.thy ===== *)
theory Schema
  imports Tables
begin

text \<open>
  What the statements of \<^verbatim>\<open>queries.sql.go\<close> keep true together: the constraints of \<^verbatim>\<open>schema.sql\<close>
  and the monotonicity of the database (the audit log only grows, a job keeps its identity, key and
  routing, a sender is never changed or promoted, a revoked token stays revoked). Every handler
  changes the database through these statements only, so the facts lift to all of them.
\<close>

section \<open>Two shapes of argument over steps\<close>

locale invariant_steps =
  fixes step :: "'s \<Rightarrow> 's \<Rightarrow> bool" and inv :: "'s \<Rightarrow> bool"
  assumes keeps: "step s t \<Longrightarrow> inv s \<Longrightarrow> inv t"
begin

lemma steps_keep: "step\<^sup>*\<^sup>* s t \<Longrightarrow> inv s \<Longrightarrow> inv t"
  by (induction rule: rtranclp_induct) (auto intro: keeps)

end

locale monotone_steps =
  fixes step :: "'s \<Rightarrow> 's \<Rightarrow> bool" and le :: "'s \<Rightarrow> 's \<Rightarrow> bool"
  assumes le_refl: "le s s"
    and le_trans: "le s t \<Longrightarrow> le t u \<Longrightarrow> le s u"
    and step_le: "step s t \<Longrightarrow> le s t"
begin

lemma steps_le: "step\<^sup>*\<^sup>* s t \<Longrightarrow> le s t"
  by (induction rule: rtranclp_induct) (auto intro: le_refl le_trans step_le)

end

section \<open>One writing statement\<close>

inductive db_step :: "tables \<Rightarrow> tables \<Rightarrow> bool" where
  InsertJob: "db_step t (snd (InsertJob i now p t))"
| MarkJobDispatching: "db_step t (snd (MarkJobDispatching i t))"
| RequeueJob: "db_step t (snd (RequeueJob i t))"
| SetJobBlobDeleted: "db_step t (snd (SetJobBlobDeleted now i t))"
| UpdateJobStatus: "db_step t (snd (UpdateJobStatus now i st t))"
| UpdateMailboxLiveness: "db_step t (snd (UpdateMailboxLiveness now i st t))"
| InsertSender: "db_step t (snd (InsertSender i now e n h t))"
| InsertRefreshToken: "db_step t (snd (InsertRefreshToken i now s h x t))"
| RevokeRefreshTokenByHash: "db_step t (snd (RevokeRefreshTokenByHash now h t))"
| InsertAuditEvent: "db_step t (snd (InsertAuditEvent i now j a u t))"

abbreviation db_steps :: "tables \<Rightarrow> tables \<Rightarrow> bool" where
  "db_steps \<equiv> db_step\<^sup>*\<^sup>*"

lemmas db_steps1 = db_step.intros [THEN r_into_rtranclp [of db_step]]

section \<open>The schema's constraints\<close>

definition job_identity :: "job \<Rightarrow> bool" where
  "job_identity j \<longleftrightarrow> jSenderID j \<noteq> None \<or> jGuestTokenHash j \<noteq> None"

definition job_refs :: "tables \<Rightarrow> job \<Rightarrow> bool" where
  "job_refs t j \<longleftrightarrow> jMailboxID j \<in> mbID ` set (mailboxes t) \<and> jSlotID j \<in> slID ` set (mailbox_slots t)
     \<and> (\<forall>s\<in>set_option (jSenderID j). s \<in> snID ` set (senders t))"

definition schema_ok :: "tables \<Rightarrow> bool" where
  "schema_ok t \<longleftrightarrow>
     distinct (map jID (jobs t)) \<and> distinct (map auID (audit_events t)) \<and>
     distinct (map snID (senders t)) \<and> distinct (map rtID (refresh_tokens t)) \<and>
     (\<forall>j\<in>set (jobs t). job_identity j \<and> job_refs t j) \<and>
     (\<forall>a\<in>set (audit_events t). auJobID a \<in> jID ` set (jobs t)) \<and>
     (\<forall>r\<in>set (refresh_tokens t). rtSenderID r \<in> snID ` set (senders t))"

section \<open>What never changes\<close>

text \<open>The columns of a job no statement writes.\<close>

definition job_core :: "job \<Rightarrow> job" where
  "job_core j = j\<lparr>jStatus := [], jDeliveredAt := None, jBlobDeletedAt := None\<rparr>"

definition jobs_le :: "job list \<Rightarrow> job list \<Rightarrow> bool" where
  "jobs_le xs ys \<longleftrightarrow> prefix (map job_core xs) (map job_core ys)"

definition token_le :: "refresh_token \<Rightarrow> refresh_token \<Rightarrow> bool" where
  "token_le r r' \<longleftrightarrow> r'\<lparr>rtRevokedAt := None\<rparr> = r\<lparr>rtRevokedAt := None\<rparr> \<and>
     (rtRevokedAt r \<noteq> None \<longrightarrow> rtRevokedAt r' = rtRevokedAt r)"

definition tokens_le :: "refresh_token list \<Rightarrow> refresh_token list \<Rightarrow> bool" where
  "tokens_le xs ys \<longleftrightarrow> length xs \<le> length ys \<and> list_all2 token_le xs (take (length xs) ys)"

definition senders_le :: "sender list \<Rightarrow> sender list \<Rightarrow> bool" where
  "senders_le xs ys \<longleftrightarrow> (\<exists>zs. ys = xs @ zs \<and> (\<forall>s\<in>set zs. snRole s = ''sender''))"

definition db_le :: "tables \<Rightarrow> tables \<Rightarrow> bool" where
  "db_le t u \<longleftrightarrow> prefix (audit_events t) (audit_events u) \<and> jobs_le (jobs t) (jobs u) \<and>
     senders_le (senders t) (senders u) \<and> tokens_le (refresh_tokens t) (refresh_tokens u) \<and>
     buildings u = buildings t \<and> mailbox_slots u = mailbox_slots t \<and> residents u = residents t \<and>
     map mbID (mailboxes u) = map mbID (mailboxes t)"

subsection \<open>The parts are preorders\<close>

lemma jobs_le_refl [simp]: "jobs_le xs xs"
  by (simp add: jobs_le_def)

lemma senders_le_refl [simp]: "senders_le xs xs"
  by (simp add: senders_le_def)

lemma token_le_refl [simp]: "token_le r r"
  by (simp add: token_le_def)

lemma token_le_trans: "token_le a b \<Longrightarrow> token_le b c \<Longrightarrow> token_le a c"
  by (auto simp: token_le_def)

lemma tokens_le_refl [simp]: "tokens_le xs xs"
  by (simp add: tokens_le_def list_all2_refl)

lemma tokens_le_append [simp]: "tokens_le xs (xs @ ys)"
  by (simp add: tokens_le_def list_all2_refl)

lemma tokens_le_trans: "tokens_le xs ys \<Longrightarrow> tokens_le ys zs \<Longrightarrow> tokens_le xs zs"
  by (auto simp: tokens_le_def list_all2_conv_all_nth intro: token_le_trans)

lemma senders_le_trans: "senders_le xs ys \<Longrightarrow> senders_le ys zs \<Longrightarrow> senders_le xs zs"
  by (auto simp: senders_le_def)

lemma tokens_le_update:
  "(\<And>r. P r \<Longrightarrow> token_le r (f r)) \<Longrightarrow> tokens_le rs (update_where P f rs)"
  by (auto simp: tokens_le_def update_where_def list_all2_conv_all_nth)

lemma jobs_le_set_job:
  "(\<And>j. job_core (f j) = job_core j) \<Longrightarrow> jobs_le (jobs t) (jobs (set_job i f t))"
  by (simp add: jobs_le_def set_job_def map_update_where)

lemma job_core_updates [simp]:
  "job_core (j\<lparr>jStatus := s\<rparr>) = job_core j" "job_core (j\<lparr>jBlobDeletedAt := d\<rparr>) = job_core j"
  "job_core (apply_status now s j) = job_core j"
  by (simp_all add: job_core_def apply_status_def)

lemma job_core_fields:
  assumes "job_core j' = job_core j"
  shows "jID j' = jID j" "jSenderID j' = jSenderID j" "jGuestTokenHash j' = jGuestTokenHash j"
    "jMailboxID j' = jMailboxID j" "jSlotID j' = jSlotID j" "jEncryptedKey j' = jEncryptedKey j"
    "jBlobRef j' = jBlobRef j" "jPageCount j' = jPageCount j" "jCreatedAt j' = jCreatedAt j"
  using assms by (cases j, cases j', simp add: job_core_def)+

subsection \<open>The other tables under a job update\<close>

lemma set_job_frame [frame_simps, simp]:
  "audit_events (set_job i f t) = audit_events t" "senders (set_job i f t) = senders t"
  "refresh_tokens (set_job i f t) = refresh_tokens t" "mailboxes (set_job i f t) = mailboxes t"
  "buildings (set_job i f t) = buildings t" "mailbox_slots (set_job i f t) = mailbox_slots t"
  "residents (set_job i f t) = residents t"
  by (simp_all add: set_job_def)

lemma job_of_set_job_same [simp]:
  "(\<And>j. jID (f j) = jID j) \<Longrightarrow> job_of (set_job i f t) i = map_option f (job_of t i)"
  by (simp add: job_of_def set_job_def find_update_where_same)

lemma job_of_set_job_other [simp]:
  "(\<And>j. jID (f j) = jID j) \<Longrightarrow> k \<noteq> i \<Longrightarrow> job_of (set_job i f t) k = job_of t k"
  by (simp add: job_of_def set_job_def find_update_where_other)

lemma jID_apply_status [simp]: "jID (apply_status now st j) = jID j"
  by (simp add: apply_status_def)

lemma jStatus_apply_status [simp]: "jStatus (apply_status now st j) = st"
  by (simp add: apply_status_def)

lemma db_le_set_job: "(\<And>j. job_core (f j) = job_core j) \<Longrightarrow> db_le t (set_job i f t)"
  by (simp add: db_le_def jobs_le_set_job)

lemma db_step_le: "db_step t u \<Longrightarrow> db_le t u"
proof (induction rule: db_step.induct)
  case (InsertJob t i now p)
  then show ?case by (auto simp: InsertJob_def db_le_def jobs_le_def)
next
  case (RevokeRefreshTokenByHash t now h)
  have "tokens_le rs (update_where (active_token h) (\<lambda>r. r\<lparr>rtRevokedAt := Some now\<rparr>) rs)" for rs
    by (rule tokens_le_update) (simp add: token_le_def active_token_def)
  then show ?case by (simp add: RevokeRefreshTokenByHash_def db_le_def)
next
  case (InsertSender t i now e n h)
  then show ?case by (auto simp: InsertSender_def db_le_def senders_le_def)
next
  case (UpdateMailboxLiveness t now i st)
  then show ?case by (simp add: UpdateMailboxLiveness_def db_le_def map_update_where)
qed (auto simp: MarkJobDispatching_def RequeueJob_def SetJobBlobDeleted_def UpdateJobStatus_def
       InsertRefreshToken_def InsertAuditEvent_def intro!: db_le_set_job split: option.splits,
     auto simp: db_le_def)

interpretation db_mono: monotone_steps db_step db_le
proof
  fix s t u
  show "db_le s s" by (simp add: db_le_def)
  show "db_le s t \<Longrightarrow> db_le t u \<Longrightarrow> db_le s u"
    by (auto simp: db_le_def jobs_le_def
        intro: senders_le_trans tokens_le_trans prefix_order.trans)
  show "db_step s t \<Longrightarrow> db_le s t" by (rule db_step_le)
qed

section \<open>The constraints are kept\<close>

lemma schema_ok_set_job:
  assumes "\<And>j. job_core (f j) = job_core j" "schema_ok t"
  shows "schema_ok (set_job i f t)"
proof -
  note fl = job_core_fields [OF assms(1)]
  have ids: "map jID (jobs (set_job i f t)) = map jID (jobs t)"
    by (simp add: set_job_def map_update_where fl)
  then have idset: "jID ` set (jobs (set_job i f t)) = jID ` set (jobs t)"
    by (metis list.set_map)
  have "job_identity j \<and> job_refs (set_job i f t) j" if j: "j \<in> set (jobs (set_job i f t))" for j
  proof -
    from j obtain j0 where "j0 \<in> set (jobs t)" "j = (if jID j0 = i then f j0 else j0)"
      by (auto simp: set_job_def set_update_where)
    with assms(2) show ?thesis
      by (auto simp: schema_ok_def job_identity_def job_refs_def fl)
  qed
  with ids idset assms(2) show ?thesis by (simp add: schema_ok_def)
qed

lemma db_step_schema: "db_step t u \<Longrightarrow> schema_ok t \<Longrightarrow> schema_ok u"
proof (induction rule: db_step.induct)
  case (InsertJob t i now p)
  then show ?case
    by (auto simp: InsertJob_def schema_ok_def job_identity_def job_refs_def new_job_def
        split: option.splits)
next
  case (UpdateMailboxLiveness t now i st)
  have "map mbID (mailboxes (snd (UpdateMailboxLiveness now i st t))) = map mbID (mailboxes t)"
    by (simp add: UpdateMailboxLiveness_def map_update_where)
  then have "mbID ` set (mailboxes (snd (UpdateMailboxLiveness now i st t))) = mbID ` set (mailboxes t)"
    by (metis list.set_map)
  with UpdateMailboxLiveness show ?case
    by (simp add: UpdateMailboxLiveness_def schema_ok_def job_refs_def)
next
  case (InsertSender t i now e n h)
  then show ?case
    by (auto simp: InsertSender_def schema_ok_def job_refs_def split: option.splits)
next
  case (RevokeRefreshTokenByHash t now h)
  let ?ts = "update_where (active_token h) (\<lambda>r. r\<lparr>rtRevokedAt := Some now\<rparr>) (refresh_tokens t)"
  have "map rtID ?ts = map rtID (refresh_tokens t)" "map rtSenderID ?ts = map rtSenderID (refresh_tokens t)"
    by (simp_all add: map_update_where)
  then have "distinct (map rtID ?ts) = distinct (map rtID (refresh_tokens t))"
    "rtSenderID ` set ?ts = rtSenderID ` set (refresh_tokens t)"
    by (metis, metis list.set_map)
  with RevokeRefreshTokenByHash show ?case
    by (auto simp: RevokeRefreshTokenByHash_def schema_ok_def job_refs_def image_iff subset_eq
        dest: eq_refl [THEN subsetD])
next
  case (InsertRefreshToken t i now s h x)
  then show ?case by (auto simp: InsertRefreshToken_def schema_ok_def job_refs_def)
next
  case (InsertAuditEvent t i now j a u)
  then show ?case by (auto simp: InsertAuditEvent_def schema_ok_def job_refs_def)
qed (auto simp: MarkJobDispatching_def RequeueJob_def SetJobBlobDeleted_def UpdateJobStatus_def
      intro!: schema_ok_set_job split: option.splits)

interpretation db_schema: invariant_steps db_step schema_ok
  by unfold_locales (rule db_step_schema)

section \<open>Reading statements change nothing\<close>

lemma reads_only [simp, frame_simps]:
  "snd (LockJobForDispatch l i t) = t" "snd (GetJobForStream i t) = t"
  "snd (GetJobsBySender s t) = t" "snd (AdminListJobs st off lim t) = t"
  "snd (AdminCountJobs st t) = t" "snd (AdminJobStatusCounts t) = t"
  "snd (AdminCountDeliveredSince since t) = t" "snd (AdminListMailboxes coll t) = t"
  "snd (AdminListSlots t) = t" "snd (ResolveRecipient i t) = t"
  "snd (SearchRecipients dec coll q t) = t" "snd (GetSenderByEmail dec e t) = t"
  "snd (GetSenderByID i t) = t" "snd (GetActiveRefreshToken h t) = t"
  by (simp_all add: LockJobForDispatch_def GetJobForStream_def GetJobsBySender_def AdminListJobs_def
      AdminCountJobs_def AdminJobStatusCounts_def AdminCountDeliveredSince_def AdminListMailboxes_def
      AdminListSlots_def ResolveRecipient_def SearchRecipients_def GetSenderByEmail_def
      GetSenderByID_def GetActiveRefreshToken_def split: option.splits sum.splits)

text \<open>A job keeps its core, and a job that exists never disappears.\<close>

lemma job_of_SomeD: "job_of t i = Some j \<Longrightarrow> j \<in> set (jobs t) \<and> jID j = i"
  unfolding job_of_def by (rule find_SomeD)

lemma find_jobs_le:
  assumes "jobs_le xs ys" "find (\<lambda>j. jID j = i) xs = Some j"
  shows "\<exists>j'. find (\<lambda>j. jID j = i) ys = Some j' \<and> job_core j' = job_core j"
  using assms
proof (induction xs arbitrary: ys)
  case Nil
  then show ?case by simp
next
  case (Cons x xs)
  from Cons.prems(1) obtain y ys' where ys: "ys = y # ys'" "job_core y = job_core x" "jobs_le xs ys'"
    by (cases ys) (auto simp: jobs_le_def)
  have "jID y = jID x" using ys(2) by (rule job_core_fields)
  then show ?case using Cons ys by auto
qed

lemma db_le_job:
  "db_le t u \<Longrightarrow> job_of t i = Some j \<Longrightarrow> \<exists>j'. job_of u i = Some j' \<and> job_core j' = job_core j"
  by (auto simp: db_le_def job_of_def intro: find_jobs_le)

end
