(* ===== verification/Json.thy ===== *)
theory Json
  imports Prelude "HOL-Library.List_Lexorder" "HOL-Library.Char_ord"
begin

text \<open>
  JSON documents as parse trees, and the rules of package \<^verbatim>\<open>encoding/json\<close> the sources rely on:
  a struct is written field by field, \<^verbatim>\<open>omitempty\<close> drops a zero value, a map is written in key
  order; reading visits the members of an object in order, matches a member to a field without
  regard to letter case, ignores unknown members, lets \<^verbatim>\<open>null\<close> leave a scalar alone and empty a
  map, and fails on a value of the wrong type or an integer out of range. A text that is not
  JSON at all is \<^term>\<open>None\<close> of the type of wire texts.
\<close>

datatype json = JNull | JBool bool | JInt int | JFrac string | JStr string
  | JArr "json list" | JObj "(string \<times> json) list"

type_synonym wire = "json option"

section \<open>Writing\<close>

definition omit_str :: "string \<Rightarrow> string \<Rightarrow> (string \<times> json) list" where
  "omit_str k s = (if s = [] then [] else [(k, JStr s)])"

definition json_map :: "('v \<Rightarrow> json) \<Rightarrow> (string \<times> 'v) list \<Rightarrow> json" where
  "json_map f m = JObj (map (\<lambda>(k, v). (k, f v)) (sort_key fst m))"

section \<open>Reading\<close>

definition get_str :: "json \<Rightarrow> string \<Rightarrow> string option" where
  "get_str v old = (case v of JStr s \<Rightarrow> Some s | JNull \<Rightarrow> Some old | _ \<Rightarrow> None)"

definition get_int :: "json \<Rightarrow> int \<Rightarrow> int option" where
  "get_int v old = (case v of JInt i \<Rightarrow> (if in_int64 i then Some i else None)
                            | JNull \<Rightarrow> Some old | _ \<Rightarrow> None)"

definition get_int32 :: "json \<Rightarrow> int \<Rightarrow> int option" where
  "get_int32 v old = (case v of JInt i \<Rightarrow> (if in_int32 i then Some i else None)
                              | JNull \<Rightarrow> Some old | _ \<Rightarrow> None)"

text \<open>The members of an object update the target one after the other.\<close>

fun read_members :: "('a \<Rightarrow> string \<Rightarrow> json \<Rightarrow> 'a option) \<Rightarrow> 'a \<Rightarrow> (string \<times> json) list \<Rightarrow> 'a option" where
  "read_members fld x [] = Some x"
| "read_members fld x ((k, v) # ms) =
     (case fld x (toLower k) v of None \<Rightarrow> None | Some y \<Rightarrow> read_members fld y ms)"

definition read_struct :: "('a \<Rightarrow> string \<Rightarrow> json \<Rightarrow> 'a option) \<Rightarrow> 'a \<Rightarrow> json \<Rightarrow> 'a option" where
  "read_struct fld zero v =
     (case v of JObj ms \<Rightarrow> read_members fld zero ms | JNull \<Rightarrow> Some zero | _ \<Rightarrow> None)"

fun read_entries :: "(json \<Rightarrow> 'v option) \<Rightarrow> (string \<times> 'v) list \<Rightarrow> (string \<times> json) list
    \<Rightarrow> (string \<times> 'v) list option" where
  "read_entries rd m [] = Some m"
| "read_entries rd m ((k, v) # ms) =
     (case rd v of None \<Rightarrow> None | Some x \<Rightarrow> read_entries rd (AList.update k x m) ms)"

definition read_map :: "(json \<Rightarrow> 'v option) \<Rightarrow> json \<Rightarrow> (string \<times> 'v) list \<Rightarrow> (string \<times> 'v) list option" where
  "read_map rd v old =
     (case v of JObj ms \<Rightarrow> read_entries rd old ms | JNull \<Rightarrow> Some [] | _ \<Rightarrow> None)"

section \<open>Lemmas\<close>

lemma read_members_append:
  "read_members fld x (ms @ ns) =
     (case read_members fld x ms of None \<Rightarrow> None | Some y \<Rightarrow> read_members fld y ns)"
  by (induction fld x ms rule: read_members.induct) (auto split: option.splits)

lemma update_new: "k \<notin> fst ` set m \<Longrightarrow> AList.update k v m = m @ [(k, v)]"
  by (induction m) auto

lemma read_entries_map:
  assumes "\<And>v. v \<in> snd ` set m \<Longrightarrow> rd (f v) = Some v"
    and "distinct (map fst (acc @ m))"
  shows "read_entries rd acc (map (\<lambda>(k, v). (k, f v)) m) = Some (acc @ m)"
  using assms
proof (induction m arbitrary: acc)
  case Nil
  then show ?case by simp
next
  case (Cons e m)
  obtain k v where e: "e = (k, v)" by fastforce
  have "AList.update k v acc = acc @ [(k, v)]"
    using Cons.prems(2) e by (intro update_new) auto
  then show ?case using Cons e by simp
qed

text \<open>A map value in canonical form: keys in order, without repetition.\<close>

definition canonical :: "(string \<times> 'v) list \<Rightarrow> bool" where
  "canonical m \<longleftrightarrow> sorted (map fst m) \<and> distinct (map fst m)"

lemma read_map_json_map:
  assumes "canonical m" "\<And>v. v \<in> snd ` set m \<Longrightarrow> rd (f v) = Some v"
  shows "read_map rd (json_map f m) [] = Some m"
proof -
  have "sort_key fst m = m"
    using assms(1) by (simp add: canonical_def sorted_sort_id sort_key_id_if_sorted)
  then show ?thesis
    using assms read_entries_map [of m rd f "[]"] by (simp add: read_map_def json_map_def canonical_def)
qed

lemma if_nil [simp]: "(if s = [] then [] else s) = s"
  by simp

end
