(* ===== verification/Services.thy ===== *)
theory Services
  imports Schema Json
begin

text \<open>
  The environment the services run in. Everything that is not under the repository's own source
  (Postgres' failures and clock, Redis, MinIO, the uuid, JWT and bcrypt packages, random bytes) is a
  field of the record \<^verbatim>\<open>env\<close>: a function over an unspecified environment state. Such a function
  may answer with any value or error and may change that state in any way, so a theorem about
  every \<^verbatim>\<open>env\<close> covers every failure. What the code relies on is stated as a law over these fields.

  The database is the part of the world whose behaviour the repository does fix, by the SQL text
  of its queries; the environment decides when a statement fails.
\<close>

section \<open>Values that cross the boundary\<close>

datatype xvalue = VStr string | VOther

type_synonym xvalues = "(string \<times> xvalue) list"

record xmessage =
  xID :: string
  xValues :: xvalues

record consumer_info =
  ciName :: string
  ciPending :: nat
  ciIdle :: int

record access_claims =
  acSubject :: string
  acRole :: string
  acExpiresAt :: int
  acIssuedAt :: int

text \<open>
  A database call may be lost before the statement ran, or its answer may be lost after it did.
\<close>
datatype fault = NoFault | FailBefore string | FailAfter string

section \<open>The environment\<close>

record 's env =
  uuid_parse :: "string \<Rightarrow> uuid option"
  uuid_string :: "uuid \<Rightarrow> string"
  uuid_new :: "'s \<Rightarrow> uuid \<times> 's"
  time_now :: "'s \<Rightarrow> int"
  ctx_err :: "'s \<Rightarrow> bool"
  rand_read :: "nat \<Rightarrow> 's \<Rightarrow> bytes res \<times> 's"
  pg_fault :: "'s \<Rightarrow> fault \<times> 's"
  pg_now :: "'s \<Rightarrow> int"
  pg_uuid :: "'s \<Rightarrow> uuid \<times> 's"
  pg_row_locked :: "uuid \<Rightarrow> 's \<Rightarrow> bool"
  pgp_decrypt :: "string \<Rightarrow> bytes \<Rightarrow> string option"
  pgp_encrypt :: "string \<Rightarrow> string \<Rightarrow> 's \<Rightarrow> bytes \<times> 's"
  pg_collate :: "string \<Rightarrow> string"
  r_ping :: "'s \<Rightarrow> unit res \<times> 's"
  r_get :: "string \<Rightarrow> 's \<Rightarrow> wire res \<times> 's"
  r_set :: "string \<Rightarrow> json \<Rightarrow> int \<Rightarrow> 's \<Rightarrow> unit res \<times> 's"
  r_publish :: "string \<Rightarrow> json \<Rightarrow> 's \<Rightarrow> nat res \<times> 's"
  r_subscribe :: "string \<Rightarrow> 's \<Rightarrow> unit res \<times> 's"
  r_xadd :: "string \<Rightarrow> xvalues \<Rightarrow> 's \<Rightarrow> string res \<times> 's"
  r_xgroup_create :: "string \<Rightarrow> string \<Rightarrow> string \<Rightarrow> 's \<Rightarrow> unit res \<times> 's"
  r_xreadgroup :: "string \<Rightarrow> string \<Rightarrow> string \<Rightarrow> nat \<Rightarrow> 's \<Rightarrow> xmessage list list res \<times> 's"
  r_xack :: "string \<Rightarrow> string \<Rightarrow> string \<Rightarrow> 's \<Rightarrow> unit res \<times> 's"
  r_xautoclaim :: "string \<Rightarrow> string \<Rightarrow> string \<Rightarrow> int \<Rightarrow> string \<Rightarrow> nat \<Rightarrow> 's \<Rightarrow> (xmessage list \<times> string) res \<times> 's"
  r_xpending :: "string \<Rightarrow> string \<Rightarrow> string \<Rightarrow> nat \<Rightarrow> 's \<Rightarrow> string list res \<times> 's"
  r_xgroup_delconsumer :: "string \<Rightarrow> string \<Rightarrow> string \<Rightarrow> 's \<Rightarrow> unit res \<times> 's"
  r_xinfo_consumers :: "string \<Rightarrow> string \<Rightarrow> 's \<Rightarrow> consumer_info list res \<times> 's"
  m_presign_put :: "string \<Rightarrow> string \<Rightarrow> int \<Rightarrow> 's \<Rightarrow> string res \<times> 's"
  m_presign_get :: "string \<Rightarrow> string \<Rightarrow> int \<Rightarrow> 's \<Rightarrow> string res \<times> 's"
  m_stat :: "string \<Rightarrow> string \<Rightarrow> 's \<Rightarrow> unit res \<times> 's"
  m_error_code :: "go_error \<Rightarrow> string"
  m_remove :: "string \<Rightarrow> string \<Rightarrow> 's \<Rightarrow> unit res \<times> 's"
  m_bucket_exists :: "string \<Rightarrow> 's \<Rightarrow> bool res \<times> 's"
  m_make_bucket :: "string \<Rightarrow> 's \<Rightarrow> unit res \<times> 's"
  sha256 :: "bytes \<Rightarrow> bytes"
  bcrypt_compare :: "string \<Rightarrow> string \<Rightarrow> bool"
  bcrypt_generate :: "string \<Rightarrow> 's \<Rightarrow> string res \<times> 's"
  jwt_sign :: "access_claims \<Rightarrow> string res"
  jwt_parse :: "string list \<Rightarrow> string \<Rightarrow> 's \<Rightarrow> access_claims res"
  mail_parse :: "string \<Rightarrow> string option"

record 's world =
  db :: tables
  ext :: 's

type_synonym ('s, 'a) op = "'s world \<Rightarrow> 'a \<times> 's world"

text \<open>A call to a service leaves the database alone.\<close>

definition call :: "('s \<Rightarrow> 'a \<times> 's) \<Rightarrow> ('s, 'a) op" where
  "call f w = (case f (ext w) of (r, s) \<Rightarrow> (r, w\<lparr>ext := s\<rparr>))"

lemma db_call [simp, frame_simps]: "db (snd (call f w)) = db w"
  by (simp add: call_def split: prod.splits)

lemma call_eqD: "call f w = (r, w') \<Longrightarrow> f (ext w) = (r, ext w') \<and> db w' = db w"
  by (auto simp: call_def split: prod.splits)

section \<open>Running a statement\<close>

definition pg :: "'s env \<Rightarrow> 'a stmt \<Rightarrow> ('s, 'a res) op" where
  "pg E q w =
     (case pg_fault E (ext w) of (f, s) \<Rightarrow>
       (case f of
          NoFault \<Rightarrow> (fst (q (db w)), \<lparr>db = snd (q (db w)), ext = s\<rparr>)
        | FailBefore m \<Rightarrow> (Inl (Err m), \<lparr>db = db w, ext = s\<rparr>)
        | FailAfter m \<Rightarrow> (Inl (Err m), \<lparr>db = snd (q (db w)), ext = s\<rparr>)))"

text \<open>A statement with a generated id and a timestamp.\<close>

definition pg_gen :: "'s env \<Rightarrow> (uuid \<Rightarrow> int \<Rightarrow> 'a stmt) \<Rightarrow> ('s, 'a res) op" where
  "pg_gen E q w = (case call (pg_uuid E) w of (i, w1) \<Rightarrow> pg E (q i (pg_now E (ext w1))) w1)"

definition pg_at :: "'s env \<Rightarrow> (int \<Rightarrow> 'a stmt) \<Rightarrow> ('s, 'a res) op" where
  "pg_at E q w = pg E (q (pg_now E (ext w))) w"

lemma pg_InrD: "pg E q w = (Inr x, w') \<Longrightarrow> q (db w) = (Inr x, db w')"
  by (cases "q (db w)") (auto simp: pg_def split: prod.splits fault.splits)

lemma pg_InlD: "pg E q w = (Inl e, w') \<Longrightarrow>
    (db w' = db w \<or> db w' = snd (q (db w))) \<and> ((\<exists>m. e = Err m) \<or> q (db w) = (Inl e, db w'))"
  by (cases "q (db w)") (auto simp: pg_def split: prod.splits fault.splits)

lemma pg_db: "db (snd (pg E q w)) = db w \<or> db (snd (pg E q w)) = snd (q (db w))"
  by (auto simp: pg_def split: prod.splits fault.splits)

lemma pg_read [simp]: "snd (q (db w)) = db w \<Longrightarrow> db (snd (pg E q w)) = db w"
  using pg_db [of E q w] by auto

lemma pg_ext: "ext (snd (pg E q w)) = snd (pg_fault E (ext w))"
  by (auto simp: pg_def split: prod.splits fault.splits)

lemma db_steps_pg:
  "db_steps (db w) (snd (q (db w))) \<Longrightarrow> db_steps (db w) (db (snd (pg E q w)))"
  using pg_db [of E q w] by auto

section \<open>Transactions\<close>

text \<open>
  A transaction works on its own copy of the tables, which becomes the database when it commits
  and is dropped when it rolls back.
\<close>

definition BeginTx :: "'s env \<Rightarrow> ('s, unit res) op" where
  "BeginTx E = call (\<lambda>s. case pg_fault E s of (NoFault, s') \<Rightarrow> (Inr (), s')
     | (FailBefore m, s') \<Rightarrow> (Inl (Err m), s') | (FailAfter m, s') \<Rightarrow> (Inl (Err m), s'))"

definition tx_exec :: "'s env \<Rightarrow> 'a stmt \<Rightarrow> tables \<Rightarrow> ('s, 'a res \<times> tables) op" where
  "tx_exec E q t = call (\<lambda>s. case pg_fault E s of (NoFault, s') \<Rightarrow> (q t, s')
     | (FailBefore m, s') \<Rightarrow> ((Inl (Err m), t), s') | (FailAfter m, s') \<Rightarrow> ((Inl (Err m), snd (q t)), s'))"

definition CommitTx :: "'s env \<Rightarrow> tables \<Rightarrow> ('s, unit res) op" where
  "CommitTx E t w = (case pg_fault E (ext w) of
       (NoFault, s) \<Rightarrow> (Inr (), \<lparr>db = t, ext = s\<rparr>)
     | (FailBefore m, s) \<Rightarrow> (Inl (Err m), \<lparr>db = db w, ext = s\<rparr>)
     | (FailAfter m, s) \<Rightarrow> (Inl (Err m), \<lparr>db = t, ext = s\<rparr>))"

lemma tx_exec_InrD: "tx_exec E q t w = ((Inr x, t'), w') \<Longrightarrow> q t = (Inr x, t') \<and> db w' = db w"
  by (auto simp: tx_exec_def call_def split: prod.splits fault.splits)

lemma tx_exec_InlD: "tx_exec E q t w = ((Inl e, t'), w') \<Longrightarrow>
    db w' = db w \<and> ((\<exists>m. e = Err m) \<or> q t = (Inl e, t'))"
  by (auto simp: tx_exec_def call_def split: prod.splits fault.splits)

lemma CommitTx_InrD: "CommitTx E t w = (Inr u, w') \<Longrightarrow> db w' = t"
  by (auto simp: CommitTx_def split: prod.splits fault.splits)

lemma CommitTx_InlD: "CommitTx E t w = (Inl e, w') \<Longrightarrow> (db w' = db w \<or> db w' = t) \<and> (\<exists>m. e = Err m)"
  by (auto simp: CommitTx_def split: prod.splits fault.splits)

lemma BeginTx_db [simp]: "db (snd (BeginTx E w)) = db w"
  by (simp add: BeginTx_def)

lemma tx_exec_db [simp]: "db (snd (tx_exec E q t w)) = db w"
  by (simp add: tx_exec_def)

lemma CommitTx_db: "db (snd (CommitTx E t w)) = db w \<or> db (snd (CommitTx E t w)) = t"
  by (auto simp: CommitTx_def split: prod.splits fault.splits)

section \<open>The writing queries, with their generated columns\<close>

definition qInsertJob :: "'s env \<Rightarrow> InsertJobParams \<Rightarrow> ('s, (uuid \<times> string) res) op" where
  "qInsertJob E p = pg_gen E (\<lambda>i now. InsertJob i now p)"

definition qInsertAuditEvent :: "'s env \<Rightarrow> uuid \<Rightarrow> string \<Rightarrow> uuid option \<Rightarrow> ('s, unit res) op" where
  "qInsertAuditEvent E j a u = pg_gen E (\<lambda>i now. InsertAuditEvent i now j a u)"

definition qInsertSender :: "'s env \<Rightarrow> bytes \<Rightarrow> bytes \<Rightarrow> string \<Rightarrow> ('s, (uuid \<times> string) res) op" where
  "qInsertSender E e n h = pg_gen E (\<lambda>i now. InsertSender i now e n h)"

definition qInsertRefreshToken :: "'s env \<Rightarrow> uuid \<Rightarrow> string \<Rightarrow> int \<Rightarrow> ('s, unit res) op" where
  "qInsertRefreshToken E sid h x = pg_gen E (\<lambda>i now. InsertRefreshToken i now sid h x)"

definition qUpdateJobStatus :: "'s env \<Rightarrow> uuid \<Rightarrow> string \<Rightarrow> ('s, UpdateJobStatusRow res) op" where
  "qUpdateJobStatus E i st = pg_at E (\<lambda>now. UpdateJobStatus now i st)"

definition qSetJobBlobDeleted :: "'s env \<Rightarrow> uuid \<Rightarrow> ('s, unit res) op" where
  "qSetJobBlobDeleted E i = pg_at E (\<lambda>now. SetJobBlobDeleted now i)"

definition qUpdateMailboxLiveness :: "'s env \<Rightarrow> uuid \<Rightarrow> string \<Rightarrow> ('s, unit res) op" where
  "qUpdateMailboxLiveness E i st = pg_at E (\<lambda>now. UpdateMailboxLiveness now i st)"

definition qRevokeRefreshTokenByHash :: "'s env \<Rightarrow> string \<Rightarrow> ('s, unit res) op" where
  "qRevokeRefreshTokenByHash E h = pg_at E (\<lambda>now. RevokeRefreshTokenByHash now h)"

lemma pg_gen_cases:
  obtains i now w1 where "pg_gen E q w = pg E (q i now) w1" "db w1 = db w"
  by (cases "call (pg_uuid E) w") (auto simp: pg_gen_def dest: call_eqD)

lemma db_steps_pg_gen:
  "(\<And>i now t. db_steps t (snd (q i now t))) \<Longrightarrow> db_steps (db w) (db (snd (pg_gen E q w)))"
  by (rule pg_gen_cases [of E q w]) (metis db_steps_pg)

lemma db_steps_pg_at:
  "(\<And>now t. db_steps t (snd (q now t))) \<Longrightarrow> db_steps (db w) (db (snd (pg_at E q w)))"
  by (simp add: pg_at_def db_steps_pg)

text \<open>Every query changes the database by the statements it is made of.\<close>

lemma query_steps:
  "db_steps (db w) (db (snd (qInsertJob E p w)))"
  "db_steps (db w) (db (snd (qInsertAuditEvent E i a u w)))"
  "db_steps (db w) (db (snd (qInsertSender E e n h w)))"
  "db_steps (db w) (db (snd (qInsertRefreshToken E i h x w)))"
  "db_steps (db w) (db (snd (qUpdateJobStatus E i st w)))"
  "db_steps (db w) (db (snd (qSetJobBlobDeleted E i w)))"
  "db_steps (db w) (db (snd (qUpdateMailboxLiveness E i st w)))"
  "db_steps (db w) (db (snd (qRevokeRefreshTokenByHash E h w)))"
  "db_steps (db w) (db (snd (pg E (RequeueJob i) w)))"
  by (simp_all add: qInsertJob_def qInsertAuditEvent_def qInsertSender_def qInsertRefreshToken_def
      qUpdateJobStatus_def qSetJobBlobDeleted_def qUpdateMailboxLiveness_def
      qRevokeRefreshTokenByHash_def db_steps_pg_gen db_steps_pg_at db_steps_pg db_steps1)

end
