(* ===== verification/Frames.thy ===== *)
theory Frames
  imports Json
begin

text \<open>
  The messages of the printer link. \<^verbatim>\<open>services/cloud/link/frames.go\<close> and
  \<^verbatim>\<open>services/printer/frames.go\<close> declare the same union twice, one copy per deployable; both are
  modelled, with their JSON forms, and shown to agree on the wire. Also here: the dispatch
  payload of \<^verbatim>\<open>dispatch/route.go\<close>, which the printer reads as a frame, and the status payload
  relayed to the sender's event stream.
\<close>

section \<open>Slot occupancy\<close>

record slot_state =
  Current :: int
  Max :: int

definition slot_json :: "slot_state \<Rightarrow> json" where
  "slot_json s = JObj [(''current'', JInt (Current s)), (''max'', JInt (Max s))]"

definition slot_field :: "slot_state \<Rightarrow> string \<Rightarrow> json \<Rightarrow> slot_state option" where
  "slot_field s k v =
     (if k = ''current'' then map_option (\<lambda>i. s\<lparr>Current := i\<rparr>) (get_int v (Current s))
      else if k = ''max'' then map_option (\<lambda>i. s\<lparr>Max := i\<rparr>) (get_int v (Max s))
      else Some s)"

definition slot_read :: "json \<Rightarrow> slot_state option" where
  "slot_read v = read_struct slot_field \<lparr>Current = 0, Max = 0\<rparr> v"

type_synonym slots = "(string \<times> slot_state) list"

section \<open>The cloud's frame\<close>

record frame =
  fType :: string
  fMailboxID :: string
  fSlotOccupancy :: slots
  fStatus :: string
  fJobID :: string
  fError :: string
  fEncryptedKey :: string
  fBlobURL :: string

definition frame0 :: frame where
  "frame0 = \<lparr>fType = [], fMailboxID = [], fSlotOccupancy = [], fStatus = [], fJobID = [],
     fError = [], fEncryptedKey = [], fBlobURL = []\<rparr>"

definition omit_slots :: "slots \<Rightarrow> (string \<times> json) list" where
  "omit_slots m = (if m = [] then [] else [(''slot_occupancy'', json_map slot_json m)])"

definition frame_json :: "frame \<Rightarrow> json" where
  "frame_json f = JObj ([(''type'', JStr (fType f))] @
     omit_str ''mailbox_id'' (fMailboxID f) @ omit_slots (fSlotOccupancy f) @
     omit_str ''status'' (fStatus f) @ omit_str ''job_id'' (fJobID f) @
     omit_str ''error'' (fError f) @ omit_str ''encrypted_key'' (fEncryptedKey f) @
     omit_str ''blob_url'' (fBlobURL f))"

definition frame_field :: "frame \<Rightarrow> string \<Rightarrow> json \<Rightarrow> frame option" where
  "frame_field f k v =
     (if k = ''type'' then map_option (\<lambda>s. f\<lparr>fType := s\<rparr>) (get_str v (fType f))
      else if k = ''mailbox_id'' then map_option (\<lambda>s. f\<lparr>fMailboxID := s\<rparr>) (get_str v (fMailboxID f))
      else if k = ''slot_occupancy'' then
        map_option (\<lambda>m. f\<lparr>fSlotOccupancy := m\<rparr>) (read_map slot_read v (fSlotOccupancy f))
      else if k = ''status'' then map_option (\<lambda>s. f\<lparr>fStatus := s\<rparr>) (get_str v (fStatus f))
      else if k = ''job_id'' then map_option (\<lambda>s. f\<lparr>fJobID := s\<rparr>) (get_str v (fJobID f))
      else if k = ''error'' then map_option (\<lambda>s. f\<lparr>fError := s\<rparr>) (get_str v (fError f))
      else if k = ''encrypted_key'' then
        map_option (\<lambda>s. f\<lparr>fEncryptedKey := s\<rparr>) (get_str v (fEncryptedKey f))
      else if k = ''blob_url'' then map_option (\<lambda>s. f\<lparr>fBlobURL := s\<rparr>) (get_str v (fBlobURL f))
      else Some f)"

definition frame_read :: "json \<Rightarrow> frame option" where
  "frame_read v = read_struct frame_field frame0 v"

section \<open>The printer's frame\<close>

record pframe =
  pType :: string
  pMailboxID :: string
  pSlotOccupancy :: slots
  pStatus :: string
  pJobID :: string
  pError :: string
  pEncryptedKey :: string
  pBlobURL :: string

definition pframe0 :: pframe where
  "pframe0 = \<lparr>pType = [], pMailboxID = [], pSlotOccupancy = [], pStatus = [], pJobID = [],
     pError = [], pEncryptedKey = [], pBlobURL = []\<rparr>"

definition pframe_json :: "pframe \<Rightarrow> json" where
  "pframe_json f = JObj ([(''type'', JStr (pType f))] @
     omit_str ''mailbox_id'' (pMailboxID f) @ omit_slots (pSlotOccupancy f) @
     omit_str ''status'' (pStatus f) @ omit_str ''job_id'' (pJobID f) @
     omit_str ''error'' (pError f) @ omit_str ''encrypted_key'' (pEncryptedKey f) @
     omit_str ''blob_url'' (pBlobURL f))"

definition pframe_field :: "pframe \<Rightarrow> string \<Rightarrow> json \<Rightarrow> pframe option" where
  "pframe_field f k v =
     (if k = ''type'' then map_option (\<lambda>s. f\<lparr>pType := s\<rparr>) (get_str v (pType f))
      else if k = ''mailbox_id'' then map_option (\<lambda>s. f\<lparr>pMailboxID := s\<rparr>) (get_str v (pMailboxID f))
      else if k = ''slot_occupancy'' then
        map_option (\<lambda>m. f\<lparr>pSlotOccupancy := m\<rparr>) (read_map slot_read v (pSlotOccupancy f))
      else if k = ''status'' then map_option (\<lambda>s. f\<lparr>pStatus := s\<rparr>) (get_str v (pStatus f))
      else if k = ''job_id'' then map_option (\<lambda>s. f\<lparr>pJobID := s\<rparr>) (get_str v (pJobID f))
      else if k = ''error'' then map_option (\<lambda>s. f\<lparr>pError := s\<rparr>) (get_str v (pError f))
      else if k = ''encrypted_key'' then
        map_option (\<lambda>s. f\<lparr>pEncryptedKey := s\<rparr>) (get_str v (pEncryptedKey f))
      else if k = ''blob_url'' then map_option (\<lambda>s. f\<lparr>pBlobURL := s\<rparr>) (get_str v (pBlobURL f))
      else Some f)"

definition pframe_read :: "json \<Rightarrow> pframe option" where
  "pframe_read v = read_struct pframe_field pframe0 v"

section \<open>Payloads published through Redis\<close>

record dispatchPayload =
  dType :: string
  dJobID :: string
  dEncryptedKey :: string
  dBlobURL :: string

definition dispatchPayload_json :: "dispatchPayload \<Rightarrow> json" where
  "dispatchPayload_json p = JObj [(''type'', JStr (dType p)), (''job_id'', JStr (dJobID p)),
     (''encrypted_key'', JStr (dEncryptedKey p)), (''blob_url'', JStr (dBlobURL p))]"

definition jsonStatusPayload :: "frame \<Rightarrow> json" where
  "jsonStatusPayload f = JObj ([(''status'', JStr (fStatus f))] @ omit_str ''error'' (fError f))"

record streamEvent =
  eJobID :: string
  eStatus :: string
  eError :: string

definition streamEvent_json :: "streamEvent \<Rightarrow> json" where
  "streamEvent_json e = JObj ([(''job_id'', JStr (eJobID e)), (''status'', JStr (eStatus e))] @
     omit_str ''error'' (eError e))"

definition streamEvent_field :: "streamEvent \<Rightarrow> string \<Rightarrow> json \<Rightarrow> streamEvent option" where
  "streamEvent_field e k v =
     (if k = ''job_id'' then map_option (\<lambda>s. e\<lparr>eJobID := s\<rparr>) (get_str v (eJobID e))
      else if k = ''status'' then map_option (\<lambda>s. e\<lparr>eStatus := s\<rparr>) (get_str v (eStatus e))
      else if k = ''error'' then map_option (\<lambda>s. e\<lparr>eError := s\<rparr>) (get_str v (eError e))
      else Some e)"

definition streamEvent_read :: "wire \<Rightarrow> streamEvent option" where
  "streamEvent_read w = (case w of None \<Rightarrow> None
     | Some v \<Rightarrow> read_struct streamEvent_field \<lparr>eJobID = [], eStatus = [], eError = []\<rparr> v)"

section \<open>Round trips\<close>

lemma wire_keys [simp]:
  "toLower ''type'' = ''type''" "toLower ''mailbox_id'' = ''mailbox_id''"
  "toLower ''slot_occupancy'' = ''slot_occupancy''" "toLower ''status'' = ''status''"
  "toLower ''job_id'' = ''job_id''" "toLower ''error'' = ''error''"
  "toLower ''encrypted_key'' = ''encrypted_key''" "toLower ''blob_url'' = ''blob_url''"
  "toLower ''current'' = ''current''" "toLower ''max'' = ''max''"
  by code_simp+

definition slot_ok :: "slot_state \<Rightarrow> bool" where
  "slot_ok s \<longleftrightarrow> in_int64 (Current s) \<and> in_int64 (Max s)"

definition slots_ok :: "slots \<Rightarrow> bool" where
  "slots_ok m \<longleftrightarrow> canonical m \<and> (\<forall>s\<in>snd ` set m. slot_ok s)"

lemma slot_read_json [simp]: "slot_ok s \<Longrightarrow> slot_read (slot_json s) = Some s"
  by (simp add: slot_read_def slot_json_def read_struct_def slot_field_def get_int_def slot_ok_def)

lemma read_slots [simp]: "slots_ok m \<Longrightarrow> read_map slot_read (json_map slot_json m) [] = Some m"
  by (rule read_map_json_map) (auto simp: slots_ok_def)

lemma frame_pieces:
  "read_members frame_field f [(''type'', JStr s)] = Some (f\<lparr>fType := s\<rparr>)"
  "fMailboxID f = [] \<Longrightarrow> read_members frame_field f (omit_str ''mailbox_id'' s) = Some (f\<lparr>fMailboxID := s\<rparr>)"
  "fStatus f = [] \<Longrightarrow> read_members frame_field f (omit_str ''status'' s) = Some (f\<lparr>fStatus := s\<rparr>)"
  "fJobID f = [] \<Longrightarrow> read_members frame_field f (omit_str ''job_id'' s) = Some (f\<lparr>fJobID := s\<rparr>)"
  "fError f = [] \<Longrightarrow> read_members frame_field f (omit_str ''error'' s) = Some (f\<lparr>fError := s\<rparr>)"
  "fEncryptedKey f = [] \<Longrightarrow>
     read_members frame_field f (omit_str ''encrypted_key'' s) = Some (f\<lparr>fEncryptedKey := s\<rparr>)"
  "fBlobURL f = [] \<Longrightarrow> read_members frame_field f (omit_str ''blob_url'' s) = Some (f\<lparr>fBlobURL := s\<rparr>)"
  by (simp_all add: omit_str_def frame_field_def get_str_def)

lemma frame_slots_piece:
  "fSlotOccupancy f = [] \<Longrightarrow> slots_ok m \<Longrightarrow>
     read_members frame_field f (omit_slots m) = Some (f\<lparr>fSlotOccupancy := m\<rparr>)"
  by (simp add: omit_slots_def frame_field_def)

lemma pframe_pieces:
  "read_members pframe_field f [(''type'', JStr s)] = Some (f\<lparr>pType := s\<rparr>)"
  "pMailboxID f = [] \<Longrightarrow> read_members pframe_field f (omit_str ''mailbox_id'' s) = Some (f\<lparr>pMailboxID := s\<rparr>)"
  "pStatus f = [] \<Longrightarrow> read_members pframe_field f (omit_str ''status'' s) = Some (f\<lparr>pStatus := s\<rparr>)"
  "pJobID f = [] \<Longrightarrow> read_members pframe_field f (omit_str ''job_id'' s) = Some (f\<lparr>pJobID := s\<rparr>)"
  "pError f = [] \<Longrightarrow> read_members pframe_field f (omit_str ''error'' s) = Some (f\<lparr>pError := s\<rparr>)"
  "pEncryptedKey f = [] \<Longrightarrow>
     read_members pframe_field f (omit_str ''encrypted_key'' s) = Some (f\<lparr>pEncryptedKey := s\<rparr>)"
  "pBlobURL f = [] \<Longrightarrow> read_members pframe_field f (omit_str ''blob_url'' s) = Some (f\<lparr>pBlobURL := s\<rparr>)"
  by (simp_all add: omit_str_def pframe_field_def get_str_def)

lemma pframe_slots_piece:
  "pSlotOccupancy f = [] \<Longrightarrow> slots_ok m \<Longrightarrow>
     read_members pframe_field f (omit_slots m) = Some (f\<lparr>pSlotOccupancy := m\<rparr>)"
  by (simp add: omit_slots_def pframe_field_def)

text \<open>What the printer sends is what the cloud reads, field by field.\<close>

definition cloud_view :: "pframe \<Rightarrow> frame" where
  "cloud_view p = \<lparr>fType = pType p, fMailboxID = pMailboxID p, fSlotOccupancy = pSlotOccupancy p,
     fStatus = pStatus p, fJobID = pJobID p, fError = pError p,
     fEncryptedKey = pEncryptedKey p, fBlobURL = pBlobURL p\<rparr>"

lemma frame_read_pframe_json:
  "slots_ok (pSlotOccupancy p) \<Longrightarrow> frame_read (pframe_json p) = Some (cloud_view p)"
  unfolding frame_read_def pframe_json_def read_struct_def json.case read_members_append
  by (simp add: frame_pieces frame_slots_piece frame0_def cloud_view_def del: read_members.simps)

lemma frame_read_frame_json:
  "slots_ok (fSlotOccupancy f) \<Longrightarrow> frame_read (frame_json f) = Some f"
  unfolding frame_read_def frame_json_def read_struct_def json.case read_members_append
  by (simp add: frame_pieces frame_slots_piece frame0_def del: read_members.simps)

lemma pframe_read_pframe_json:
  "slots_ok (pSlotOccupancy f) \<Longrightarrow> pframe_read (pframe_json f) = Some f"
  unfolding pframe_read_def pframe_json_def read_struct_def json.case read_members_append
  by (simp add: pframe_pieces pframe_slots_piece pframe0_def del: read_members.simps)

text \<open>The dispatch payload any node publishes is a dispatch frame to the printer.\<close>

lemma pframe_read_dispatchPayload:
  "pframe_read (dispatchPayload_json p) =
     Some (pframe0\<lparr>pType := dType p, pJobID := dJobID p, pEncryptedKey := dEncryptedKey p,
                  pBlobURL := dBlobURL p\<rparr>)"
  by (simp add: pframe_read_def dispatchPayload_json_def read_struct_def pframe_field_def get_str_def)

text \<open>A status payload reaches the stream with its job id still to be filled in.\<close>

lemma streamEvent_read_status:
  "streamEvent_read (Some (jsonStatusPayload f)) =
     Some \<lparr>eJobID = [], eStatus = fStatus f, eError = fError f\<rparr>"
  by (simp add: streamEvent_read_def jsonStatusPayload_def read_struct_def streamEvent_field_def
      get_str_def omit_str_def)

interpretation cloud_frame: codec frame_json frame_read "\<lambda>f. slots_ok (fSlotOccupancy f)"
  by unfold_locales (rule frame_read_frame_json)

interpretation printer_frame: codec pframe_json pframe_read "\<lambda>f. slots_ok (pSlotOccupancy f)"
  by unfold_locales (rule pframe_read_pframe_json)

end
