(* ===== verification/Store.thy ===== *)
theory Store
  imports Services Frames
begin

text \<open>
  Package \<^verbatim>\<open>store\<close>: the Redis key and channel names that tie the packages together
  (\<^verbatim>\<open>keys.go\<close>) and the printer-state cache with its 90-second expiry (\<^verbatim>\<open>redis.go\<close>). The locale
  \<^verbatim>\<open>kv_service\<close> states what the cache relies on from Redis' SET with an expiry and GET.
\<close>

section \<open>Names\<close>

definition KeyPrinterState :: "string \<Rightarrow> string" where
  "KeyPrinterState mailboxID = ''mailbox:'' @ mailboxID @ '':state''"

definition ChanDispatch :: "string \<Rightarrow> string" where
  "ChanDispatch mailboxID = ''mailbox:'' @ mailboxID @ '':dispatch''"

definition ChanAvailable :: "string \<Rightarrow> string" where
  "ChanAvailable mailboxID = ''mailbox:'' @ mailboxID @ '':available''"

definition PatternAvailable :: string where
  "PatternAvailable = ''mailbox:*:available''"

definition ChanJobStatus :: "string \<Rightarrow> string" where
  "ChanJobStatus jobID = ''job:'' @ jobID @ '':status''"

lemmas name_defs = KeyPrinterState_def ChanDispatch_def ChanAvailable_def ChanJobStatus_def

lemma names_inj [simp]:
  "KeyPrinterState a = KeyPrinterState b \<longleftrightarrow> a = b" "ChanDispatch a = ChanDispatch b \<longleftrightarrow> a = b"
  "ChanAvailable a = ChanAvailable b \<longleftrightarrow> a = b" "ChanJobStatus a = ChanJobStatus b \<longleftrightarrow> a = b"
  by (simp_all add: name_defs)

text \<open>Two names of different kinds never meet: compare them from the right.\<close>

lemma rev_neq: "rev s \<noteq> rev t \<Longrightarrow> s \<noteq> t"
  by auto

lemma names_disjoint [simp]:
  "KeyPrinterState a \<noteq> ChanDispatch b" "KeyPrinterState a \<noteq> ChanAvailable b"
  "KeyPrinterState a \<noteq> ChanJobStatus b" "ChanDispatch a \<noteq> ChanAvailable b"
  "ChanDispatch a \<noteq> ChanJobStatus b" "ChanAvailable a \<noteq> ChanJobStatus b"
  by (rule rev_neq, simp add: name_defs)+

text \<open>
  The pattern is cut at its one star; every availability channel is the two halves around the
  mailbox id, and no other name of the contract ends like one.
\<close>

definition available_halves :: "string \<times> string" where
  "available_halves = (takeWhile (\<lambda>c. c \<noteq> CHR ''*'') PatternAvailable,
     tl (dropWhile (\<lambda>c. c \<noteq> CHR ''*'') PatternAvailable))"

lemma available_halves: "available_halves = (''mailbox:'', '':available'')"
  by (simp add: available_halves_def PatternAvailable_def)

lemma ChanAvailable_matches: "ChanAvailable m = fst available_halves @ m @ snd available_halves"
  by (simp add: available_halves ChanAvailable_def)

lemma others_do_not_match:
  "ChanDispatch m \<noteq> x @ snd available_halves" "KeyPrinterState m \<noteq> x @ snd available_halves"
  "ChanJobStatus m \<noteq> x @ snd available_halves"
  by (rule rev_neq, simp add: available_halves name_defs)+

section \<open>The printer-state cache\<close>

definition printerStateTTL :: int where
  "printerStateTTL = 90 * Second"

record PrinterState =
  psStatus :: string
  psSlotOccupancy :: slots

definition state_json :: "PrinterState \<Rightarrow> json" where
  "state_json p = JObj [(''status'', JStr (psStatus p)),
     (''slot_occupancy'', json_map slot_json (psSlotOccupancy p))]"

definition state_field :: "PrinterState \<Rightarrow> string \<Rightarrow> json \<Rightarrow> PrinterState option" where
  "state_field p k v =
     (if k = ''status'' then map_option (\<lambda>s. p\<lparr>psStatus := s\<rparr>) (get_str v (psStatus p))
      else if k = ''slot_occupancy'' then
        map_option (\<lambda>m. p\<lparr>psSlotOccupancy := m\<rparr>) (read_map slot_read v (psSlotOccupancy p))
      else Some p)"

definition state_read :: "json \<Rightarrow> PrinterState option" where
  "state_read v = read_struct state_field \<lparr>psStatus = [], psSlotOccupancy = []\<rparr> v"

lemma state_read_json: "slots_ok (psSlotOccupancy p) \<Longrightarrow> state_read (state_json p) = Some p"
  by (simp add: state_read_def state_json_def read_struct_def state_field_def get_str_def)

interpretation printer_state: codec state_json state_read "\<lambda>p. slots_ok (psSlotOccupancy p)"
  by unfold_locales (rule state_read_json)

text \<open>The result \<^term>\<open>Inr None\<close> is the source's \<^verbatim>\<open>found = false\<close>.\<close>

definition LookupPrinterState :: "'s env \<Rightarrow> string \<Rightarrow> ('s, PrinterState option res) op" where
  "LookupPrinterState E mailboxID w =
     (case call (r_get E (KeyPrinterState mailboxID)) w of
        (Inl e, w1) \<Rightarrow> (if e = RedisNil then (Inr None, w1) else (Inl e, w1))
      | (Inr val, w1) \<Rightarrow>
          (case (case val of None \<Rightarrow> None | Some v \<Rightarrow> state_read v) of
             None \<Rightarrow> (Inl (Err ''json''), w1)
           | Some st \<Rightarrow> (Inr (Some st), w1)))"

definition GetPrinterState :: "'s env \<Rightarrow> string \<Rightarrow> ('s, PrinterState res) op" where
  "GetPrinterState E mailboxID w =
     (case LookupPrinterState E mailboxID w of
        (Inl e, w1) \<Rightarrow> (Inl e, w1)
      | (Inr None, w1) \<Rightarrow> (Inr \<lparr>psStatus = ''idle'', psSlotOccupancy = []\<rparr>, w1)
      | (Inr (Some st), w1) \<Rightarrow> (Inr st, w1))"

definition SetPrinterState :: "'s env \<Rightarrow> string \<Rightarrow> PrinterState \<Rightarrow> ('s, unit res) op" where
  "SetPrinterState E mailboxID st =
     call (r_set E (KeyPrinterState mailboxID) (state_json st) printerStateTTL)"

lemma LookupPrinterState_db [simp, frame_simps]: "db (snd (LookupPrinterState E m w)) = db w"
  by (auto simp: LookupPrinterState_def dest: call_eqD split: prod.splits sum.splits option.splits)

lemma GetPrinterState_db [simp, frame_simps]: "db (snd (GetPrinterState E m w)) = db w"
  using LookupPrinterState_db [of E m w]
  by (auto simp: GetPrinterState_def simp del: LookupPrinterState_db
      split: prod.splits sum.splits option.splits)

lemma SetPrinterState_db [simp, frame_simps]: "db (snd (SetPrinterState E m st w)) = db w"
  by (simp add: SetPrinterState_def)

section \<open>What the cache relies on\<close>

text \<open>
  \<^term>\<open>entry s k\<close> is the value stored under a key with the moment it expires on Redis' clock
  \<^term>\<open>rclock s\<close>. SET stores the value with a deadline its expiry away from the moment it ran;
  GET answers with an entry until its deadline and with \<^verbatim>\<open>redis.Nil\<close> from then on.
\<close>

locale kv_service =
  fixes E :: "'s env" and entry :: "'s \<Rightarrow> string \<Rightarrow> (json \<times> int) option" and rclock :: "'s \<Rightarrow> int"
  assumes set_ok: "r_set E k v ttl s = (Inr (), s') \<Longrightarrow>
      \<exists>d. entry s' k = Some (v, d) \<and> rclock s + ttl \<le> d \<and> d \<le> rclock s' + ttl"
    and get_ok: "r_get E k s = (Inr x, s') \<Longrightarrow>
      \<exists>v d. x = Some v \<and> entry s k = Some (v, d) \<and> rclock s < d"
    and get_nil: "r_get E k s = (Inl RedisNil, s') \<Longrightarrow>
      (case entry s k of None \<Rightarrow> True | Some (v, d) \<Rightarrow> d \<le> rclock s')"
begin

lemma lookup_fresh:
  assumes "LookupPrinterState E m w = (Inr (Some st), w')"
  shows "\<exists>v d. entry (ext w) (KeyPrinterState m) = Some (v, d) \<and> rclock (ext w) < d \<and> state_read v = Some st"
proof -
  obtain val w1 where g: "call (r_get E (KeyPrinterState m)) w = (Inr (Some val), w1)"
    and st: "state_read val = Some st"
    using assms by (auto simp: LookupPrinterState_def split: prod.splits sum.splits option.splits if_splits)
  from call_eqD [OF g] get_ok st show ?thesis by fastforce
qed

lemma lookup_expired:
  assumes "entry (ext w) (KeyPrinterState m) = Some (v, d)" "d \<le> rclock (ext w)"
  shows "fst (LookupPrinterState E m w) \<noteq> Inr (Some st)"
  using lookup_fresh [of m w st "snd (LookupPrinterState E m w)"] assms
  by (cases "LookupPrinterState E m w") auto

lemma set_entry:
  assumes "SetPrinterState E m st w = (Inr (), w')"
  shows "\<exists>d. entry (ext w') (KeyPrinterState m) = Some (state_json st, d) \<and>
    rclock (ext w) + printerStateTTL \<le> d \<and> d \<le> rclock (ext w') + printerStateTTL"
  using set_ok call_eqD [OF assms [unfolded SetPrinterState_def]] by blast

lemma lookup_set:
  assumes "SetPrinterState E m st w = (Inr (), w1)" "slots_ok (psSlotOccupancy st)"
    and later: "entry (ext w2) (KeyPrinterState m) = entry (ext w1) (KeyPrinterState m)"
    and "LookupPrinterState E m w2 = (Inr r, w3)"
  shows "(rclock (ext w3) < rclock (ext w) + printerStateTTL \<longrightarrow> r = Some st) \<and>
    (rclock (ext w1) + printerStateTTL \<le> rclock (ext w2) \<longrightarrow> r = None) \<and> (r = None \<or> r = Some st)"
proof -
  obtain d where d: "entry (ext w2) (KeyPrinterState m) = Some (state_json st, d)"
    "rclock (ext w) + printerStateTTL \<le> d" "d \<le> rclock (ext w1) + printerStateTTL"
    using set_entry [OF assms(1)] later by auto
  show ?thesis
  proof (cases r)
    case None
    then have "r_get E (KeyPrinterState m) (ext w2) = (Inl RedisNil, ext w3)"
      using assms(4) by (auto simp: LookupPrinterState_def dest!: call_eqD
          split: prod.splits sum.splits option.splits if_splits)
    with get_nil [of _ "ext w2"] d have "d \<le> rclock (ext w3)" by fastforce
    with None d show ?thesis by auto
  next
    case (Some st')
    with lookup_fresh assms(4) d have "rclock (ext w2) < d" "state_read (state_json st) = Some st'"
      by fastforce+
    with Some d assms(2) show ?thesis by (auto simp: state_read_json)
  qed
qed

end

end
