(* ===== verification/Minioclient.thy ===== *)
theory Minioclient
  imports Services
begin

text \<open>
  Package \<^verbatim>\<open>minioclient\<close>: the object-storage calls of the cloud server. All of them address the
  one bucket; \<^verbatim>\<open>BlobExists\<close> is where an error of the client becomes an answer.
\<close>

definition bucket :: string where
  "bucket = ''automail''"

definition EnsureBucket :: "'s env \<Rightarrow> ('s, unit res) op" where
  "EnsureBucket E w =
     (case call (m_bucket_exists E bucket) w of
        (Inl e, w1) \<Rightarrow> (Inl e, w1)
      | (Inr exists, w1) \<Rightarrow> (if exists then (Inr (), w1) else call (m_make_bucket E bucket) w1))"

definition PresignedUploadURL :: "'s env \<Rightarrow> int \<Rightarrow> ('s, (string \<times> string) res) op" where
  "PresignedUploadURL E ttl w =
     (case call (uuid_new E) w of (u, w1) \<Rightarrow>
       (let blobRef = ''blobs/'' @ uuid_string E u in
        case call (m_presign_put E bucket blobRef ttl) w1 of
          (Inl e, w2) \<Rightarrow> (Inl e, w2)
        | (Inr url, w2) \<Rightarrow> (Inr (url, blobRef), w2)))"

definition PresignedReadURL :: "'s env \<Rightarrow> string \<Rightarrow> int \<Rightarrow> ('s, string res) op" where
  "PresignedReadURL E blobRef ttl = call (m_presign_get E bucket blobRef ttl)"

definition RemoveBlob :: "'s env \<Rightarrow> string \<Rightarrow> ('s, unit res) op" where
  "RemoveBlob E blobRef = call (m_remove E bucket blobRef)"

definition BlobExists :: "'s env \<Rightarrow> string \<Rightarrow> ('s, bool res) op" where
  "BlobExists E blobRef w =
     (case call (m_stat E bucket blobRef) w of
        (Inl e, w1) \<Rightarrow> (if m_error_code E e = ''NoSuchKey'' then (Inr False, w1) else (Inl e, w1))
      | (Inr _, w1) \<Rightarrow> (Inr True, w1))"

lemma minio_db [simp, frame_simps]:
  "db (snd (EnsureBucket E w)) = db w" "db (snd (PresignedUploadURL E ttl w)) = db w"
  "db (snd (PresignedReadURL E b ttl w)) = db w" "db (snd (RemoveBlob E b w)) = db w"
  "db (snd (BlobExists E b w)) = db w"
  by (auto simp: EnsureBucket_def PresignedUploadURL_def PresignedReadURL_def RemoveBlob_def
      BlobExists_def Let_def dest!: call_eqD split: prod.splits sum.splits)

end
