(* ===== verification/Observe.thy ===== *)
theory Observe
  imports Store Minioclient
begin

text \<open>
  A theorem about what a service was asked, or about what it holds, needs something to look at in
  the environment's state. The locale \<^verbatim>\<open>observed\<close> is an observation no call but those of its
  extensions changes; \<^verbatim>\<open>quiet\<close> is one that PUBLISH does not change either; \<^verbatim>\<open>publish_history\<close> observes
  the messages handed to Redis PUBLISH, in order.
\<close>

locale observed =
  fixes E :: "'s env" and obs :: "'s \<Rightarrow> 'o"
  assumes obs_fault [simp]: "obs (snd (pg_fault E s)) = obs s"
    and obs_uuid [simp]: "obs (snd (pg_uuid E s)) = obs s"
    and obs_new [simp]: "obs (snd (uuid_new E s)) = obs s"
    and obs_rand [simp]: "obs (snd (rand_read E n s)) = obs s"
    and obs_pgp [simp]: "obs (snd (pgp_encrypt E k v s)) = obs s"
    and obs_bcrypt [simp]: "obs (snd (bcrypt_generate E p s)) = obs s"
    and obs_ping [simp]: "obs (snd (r_ping E s)) = obs s"
    and obs_get [simp]: "obs (snd (r_get E k s)) = obs s"
    and obs_set [simp]: "obs (snd (r_set E k j ttl s)) = obs s"
    and obs_subscribe [simp]: "obs (snd (r_subscribe E k s)) = obs s"
    and obs_presign_put [simp]: "obs (snd (m_presign_put E b k ttl s)) = obs s"
    and obs_presign_get [simp]: "obs (snd (m_presign_get E b k ttl s)) = obs s"
    and obs_stat [simp]: "obs (snd (m_stat E b k s)) = obs s"
    and obs_remove [simp]: "obs (snd (m_remove E b k s)) = obs s"
begin

lemma obs_call [simp]: "obs (ext (snd (call f w))) = obs (snd (f (ext w)))"
  by (simp add: call_def split: prod.splits)

lemma obs_pg [simp]: "obs (ext (snd (pg E q w))) = obs (ext w)"
  by (simp add: pg_ext)

lemma obs_pg_gen [simp]: "obs (ext (snd (pg_gen E q w))) = obs (ext w)"
  using obs_call [of "pg_uuid E" w] by (cases "call (pg_uuid E) w") (simp add: pg_gen_def del: obs_call)

lemma obs_pg_at [simp]: "obs (ext (snd (pg_at E q w))) = obs (ext w)"
  by (simp add: pg_at_def)

lemma obs_tx [simp]:
  "obs (ext (snd (BeginTx E w))) = obs (ext w)"
  "obs (ext (snd (tx_exec E q t w))) = obs (ext w)"
  "obs (ext (snd (CommitTx E t w))) = obs (ext w)"
  using obs_fault [of "ext w"]
  by (auto simp: BeginTx_def tx_exec_def CommitTx_def simp del: obs_fault split: prod.splits fault.splits)

lemma obs_txD:
  "BeginTx E w = (u, w') \<Longrightarrow> obs (ext w') = obs (ext w)"
  "tx_exec E q t w = (v, w') \<Longrightarrow> obs (ext w') = obs (ext w)"
  "CommitTx E t w = (u, w') \<Longrightarrow> obs (ext w') = obs (ext w)"
  using obs_tx(1) [of w] obs_tx(2) [of q t w] obs_tx(3) [of t w] by simp_all

lemma obs_queries [simp]:
  "obs (ext (snd (qInsertAuditEvent E i a u w))) = obs (ext w)"
  "obs (ext (snd (qInsertJob E p w))) = obs (ext w)"
  "obs (ext (snd (qUpdateJobStatus E i st w))) = obs (ext w)"
  "obs (ext (snd (qSetJobBlobDeleted E i w))) = obs (ext w)"
  "obs (ext (snd (qUpdateMailboxLiveness E i st w))) = obs (ext w)"
  by (simp_all add: qInsertAuditEvent_def qInsertJob_def qUpdateJobStatus_def
      qSetJobBlobDeleted_def qUpdateMailboxLiveness_def)

lemma obs_store [simp]:
  "obs (ext (snd (LookupPrinterState E m w))) = obs (ext w)"
  "obs (ext (snd (GetPrinterState E m w))) = obs (ext w)"
  "obs (ext (snd (SetPrinterState E m st w))) = obs (ext w)"
proof -
  show lookup: "obs (ext (snd (LookupPrinterState E m w))) = obs (ext w)" for m w
    using obs_call [of "r_get E (KeyPrinterState m)" w]
    by (auto simp: LookupPrinterState_def simp del: obs_call split: prod.splits sum.splits option.splits)
  show "obs (ext (snd (GetPrinterState E m w))) = obs (ext w)"
    using lookup [of m w]
    by (auto simp: GetPrinterState_def split: prod.splits sum.splits option.splits)
  show "obs (ext (snd (SetPrinterState E m st w))) = obs (ext w)"
    by (simp add: SetPrinterState_def)
qed

lemma obs_minio [simp]:
  "obs (ext (snd (PresignedReadURL E b ttl w))) = obs (ext w)"
  "obs (ext (snd (RemoveBlob E b w))) = obs (ext w)"
  "obs (ext (snd (BlobExists E b w))) = obs (ext w)"
proof -
  show "obs (ext (snd (PresignedReadURL E b ttl w))) = obs (ext w)"
    "obs (ext (snd (RemoveBlob E b w))) = obs (ext w)"
    by (simp_all add: PresignedReadURL_def RemoveBlob_def)
  show "obs (ext (snd (BlobExists E b w))) = obs (ext w)"
    using obs_call [of "m_stat E bucket b" w]
    by (auto simp: BlobExists_def simp del: obs_call split: prod.splits sum.splits)
qed

end

locale quiet = observed E obs for E :: "'s env" and obs :: "'s \<Rightarrow> 'o" +
  assumes obs_publish [simp]: "obs (snd (r_publish E c p s)) = obs s"

text \<open>A set of states in which the database answers, and which the calls of an operation do not leave.\<close>

locale answering = quiet E up for E :: "'s env" and up :: "'s \<Rightarrow> bool" +
  assumes up_answers: "up s \<Longrightarrow> fst (pg_fault E s) = NoFault"

locale publish_history = observed E hist
  for E :: "'s env" and hist :: "'s \<Rightarrow> (string \<times> json) list" +
  assumes publish_hist [simp]: "hist (snd (r_publish E c p s)) = hist s @ [(c, p)]"

end
