(* ===== verification/Base64.thy ===== *)
theory Base64
  imports Prelude
begin

text \<open>
  Package \<^verbatim>\<open>encoding/base64\<close> as the services use it: \<^verbatim>\<open>StdEncoding\<close> for the wrapped document
  key (padded, newlines ignored on decoding) and \<^verbatim>\<open>RawURLEncoding\<close> for the opaque tokens and
  their digests (no padding, URL alphabet).
\<close>

section \<open>Alphabets\<close>

definition b64_std :: string where
  "b64_std = ''ABCDEFGHIJKLMNOPQRSTUVWXYZabcdefghijklmnopqrstuvwxyz0123456789+/''"

definition b64_url :: string where
  "b64_url = ''ABCDEFGHIJKLMNOPQRSTUVWXYZabcdefghijklmnopqrstuvwxyz0123456789-_''"

fun index_of :: "'a \<Rightarrow> 'a list \<Rightarrow> nat option" where
  "index_of x [] = None"
| "index_of x (y # ys) = (if x = y then Some 0 else map_option Suc (index_of x ys))"

lemma index_of_nth: "distinct xs \<Longrightarrow> i < length xs \<Longrightarrow> index_of (xs ! i) xs = Some i"
  by (induction xs arbitrary: i) (auto simp: nth_Cons split: nat.splits)

lemma index_of_SomeD: "index_of x xs = Some i \<Longrightarrow> i < length xs \<and> xs ! i = x"
  by (induction xs arbitrary: i) (auto split: if_splits)

lemma index_of_None: "index_of x xs = None \<longleftrightarrow> x \<notin> set xs"
  by (induction xs) auto

section \<open>Encoding\<close>

text \<open>Three bytes are cut into four groups of six bits, from the most significant end.\<close>

definition sext0 :: "byte \<Rightarrow> nat" where "sext0 a = unat a div 4"
definition sext1 :: "byte \<Rightarrow> byte \<Rightarrow> nat" where "sext1 a b = (unat a mod 4) * 16 + unat b div 16"
definition sext2 :: "byte \<Rightarrow> byte \<Rightarrow> nat" where "sext2 b c = (unat b mod 16) * 4 + unat c div 64"
definition sext3 :: "byte \<Rightarrow> nat" where "sext3 c = unat c mod 64"

text \<open>Computed on binary integers.\<close>

lemma nat_mix:
  "unat x mod m * k + unat y div d = nat (uint x mod int m * int k + uint y div int d)"
proof -
  have "uint x mod int m * int k + uint y div int d = int (unat x mod m * k + unat y div d)"
    by (simp only: uint_nat of_nat_add of_nat_mult zdiv_int zmod_int)
  then show ?thesis by (simp only: nat_int)
qed

lemma sext_code [code]:
  "sext0 a = nat (uint a div 4)" "sext1 a b = nat (uint a mod 4 * 16 + uint b div 16)"
  "sext2 b c = nat (uint b mod 16 * 4 + uint c div 64)" "sext3 c = nat (uint c mod 64)"
  using nat_mix [of a 4 16 b 16] nat_mix [of b 16 4 c 64]
  by (simp_all add: sext0_def sext1_def sext2_def sext3_def nat_div_distrib nat_mod_distrib)

fun b64_encode :: "string \<Rightarrow> bool \<Rightarrow> bytes \<Rightarrow> string" where
  "b64_encode al p [] = []"
| "b64_encode al p [a] =
     [al ! sext0 a, al ! sext1 a 0] @ (if p then ''=='' else [])"
| "b64_encode al p [a, b] =
     [al ! sext0 a, al ! sext1 a b, al ! sext2 b 0] @ (if p then ''='' else [])"
| "b64_encode al p (a # b # c # bs) =
     [al ! sext0 a, al ! sext1 a b, al ! sext2 b c, al ! sext3 c] @ b64_encode al p bs"

section \<open>Decoding with padding\<close>

definition byte0 :: "nat \<Rightarrow> nat \<Rightarrow> byte" where "byte0 i j = of_nat (i * 4 + j div 16)"
definition byte1 :: "nat \<Rightarrow> nat \<Rightarrow> byte" where "byte1 j k = of_nat ((j mod 16) * 16 + k div 4)"
definition byte2 :: "nat \<Rightarrow> nat \<Rightarrow> byte" where "byte2 k l = of_nat ((k mod 4) * 64 + l)"

lemma of_nat_byte: "of_nat n = (word_of_int (int n) :: byte)"
  by simp

lemma byte_code [code]:
  "byte0 i j = word_of_int (int i * 4 + int j div 16)" "byte1 j k = word_of_int (int j mod 16 * 16 + int k div 4)"
  "byte2 k l = word_of_int (int k mod 4 * 64 + int l)"
  unfolding byte0_def byte1_def byte2_def of_nat_byte
  by (simp_all only: of_nat_add of_nat_mult zdiv_int zmod_int of_nat_numeral)

fun b64_quanta :: "string \<Rightarrow> string \<Rightarrow> bytes option" where
  "b64_quanta al [] = Some []"
| "b64_quanta al (c0 # c1 # c2 # c3 # cs) =
     (case (index_of c0 al, index_of c1 al) of
        (Some i, Some j) \<Rightarrow>
          (if c2 = CHR ''='' then
             (if c3 = CHR ''='' \<and> cs = [] then Some [byte0 i j] else None)
           else (case index_of c2 al of
             None \<Rightarrow> None
           | Some k \<Rightarrow>
               (if c3 = CHR ''='' then
                  (if cs = [] then Some [byte0 i j, byte1 j k] else None)
                else (case (index_of c3 al, b64_quanta al cs) of
                  (Some l, Some bs) \<Rightarrow> Some (byte0 i j # byte1 j k # byte2 k l # bs)
                | _ \<Rightarrow> None))))
      | _ \<Rightarrow> None)"
| "b64_quanta al _ = None"

text \<open>The decoder skips carriage returns and line feeds wherever they stand.\<close>

definition b64_newline :: "char \<Rightarrow> bool" where
  "b64_newline c \<longleftrightarrow> c = CHR 0x0A \<or> c = CHR 0x0D"

definition StdEncode :: "bytes \<Rightarrow> string" where
  "StdEncode bs = b64_encode b64_std True bs"

definition StdDecode :: "string \<Rightarrow> bytes option" where
  "StdDecode s = b64_quanta b64_std (filter (\<lambda>c. \<not> b64_newline c) s)"

definition RawURLEncode :: "bytes \<Rightarrow> string" where
  "RawURLEncode bs = b64_encode b64_url False bs"

section \<open>Round trip\<close>

lemma b64_std_props:
  "length b64_std = 64" "distinct b64_std" "CHR ''='' \<notin> set b64_std"
  "\<forall>c\<in>set b64_std. \<not> b64_newline c"
  by code_simp+

lemma unat_byte: "unat (x :: byte) < 256"
  using unsigned_less [where 'a = nat and w = x] by simp

lemma sext_bounds [simp]:
  "sext0 a < 64" "sext1 a b < 64" "sext2 a b < 64" "sext3 a < 64"
proof -
  note unat_byte [of a] unat_byte [of b]
  then show "sext0 a < 64" "sext1 a b < 64" "sext2 a b < 64" "sext3 a < 64"
    by (auto simp: sext0_def sext1_def sext2_def sext3_def)
qed

lemma of_nat_unat_byte: "of_nat (unat (x :: byte)) = x"
  by simp

lemma byte0_sext [simp]: "byte0 (sext0 a) (sext1 a b) = a"
proof -
  have "unat a div 4 * 4 + (unat a mod 4 * 16 + unat b div 16) div 16 = unat a"
    using unat_byte [of b] by auto
  then show ?thesis unfolding byte0_def sext0_def sext1_def by (metis of_nat_unat_byte)
qed

lemma byte1_sext [simp]: "byte1 (sext1 a b) (sext2 b c) = b"
proof -
  have "(unat a mod 4 * 16 + unat b div 16) mod 16 * 16 +
        (unat b mod 16 * 4 + unat c div 64) div 4 = unat b"
    using unat_byte [of b] unat_byte [of c] by auto
  then show ?thesis unfolding byte1_def sext1_def sext2_def by (metis of_nat_unat_byte)
qed

lemma byte2_sext [simp]: "byte2 (sext2 b c) (sext3 c) = c"
proof -
  have "(unat b mod 16 * 4 + unat c div 64) mod 4 * 64 + unat c mod 64 = unat c"
    using unat_byte [of c] by auto
  then show ?thesis unfolding byte2_def sext2_def sext3_def by (metis of_nat_unat_byte)
qed

lemma index_std [simp]: "i < 64 \<Longrightarrow> index_of (b64_std ! i) b64_std = Some i"
  by (simp add: index_of_nth b64_std_props)

lemma std_not_pad [simp]: "i < 64 \<Longrightarrow> b64_std ! i \<noteq> CHR ''=''"
  by (metis b64_std_props(1,3) nth_mem)

lemma std_not_newline [simp]: "i < 64 \<Longrightarrow> \<not> b64_newline (b64_std ! i)"
  using b64_std_props(1,4) nth_mem by metis

lemma quanta_encode: "b64_quanta b64_std (b64_encode b64_std True bs) = Some bs"
  by (induction b64_std True bs rule: b64_encode.induct) simp_all

lemma encode_no_newline:
  "filter (\<lambda>c. \<not> b64_newline c) (b64_encode b64_std True bs) = b64_encode b64_std True bs"
  by (induction b64_std True bs rule: b64_encode.induct) (simp_all, simp_all add: b64_newline_def)

text \<open>Decoding an encoded key gives the key back, for every byte string.\<close>

lemma StdDecode_StdEncode [simp]: "StdDecode (StdEncode bs) = Some bs"
  by (simp add: StdDecode_def StdEncode_def encode_no_newline quanta_encode)

interpretation std64: codec StdEncode StdDecode "\<lambda>_. True"
  by unfold_locales simp

lemma StdEncode_eq_iff [simp]: "StdEncode a = StdEncode b \<longleftrightarrow> a = b"
  by (rule std64.enc_eq_iff) simp_all

text \<open>The length the encoder produces: four characters for every started group of three bytes.\<close>

lemma length_b64_encode_padded: "length (b64_encode al True bs) = 4 * ((length bs + 2) div 3)"
  by (induction al True bs rule: b64_encode.induct) (simp_all, presburger)

lemma length_StdEncode: "length (StdEncode bs) = 4 * ((length bs + 2) div 3)"
  by (simp add: StdEncode_def length_b64_encode_padded)

end
