(* ===== verification/Route.thy ===== *)
theory Route
  imports Observe Base64
begin

text \<open>
  \<^verbatim>\<open>dispatch/route.go\<close>: one attempt to hand a job to its printer. The attempt checks the cached
  printer state, claims the job's row in a transaction (\<^verbatim>\<open>FOR UPDATE NOWAIT\<close>), publishes the
  dispatch frame to whichever node holds the printer's socket, and gives the row back when nobody
  does. \<^verbatim>\<open>TryDispatch\<close> queues a blocked job on the Redis stream, \<^verbatim>\<open>Retry\<close> leaves it there.
\<close>

section \<open>Job references\<close>

definition PendingStream :: string where "PendingStream = ''jobs:pending''"
definition ConsumerGroup :: string where "ConsumerGroup = ''dispatchers''"
definition presignTTL :: int where "presignTTL = 5 * 60 * Second"

record JobRef =
  rfJobID :: string
  rfMailboxID :: string
  rfSlotID :: string
  rfEncryptedKey :: string
  rfBlobRef :: string

definition toXAddValues :: "JobRef \<Rightarrow> xvalues" where
  "toXAddValues f = [(''job_id'', VStr (rfJobID f)), (''mailbox_id'', VStr (rfMailboxID f)),
     (''slot_id'', VStr (rfSlotID f)), (''encrypted_key'', VStr (rfEncryptedKey f)),
     (''blob_ref'', VStr (rfBlobRef f))]"

definition get_value :: "xvalues \<Rightarrow> string \<Rightarrow> string res" where
  "get_value vs k =
     (case map_of vs k of
        None \<Rightarrow> Inl (Err (''dispatch: stream message missing field '' @ k))
      | Some (VStr s) \<Rightarrow> Inr s
      | Some VOther \<Rightarrow> Inl (Err (''dispatch: stream field '' @ k @ '' is not a string'')))"

definition JobRefFromValues :: "xvalues \<Rightarrow> JobRef res" where
  "JobRefFromValues vs =
     (case get_value vs ''job_id'' of Inl e \<Rightarrow> Inl e | Inr j \<Rightarrow>
      case get_value vs ''mailbox_id'' of Inl e \<Rightarrow> Inl e | Inr m \<Rightarrow>
      case get_value vs ''slot_id'' of Inl e \<Rightarrow> Inl e | Inr s \<Rightarrow>
      case get_value vs ''encrypted_key'' of Inl e \<Rightarrow> Inl e | Inr k \<Rightarrow>
      case get_value vs ''blob_ref'' of Inl e \<Rightarrow> Inl e | Inr b \<Rightarrow>
        Inr \<lparr>rfJobID = j, rfMailboxID = m, rfSlotID = s, rfEncryptedKey = k, rfBlobRef = b\<rparr>)"

definition FromJob :: "'s env \<Rightarrow> uuid \<Rightarrow> uuid \<Rightarrow> uuid \<Rightarrow> bytes \<Rightarrow> string \<Rightarrow> JobRef" where
  "FromJob E jobID mailboxID slotID encryptedKey blobRef =
     \<lparr>rfJobID = uuid_string E jobID, rfMailboxID = uuid_string E mailboxID,
      rfSlotID = uuid_string E slotID, rfEncryptedKey = StdEncode encryptedKey, rfBlobRef = blobRef\<rparr>"

lemma JobRefFromValues_toXAddValues [simp]: "JobRefFromValues (toXAddValues f) = Inr f"
  by (simp add: JobRefFromValues_def toXAddValues_def get_value_def)

interpretation job_ref: codec toXAddValues
    "\<lambda>vs. case JobRefFromValues vs of Inl e \<Rightarrow> None | Inr f \<Rightarrow> Some f" "\<lambda>_. True"
  by unfold_locales simp

section \<open>Eligibility\<close>

definition eligible :: "'s env \<Rightarrow> string \<Rightarrow> string \<Rightarrow> ('s, bool) op" where
  "eligible E mailboxID slotID w =
     (case GetPrinterState E mailboxID w of
        (Inl e, w1) \<Rightarrow> (False, w1)
      | (Inr st, w1) \<Rightarrow>
          (if psStatus st \<noteq> ''idle'' then (False, w1)
           else (case map_of (psSlotOccupancy st) slotID of
                   None \<Rightarrow> (False, w1)
                 | Some slot \<Rightarrow> (Current slot < Max slot, w1))))"

lemma eligible_db [simp, frame_simps]: "db (snd (eligible E m s w)) = db w"
  using GetPrinterState_db [of E m w]
  by (auto simp: eligible_def simp del: GetPrinterState_db split: prod.splits sum.splits option.splits)

lemma eligible_iff:
  "fst (eligible E m s w) \<longleftrightarrow>
     (\<exists>st slot. fst (GetPrinterState E m w) = Inr st \<and> psStatus st = ''idle'' \<and>
        map_of (psSlotOccupancy st) s = Some slot \<and> Current slot < Max slot)"
  by (auto simp: eligible_def split: prod.splits sum.splits option.splits)

section \<open>Claiming the row\<close>

datatype claimOutcome = claimed | claimLost | claimSettled

definition claimJob :: "'s env \<Rightarrow> string \<Rightarrow> ('s, claimOutcome res) op" where
  "claimJob E jobIDStr w =
     (case uuid_parse E jobIDStr of
        None \<Rightarrow> (Inl (Err ''invalid UUID''), w)
      | Some jobID \<Rightarrow>
          (case BeginTx E w of
             (Inl e, w1) \<Rightarrow> (Inl e, w1)
           | (Inr _, w1) \<Rightarrow>
               (case tx_exec E (LockJobForDispatch (\<lambda>i. pg_row_locked E i (ext w1)) jobID) (db w1) w1 of
                  ((Inl e, _), w2) \<Rightarrow>
                    (if e = ErrNoRows then (Inr claimSettled, w2)
                     else if e = PqError lock_not_available then (Inr claimLost, w2)
                     else (Inl e, w2))
                | ((Inr _, t), w2) \<Rightarrow>
                    (case tx_exec E (MarkJobDispatching jobID) t w2 of
                       ((Inl e, _), w3) \<Rightarrow> (Inl e, w3)
                     | ((Inr _, t'), w3) \<Rightarrow>
                         (case CommitTx E t' w3 of
                            (Inl e, w4) \<Rightarrow> (Inl e, w4)
                          | (Inr _, w4) \<Rightarrow> (Inr claimed, w4))))))"

definition revert :: "'s env \<Rightarrow> string \<Rightarrow> ('s, unit res) op" where
  "revert E jobIDStr w =
     (case uuid_parse E jobIDStr of
        None \<Rightarrow> (Inl (Err ''invalid UUID''), w)
      | Some jobID \<Rightarrow> pg E (RequeueJob jobID) w)"

section \<open>One attempt\<close>

abbreviation "blocked \<equiv> ''blocked''"
abbreviation "settled \<equiv> ''settled''"
abbreviation "dispatching \<equiv> ''dispatching''"

definition dispatch_frame :: "JobRef \<Rightarrow> string \<Rightarrow> json" where
  "dispatch_frame f readURL = dispatchPayload_json
     \<lparr>dType = ''dispatch'', dJobID = rfJobID f, dEncryptedKey = rfEncryptedKey f, dBlobURL = readURL\<rparr>"

definition attemptDispatch :: "'s env \<Rightarrow> JobRef \<Rightarrow> ('s, string res) op" where
  "attemptDispatch E f w =
     (case eligible E (rfMailboxID f) (rfSlotID f) w of
        (False, w1) \<Rightarrow> (Inr blocked, w1)
      | (True, w1) \<Rightarrow>
     (case claimJob E (rfJobID f) w1 of
        (Inl e, w2) \<Rightarrow> (Inl e, w2)
      | (Inr claimLost, w2) \<Rightarrow> (Inr blocked, w2)
      | (Inr claimSettled, w2) \<Rightarrow> (Inr settled, w2)
      | (Inr claimed, w2) \<Rightarrow>
     (case PresignedReadURL E (rfBlobRef f) presignTTL w2 of
        (Inl e, w3) \<Rightarrow> (Inl e, snd (revert E (rfJobID f) w3))
      | (Inr readURL, w3) \<Rightarrow>
     (case call (r_publish E (ChanDispatch (rfMailboxID f)) (dispatch_frame f readURL)) w3 of
        (Inl e, w4) \<Rightarrow> (Inl e, snd (revert E (rfJobID f) w4))
      | (Inr receivers, w4) \<Rightarrow>
          (if receivers = 0 then
             (case revert E (rfJobID f) w4 of
                (Inl e, w5) \<Rightarrow> (Inl e, w5)
              | (Inr _, w5) \<Rightarrow> (Inr blocked, w5))
           else
             (case uuid_parse E (rfJobID f) of
                None \<Rightarrow> (Inl (Err ''invalid UUID''), w4)
              | Some jobID \<Rightarrow>
                  (Inr dispatching, snd (qInsertAuditEvent E jobID ''job_dispatched'' None w4))))))))"

section \<open>First trip and retry\<close>

definition enqueue :: "'s env \<Rightarrow> JobRef \<Rightarrow> ('s, string res) op" where
  "enqueue E f w =
     (case call (r_xadd E PendingStream (toXAddValues f)) w of
        (Inl e, w1) \<Rightarrow> (Inl e, w1)
      | (Inr _, w1) \<Rightarrow> (Inr ''queued'', w1))"

definition TryDispatch :: "'s env \<Rightarrow> JobRef \<Rightarrow> ('s, string res) op" where
  "TryDispatch E f w =
     (case attemptDispatch E f w of
        (Inl e, w1) \<Rightarrow> (Inl e, w1)
      | (Inr outcome, w1) \<Rightarrow>
          (if outcome = blocked then enqueue E f w1
           else if outcome = settled then (Inr dispatching, w1)
           else (Inr outcome, w1)))"

definition Retry :: "'s env \<Rightarrow> JobRef \<Rightarrow> ('s, bool res) op" where
  "Retry E f w =
     (case attemptDispatch E f w of
        (Inl e, w1) \<Rightarrow> (Inl e, w1)
      | (Inr outcome, w1) \<Rightarrow> (Inr (outcome \<noteq> blocked), w1))"

section \<open>What a claim does\<close>

definition claimable_in :: "tables \<Rightarrow> uuid \<Rightarrow> bool" where
  "claimable_in t i \<longleftrightarrow> (case status_of t i of None \<Rightarrow> False | Some st \<Rightarrow> claimable st)"

definition mark :: "uuid \<Rightarrow> string \<Rightarrow> tables \<Rightarrow> tables" where
  "mark i st t = set_job i (\<lambda>j. j\<lparr>jStatus := st\<rparr>) t"

lemma MarkJobDispatching_mark [simp]: "MarkJobDispatching i t = (Inr (), mark i dispatching t)"
  by (simp add: MarkJobDispatching_def mark_def)

lemma RequeueJob_mark [simp]: "RequeueJob i t = (Inr (), mark i ''queued'' t)"
  by (simp add: RequeueJob_def mark_def)

lemma status_of_mark [simp]: "status_of (mark i st t) i = map_option (\<lambda>_. st) (status_of t i)"
  by (simp add: status_of_def mark_def option.map_comp comp_def)

lemma job_of_mark_other [simp]: "k \<noteq> i \<Longrightarrow> job_of (mark i st t) k = job_of t k"
  by (simp add: mark_def)

lemma mark_frame [simp, frame_simps]: "audit_events (mark i st t) = audit_events t"
  by (simp add: mark_def)

lemma mark_mark [simp]: "mark i st (mark i st' t) = mark i st t"
  by (simp add: mark_def set_job_def update_where_def)

lemma claimable_in_mark [simp]: "claimable_in t i \<Longrightarrow> claimable_in (mark i st t) i \<longleftrightarrow> claimable st"
  by (auto simp: claimable_in_def split: option.splits)

lemma claimable_words [simp]: "claimable ''queued''" "claimable ''submitted''" "\<not> claimable dispatching"
  by (simp_all add: claimable_def)

lemma LockJob_cases:
  "LockJobForDispatch l i t =
     (if \<not> claimable_in t i then (Inl ErrNoRows, t)
      else if l i then (Inl (PqError lock_not_available), t) else (Inr (the (job_of t i)), t))"
  by (auto simp: LockJobForDispatch_def claimable_in_def status_of_def split: option.splits)

lemma claimJob_InrD:
  assumes "claimJob E s w = (Inr oc, w')" "uuid_parse E s = Some i"
  shows "(oc = claimed \<longrightarrow> claimable_in (db w) i \<and> db w' = mark i dispatching (db w))
       \<and> (oc = claimLost \<longrightarrow> claimable_in (db w) i \<and> db w' = db w)
       \<and> (oc = claimSettled \<longrightarrow> \<not> claimable_in (db w) i \<and> db w' = db w)"
  using assms
  by (auto simp: claimJob_def LockJob_cases dest!: tx_exec_InrD tx_exec_InlD CommitTx_InrD
      dest: BeginTx_db [THEN sym, THEN trans]
      split: prod.splits sum.splits if_splits)
     (metis BeginTx_db snd_conv)+

lemma claimJob_InlD:
  assumes "claimJob E s w = (Inl e, w')"
  shows "db w' = db w \<or> (\<exists>i. uuid_parse E s = Some i \<and> claimable_in (db w) i \<and> db w' = mark i dispatching (db w))"
  using assms
  by (auto simp: claimJob_def LockJob_cases dest!: tx_exec_InrD tx_exec_InlD CommitTx_InlD
      split: prod.splits sum.splits if_splits option.splits)
     (metis BeginTx_db snd_conv)+

end
