(* ===== verification/Route_Facts.thy ===== *)
theory Route_Facts
  imports Route
begin

text \<open>
  The contract of one dispatch attempt, for every behaviour of the services: what it does to the
  job's row on each outcome, what it leaves alone, what it publishes. The clients (the dispatcher
  and the job handlers) use these facts only.
\<close>

section \<open>Giving the row back\<close>

lemma revert_db:
  assumes "uuid_parse E s = Some i"
  shows "db (snd (revert E s w)) = db w \<or> db (snd (revert E s w)) = mark i ''queued'' (db w)"
  using pg_db [of E "RequeueJob i" w] assms by (auto simp: revert_def)

lemma revert_InrD: "revert E s w = (Inr u, w') \<Longrightarrow> uuid_parse E s = Some i \<Longrightarrow> db w' = mark i ''queued'' (db w)"
  by (auto simp: revert_def dest: pg_InrD)

lemma revert_none: "uuid_parse E s = None \<Longrightarrow> db (snd (revert E s w)) = db w"
  by (simp add: revert_def)

lemma claimJob_parse: "claimJob E s w = (Inr oc, w') \<Longrightarrow> \<exists>i. uuid_parse E s = Some i"
  by (auto simp: claimJob_def split: option.splits)

lemma qInsertAuditEvent_jobs [simp]: "jobs (db (snd (qInsertAuditEvent E j a u w))) = jobs (db w)"
proof (rule pg_gen_cases [of E "\<lambda>i now. InsertAuditEvent i now j a u" w])
  fix i now w1
  assume *: "pg_gen E (\<lambda>i now. InsertAuditEvent i now j a u) w = pg E (InsertAuditEvent i now j a u) w1"
    "db w1 = db w"
  have "jobs (snd (InsertAuditEvent i now j a u t)) = jobs t" for t
    by (simp add: InsertAuditEvent_def)
  then show ?thesis
    using * pg_db [of E "InsertAuditEvent i now j a u" w1] by (auto simp: qInsertAuditEvent_def)
qed

lemma db_steps_mark: "db_steps t (mark i dispatching t)" "db_steps t (mark i ''queued'' t)"
  using db_steps1(2) [of t i] db_steps1(3) [of t i] by simp_all

section \<open>The outcomes of an attempt\<close>

text \<open>
  After the claim: the row is \<^verbatim>\<open>dispatching\<close>, and stays so unless the attempt gives it back.
\<close>

definition after_claim :: "'s env \<Rightarrow> JobRef \<Rightarrow> ('s, string res) op" where
  "after_claim E f w2 =
     (case PresignedReadURL E (rfBlobRef f) presignTTL w2 of
        (Inl e, w3) \<Rightarrow> (Inl e, snd (revert E (rfJobID f) w3))
      | (Inr readURL, w3) \<Rightarrow>
     (case call (r_publish E (ChanDispatch (rfMailboxID f)) (dispatch_frame f readURL)) w3 of
        (Inl e, w4) \<Rightarrow> (Inl e, snd (revert E (rfJobID f) w4))
      | (Inr receivers, w4) \<Rightarrow>
          (if receivers = 0 then
             (case revert E (rfJobID f) w4 of
                (Inl e, w5) \<Rightarrow> (Inl e, w5)
              | (Inr _, w5) \<Rightarrow> (Inr blocked, w5))
           else
             (case uuid_parse E (rfJobID f) of
                None \<Rightarrow> (Inl (Err ''invalid UUID''), w4)
              | Some jobID \<Rightarrow>
                  (Inr dispatching, snd (qInsertAuditEvent E jobID ''job_dispatched'' None w4))))))"

lemma attemptDispatch_alt:
  "attemptDispatch E f w =
     (case eligible E (rfMailboxID f) (rfSlotID f) w of
        (False, w1) \<Rightarrow> (Inr blocked, w1)
      | (True, w1) \<Rightarrow>
     (case claimJob E (rfJobID f) w1 of
        (Inl e, w2) \<Rightarrow> (Inl e, w2)
      | (Inr claimLost, w2) \<Rightarrow> (Inr blocked, w2)
      | (Inr claimSettled, w2) \<Rightarrow> (Inr settled, w2)
      | (Inr claimed, w2) \<Rightarrow> after_claim E f w2))"
  unfolding attemptDispatch_def after_claim_def by (rule refl)

lemma after_claim_jobs:
  assumes "after_claim E f w = (r, w')" "uuid_parse E (rfJobID f) = Some i"
  shows "(r = Inr dispatching \<and> jobs (db w') = jobs (db w) \<and> db_steps (db w) (db w'))
       \<or> (r = Inr blocked \<and> db w' = mark i ''queued'' (db w))
       \<or> (\<exists>e. r = Inl e \<and> (db w' = db w \<or> db w' = mark i ''queued'' (db w)))"
proof -
  obtain p w3 where p: "PresignedReadURL E (rfBlobRef f) presignTTL w = (p, w3)" by fastforce
  then have d3: "db w3 = db w" by (metis minio_db(3) snd_conv)
  show ?thesis
  proof (cases p)
    case (Inl e)
    then have "r = Inl e" "w' = snd (revert E (rfJobID f) w3)"
      using assms(1) p by (auto simp: after_claim_def)
    then show ?thesis using revert_db [OF assms(2), of w3] d3 by auto
  next
    case (Inr url)
    obtain q w4 where q: "call (r_publish E (ChanDispatch (rfMailboxID f)) (dispatch_frame f url)) w3 = (q, w4)"
      by fastforce
    then have d4: "db w4 = db w" using d3 by (metis db_call snd_conv)
    show ?thesis
    proof (cases q)
      case (Inl e)
      then have "r = Inl e" "w' = snd (revert E (rfJobID f) w4)"
        using assms(1) p q \<open>p = Inr url\<close> by (auto simp: after_claim_def)
      then show ?thesis using revert_db [OF assms(2), of w4] d4 by auto
    next
      case (Inr n)
      note eqs = assms(1) p q \<open>p = Inr url\<close> Inr
      show ?thesis
      proof (cases "n = 0")
        case True
        obtain u w5 where u: "revert E (rfJobID f) w4 = (u, w5)" by fastforce
        have a: "(r, w') = (case u of Inl e \<Rightarrow> (Inl e, w5) | Inr _ \<Rightarrow> (Inr blocked, w5))"
          using eqs True u by (simp add: after_claim_def split: sum.splits)
        show ?thesis
        proof (cases u)
          case (Inl e)
          with a u d4 revert_db [OF assms(2), of w4] show ?thesis by simp
        next
          case (Inr x)
          with a u d4 revert_InrD [OF _ assms(2), of w4 x w5] show ?thesis by simp
        qed
      next
        case False
        then have "r = Inr dispatching" "w' = snd (qInsertAuditEvent E i ''job_dispatched'' None w4)"
          using eqs assms(2) by (auto simp: after_claim_def)
        then show ?thesis using d4 query_steps(2) [of w4] by simp
      qed
    qed
  qed
qed

lemma attempt_ineligible:
  "eligible E (rfMailboxID f) (rfSlotID f) w = (False, w1) \<Longrightarrow> attemptDispatch E f w = (Inr blocked, w1)"
  by (simp add: attemptDispatch_def)

definition jobs_marked :: "uuid \<Rightarrow> string \<Rightarrow> tables \<Rightarrow> tables \<Rightarrow> bool" where
  "jobs_marked i st t u \<longleftrightarrow> claimable_in t i \<and> jobs u = jobs (mark i st t)"

lemma attempt_outcomes_steps:
  assumes "attemptDispatch E f w = (r, w')" "uuid_parse E (rfJobID f) = Some i"
  shows "db_steps (db w) (db w') \<and> ((r = Inr dispatching \<and> jobs_marked i dispatching (db w) (db w'))
       \<or> (r = Inr settled \<and> \<not> claimable_in (db w) i \<and> db w' = db w)
       \<or> (r = Inr blocked \<and> (db w' = db w \<or> jobs_marked i ''queued'' (db w) (db w')))
       \<or> (\<exists>e. r = Inl e \<and> (db w' = db w \<or> jobs_marked i dispatching (db w) (db w')
               \<or> jobs_marked i ''queued'' (db w) (db w'))))"
proof -
  obtain b w1 where e: "eligible E (rfMailboxID f) (rfSlotID f) w = (b, w1)" by fastforce
  then have d1: "db w1 = db w" by (metis eligible_db snd_conv)
  show ?thesis
  proof (cases b)
    case False
    with e have "attemptDispatch E f w = (Inr blocked, w1)" by (simp add: attempt_ineligible)
    with assms(1) d1 show ?thesis by auto
  next
    case True
    obtain c w2 where c: "claimJob E (rfJobID f) w1 = (c, w2)" by fastforce
    note eqs = assms(1) e True c
    show ?thesis
    proof (cases c)
      case (Inl err)
      then have "r = Inl err" "w' = w2" using eqs by (auto simp: attemptDispatch_alt)
      with claimJob_InlD [of E "rfJobID f" w1 err w2] c Inl d1 assms(2) show ?thesis
        using db_steps_mark(1) [of "db w" i] by (auto simp: jobs_marked_def)
    next
      case (Inr oc)
      note cl = claimJob_InrD [OF c [unfolded Inr] assms(2)]
      show ?thesis
      proof (cases oc)
        case claimed
        have st: "db_steps (db w) (mark i dispatching (db w))"
          "db_steps (db w) (mark i ''queued'' (db w))" by (rule db_steps_mark)+
        with cl d1 claimed have m: "claimable_in (db w) i" "db w2 = mark i dispatching (db w)" by auto
        have "after_claim E f w2 = (r, w')" using eqs Inr claimed by (simp add: attemptDispatch_alt)
        from after_claim_jobs [OF this assms(2)] m st show ?thesis
          by (auto simp: jobs_marked_def intro: rtranclp_trans)
      qed (use eqs Inr cl d1 in \<open>auto simp: attemptDispatch_alt\<close>)
    qed
  qed
qed

lemmas attempt_outcomes = attempt_outcomes_steps [THEN conjunct2]

text \<open>The row of a job that is not claimable is out of reach of every attempt.\<close>

lemma attempt_not_claimable:
  assumes "\<not> claimable_in (db w) i" "uuid_parse E (rfJobID f) = Some i"
  shows "db (snd (attemptDispatch E f w)) = db w \<and>
    (fst (attemptDispatch E f w) = Inr blocked \<or> fst (attemptDispatch E f w) = Inr settled \<or>
     (\<exists>e. fst (attemptDispatch E f w) = Inl e))"
  using attempt_outcomes [OF prod.collapse [symmetric] assms(2), of w] assms(1)
  by (auto simp: jobs_marked_def)

lemma attempt_no_uuid:
  assumes "uuid_parse E (rfJobID f) = None"
  shows "db (snd (attemptDispatch E f w)) = db w \<and>
    (fst (attemptDispatch E f w) = Inr blocked \<or> (\<exists>e. fst (attemptDispatch E f w) = Inl e))"
  using eligible_db [of E "rfMailboxID f" "rfSlotID f" w] assms
  by (auto simp: attemptDispatch_alt claimJob_def simp del: eligible_db split: prod.splits bool.splits)

lemma job_of_marked_other: "jobs_marked i st t u \<Longrightarrow> k \<noteq> i \<Longrightarrow> job_of u k = job_of t k"
  using job_of_mark_other [of k i st t] by (simp add: jobs_marked_def job_of_def)

lemma status_of_marked: "jobs_marked i st t u \<Longrightarrow> status_of u i = Some st"
proof -
  assume *: "jobs_marked i st t u"
  have "status_of u i = status_of (mark i st t) i"
    using * by (simp add: jobs_marked_def status_of_def job_of_def)
  also have "\<dots> = Some st"
    using * by (auto simp: jobs_marked_def claimable_in_def split: option.splits)
  finally show ?thesis .
qed

lemma claimable_marked: "jobs_marked i st t u \<Longrightarrow> claimable_in u i \<longleftrightarrow> claimable st"
  by (simp add: claimable_in_def status_of_marked)

lemma attempt_other_jobs:
  assumes "uuid_parse E (rfJobID f) = Some i" "k \<noteq> i"
  shows "job_of (db (snd (attemptDispatch E f w))) k = job_of (db w) k"
  using attempt_outcomes [OF prod.collapse [symmetric] assms(1), of w] assms(2)
  by (auto dest: job_of_marked_other)

lemma claimable_status: "status_of t i = status_of u i \<Longrightarrow> claimable_in t i = claimable_in u i"
  by (simp add: claimable_in_def)

lemma claimable_in_jobs: "job_of u k = job_of t k \<Longrightarrow> claimable_in u k = claimable_in t k"
  by (simp add: claimable_in_def status_of_def)

text \<open>No attempt makes a job claimable that was not.\<close>

lemma attempt_claimable_mono:
  assumes "\<not> claimable_in (db w) k"
  shows "\<not> claimable_in (db (snd (attemptDispatch E f w))) k"
proof (cases "uuid_parse E (rfJobID f)")
  case None
  with attempt_no_uuid [OF None, of w] assms show ?thesis by simp
next
  case (Some i)
  show ?thesis
  proof (cases "k = i")
    case True
    with attempt_not_claimable [OF _ Some, of w] assms show ?thesis by auto
  next
    case False
    with claimable_in_jobs [OF attempt_other_jobs [OF Some False, of w]] assms show ?thesis
      by blast
  qed
qed

section \<open>Retry and TryDispatch\<close>

lemma Retry_db [simp]: "db (snd (Retry E f w)) = db (snd (attemptDispatch E f w))"
  by (auto simp: Retry_def split: prod.splits sum.splits)

lemma Retry_ext [simp]: "ext (snd (Retry E f w)) = ext (snd (attemptDispatch E f w))"
  by (auto simp: Retry_def split: prod.splits sum.splits)

text \<open>A retry that reports done has left nothing to retry.\<close>

lemma Retry_done:
  assumes "Retry E f w = (Inr True, w')"
  shows "\<exists>i. uuid_parse E (rfJobID f) = Some i \<and> \<not> claimable_in (db w') i"
proof -
  obtain outcome where a: "attemptDispatch E f w = (Inr outcome, w')" "outcome \<noteq> blocked"
    using assms by (auto simp: Retry_def split: prod.splits sum.splits)
  obtain i where i: "uuid_parse E (rfJobID f) = Some i"
    using attempt_no_uuid [of E f w] a by (cases "uuid_parse E (rfJobID f)") auto
  from attempt_outcomes [OF a(1) i] a(2) i show ?thesis by (auto simp: claimable_marked)
qed

lemma enqueue_db [simp]: "db (snd (enqueue E f w)) = db w"
  using db_call [of "r_xadd E PendingStream (toXAddValues f)" w]
  by (auto simp: enqueue_def simp del: db_call split: prod.splits sum.splits)

lemma TryDispatch_db [simp]: "db (snd (TryDispatch E f w)) = db (snd (attemptDispatch E f w))"
  using enqueue_db [of E f] by (auto simp: TryDispatch_def split: prod.splits sum.splits)

section \<open>The database moves by queries only\<close>

lemma attempt_steps: "db_steps (db w) (db (snd (attemptDispatch E f w)))"
proof (cases "uuid_parse E (rfJobID f)")
  case None
  with attempt_no_uuid [OF None, of w] show ?thesis by simp
next
  case (Some i)
  with attempt_outcomes_steps [OF prod.collapse [symmetric] Some, of w] show ?thesis by blast
qed

section \<open>What is published\<close>

context observed
begin

lemma obs_eligible [simp]: "obs (ext (snd (eligible E m s w))) = obs (ext w)"
  using obs_store(2) [of m w]
  by (auto simp: eligible_def simp del: obs_store split: prod.splits sum.splits option.splits)

lemma obs_revert [simp]: "obs (ext (snd (revert E s w))) = obs (ext w)"
  by (simp add: revert_def split: option.splits)

lemma obs_claimJob: "claimJob E s w = (c, w') \<Longrightarrow> obs (ext w') = obs (ext w)"
  by (auto simp: claimJob_def dest!: obs_txD split: option.splits prod.splits sum.splits if_splits)

end

context publish_history
begin

text \<open>
  An attempt publishes at most one message: the job's frame, with the key as it was stored, on
  its mailbox's channel, and only after its claim has committed.
\<close>

lemma attempt_publishes:
  assumes "attemptDispatch E f w = (r, w')"
  shows "hist (ext w') = hist (ext w) \<or>
    (\<exists>i url. uuid_parse E (rfJobID f) = Some i \<and> claimable_in (db w) i \<and>
       hist (ext w') = hist (ext w) @ [(ChanDispatch (rfMailboxID f), dispatch_frame f url)])"
proof -
  obtain b w1 where e: "eligible E (rfMailboxID f) (rfSlotID f) w = (b, w1)" by fastforce
  then have h1: "hist (ext w1) = hist (ext w)" "db w1 = db w"
    using obs_eligible eligible_db by (metis snd_conv)+
  obtain c w2 where c: "claimJob E (rfJobID f) w1 = (c, w2)" by fastforce
  note h2 = obs_claimJob [OF c]
  show ?thesis
  proof (cases "b \<and> c = Inr claimed")
    case False
    with assms e c h1 h2 show ?thesis
      by (auto simp: attemptDispatch_alt split: bool.splits sum.splits claimOutcome.splits)
  next
    case True
    then obtain i where i: "uuid_parse E (rfJobID f) = Some i" using c claimJob_parse by blast
    with claimJob_InrD [of E _ w1 claimed w2] c True h1 have cl: "claimable_in (db w) i" by auto
    obtain p w3 where p: "PresignedReadURL E (rfBlobRef f) presignTTL w2 = (p, w3)" by fastforce
    then have h3: "hist (ext w3) = hist (ext w)" using h1 h2 obs_minio(1) by (metis snd_conv)
    have pub: "hist (ext w4) = hist (ext w) @ [(ch, j)]"
      if "call (r_publish E ch j) w3 = (q, w4)" for ch j q w4
      using call_eqD [OF that] publish_hist [of ch j "ext w3"] h3 by simp
    from assms e c True p have a: "after_claim E f w2 = (r, w')" by (simp add: attemptDispatch_alt)
    show ?thesis
    proof (cases p)
      case (Inl err)
      with a p have "w' = snd (revert E (rfJobID f) w3)" by (simp add: after_claim_def)
      then show ?thesis using h3 by simp
    next
      case (Inr url)
      obtain q w4 where q: "call (r_publish E (ChanDispatch (rfMailboxID f)) (dispatch_frame f url)) w3 = (q, w4)"
        by fastforce
      have "hist (ext w') = hist (ext w4)"
        using a p q Inr i obs_revert [of "rfJobID f" w4] obs_queries(1) [of i "''job_dispatched''" None w4]
        by (auto simp: after_claim_def simp del: obs_revert obs_queries split: sum.splits prod.splits if_splits)
      with pub [OF q] i cl show ?thesis by auto
    qed
  qed
qed

end

end
