(* ===== verification/Dispatcher.thy ===== *)
theory Dispatcher
  imports Route_Facts
begin

text \<open>
  \<^verbatim>\<open>dispatch/dispatcher.go\<close>: the goroutine that drains the pending stream, reclaims what crashed
  nodes left behind and reaps the consumers of dead nodes. A message is acknowledged when its
  retry is done or it is malformed, and stays in the group's pending entries list otherwise.
\<close>

section \<open>Settings\<close>

definition claimMinIdle :: int where "claimMinIdle = 60 * Second"
definition handleTimeout :: int where "handleTimeout = 15 * Second"
definition reapMinIdle :: int where "reapMinIdle = 5 * claimMinIdle"
definition maxDrainBatches :: nat where "maxDrainBatches = 20"

record Dispatcher =
  NodeID :: string
  SweepInt :: int
  ReapIdle :: int

definition sweepInterval :: "Dispatcher \<Rightarrow> int" where
  "sweepInterval di = (if SweepInt di > 0 then SweepInt di else claimMinIdle)"

definition reapIdle :: "Dispatcher \<Rightarrow> int" where
  "reapIdle di = (if ReapIdle di > 0 then ReapIdle di else reapMinIdle)"

section \<open>The consumer group\<close>

definition EnsureGroup :: "'s env \<Rightarrow> ('s, unit res) op" where
  "EnsureGroup E w =
     (case call (r_xgroup_create E PendingStream ConsumerGroup ''$'') w of
        (Inl e, w1) \<Rightarrow> (if \<not> strContains (err_text e) ''BUSYGROUP'' then (Inl e, w1) else (Inr (), w1))
      | (Inr _, w1) \<Rightarrow> (Inr (), w1))"

section \<open>One message\<close>

definition ack :: "'s env \<Rightarrow> string \<Rightarrow> 's world \<Rightarrow> 's world" where
  "ack E i w = snd (call (r_xack E PendingStream ConsumerGroup i) w)"

definition handle :: "'s env \<Rightarrow> xmessage \<Rightarrow> 's world \<Rightarrow> 's world" where
  "handle E msg w =
     (case JobRefFromValues (xValues msg) of
        Inl _ \<Rightarrow> ack E (xID msg) w
      | Inr f \<Rightarrow>
          (case Retry E f w of
             (Inl _, w1) \<Rightarrow> w1
           | (Inr done, w1) \<Rightarrow> (if \<not> done then w1 else ack E (xID msg) w1)))"

text \<open>
  The messages of a batch, up to the end or to a cancellation seen after a message; the flag
  says that the batch was cut short.
\<close>

fun handle_batch :: "'s env \<Rightarrow> xmessage list \<Rightarrow> 's world \<Rightarrow> bool \<times> 's world" where
  "handle_batch E [] w = (False, w)"
| "handle_batch E (m # ms) w =
     (let w1 = handle E m w in
      if ctx_err E (ext w1) then (True, w1) else handle_batch E ms w1)"

section \<open>New messages: drain\<close>

fun drain_batches :: "'s env \<Rightarrow> string \<Rightarrow> nat \<Rightarrow> 's world \<Rightarrow> 's world" where
  "drain_batches E node 0 w = w"
| "drain_batches E node (Suc n) w =
     (case call (r_xreadgroup E ConsumerGroup node PendingStream 10) w of
        (Inl _, w1) \<Rightarrow> w1
      | (Inr streams, w1) \<Rightarrow>
          (if streams = [] \<or> hd streams = [] then w1
           else (case handle_batch E (hd streams) w1 of
                   (True, w2) \<Rightarrow> w2
                 | (False, w2) \<Rightarrow> drain_batches E node n w2)))"

definition drain :: "'s env \<Rightarrow> Dispatcher \<Rightarrow> 's world \<Rightarrow> 's world" where
  "drain E di = drain_batches E (NodeID di) maxDrainBatches"

section \<open>Abandoned messages: reclaim\<close>

partial_function (option) reclaim_from :: "'s env \<Rightarrow> string \<Rightarrow> string \<Rightarrow> 's world \<Rightarrow> 's world option" where
  "reclaim_from E node start w =
     (case call (r_xautoclaim E PendingStream ConsumerGroup node claimMinIdle start 10) w of
        (Inl _, w1) \<Rightarrow> Some w1
      | (Inr (msgs, nxt), w1) \<Rightarrow>
          (case handle_batch E msgs w1 of
             (stopped, w2) \<Rightarrow>
               (if stopped then Some w2
                else if nxt = ''0-0'' \<or> msgs = [] then Some w2
                else reclaim_from E node nxt w2)))"

definition reclaim :: "'s env \<Rightarrow> Dispatcher \<Rightarrow> 's world \<Rightarrow> 's world option" where
  "reclaim E di = reclaim_from E (NodeID di) ''0-0''"

section \<open>Consumers\<close>

definition deleteConsumerIfDrained :: "'s env \<Rightarrow> string \<Rightarrow> ('s, bool res) op" where
  "deleteConsumerIfDrained E name w =
     (case call (r_xpending E PendingStream ConsumerGroup name 1) w of
        (r, w1) \<Rightarrow>
          (case (case r of Inl RedisNil \<Rightarrow> Inr [] | Inl e \<Rightarrow> Inl e | Inr ps \<Rightarrow> Inr ps) of
             Inl e \<Rightarrow> (Inl e, w1)
           | Inr pending \<Rightarrow>
               (if pending \<noteq> [] then (Inr False, w1)
                else (case call (r_xgroup_delconsumer E PendingStream ConsumerGroup name) w1 of
                        (Inl e, w2) \<Rightarrow> (Inl e, w2)
                      | (Inr _, w2) \<Rightarrow> (Inr True, w2)))))"

definition RemoveConsumer :: "'s env \<Rightarrow> Dispatcher \<Rightarrow> ('s, unit res) op" where
  "RemoveConsumer E di w =
     (case deleteConsumerIfDrained E (NodeID di) w of
        (Inl e, w1) \<Rightarrow> (Inl e, w1)
      | (Inr _, w1) \<Rightarrow> (Inr (), w1))"

fun reap_each :: "'s env \<Rightarrow> Dispatcher \<Rightarrow> consumer_info list \<Rightarrow> 's world \<Rightarrow> 's world" where
  "reap_each E di [] w = w"
| "reap_each E di (c # cs) w =
     (if ciName c = NodeID di \<or> ciIdle c < reapIdle di \<or> ciPending c > 0 then reap_each E di cs w
      else reap_each E di cs (snd (deleteConsumerIfDrained E (ciName c) w)))"

definition ReapStaleConsumers :: "'s env \<Rightarrow> Dispatcher \<Rightarrow> 's world \<Rightarrow> 's world" where
  "ReapStaleConsumers E di w =
     (case call (r_xinfo_consumers E PendingStream ConsumerGroup) w of
        (Inl _, w1) \<Rightarrow> w1
      | (Inr consumers, w1) \<Rightarrow> reap_each E di consumers w1)"

section \<open>The loop\<close>

text \<open>What the select of \<^verbatim>\<open>Run\<close> receives, one after the other.\<close>

datatype run_event = CtxDone | Available | AvailableClosed | SweepTick

fun run_loop :: "'s env \<Rightarrow> Dispatcher \<Rightarrow> run_event list \<Rightarrow> 's world \<Rightarrow> 's world option" where
  "run_loop E di [] w = Some w"
| "run_loop E di (CtxDone # evs) w = Some w"
| "run_loop E di (AvailableClosed # evs) w = Some w"
| "run_loop E di (Available # evs) w = run_loop E di evs (drain E di w)"
| "run_loop E di (SweepTick # evs) w =
     (case reclaim E di w of None \<Rightarrow> None
      | Some w1 \<Rightarrow> run_loop E di evs (ReapStaleConsumers E di (drain E di w1)))"

definition Run :: "'s env \<Rightarrow> Dispatcher \<Rightarrow> run_event list \<Rightarrow> 's world \<Rightarrow> 's world option" where
  "Run E di evs w = run_loop E di evs (drain E di w)"

end
