(* ===== verification/Stream_Facts.thy ===== *)
theory Stream_Facts
  imports Dispatcher
begin

text \<open>
  What the dispatcher relies on from Redis Streams, as the locale \<^verbatim>\<open>stream_service\<close>, and what it
  gives for it: no queued work is lost. The abstraction of the stream is its backlog (entries no
  consumer has read, in order) and the pending entries list of the group (entry id to owner and
  fields).
\<close>

type_synonym pel = "string \<Rightarrow> (string \<times> xvalues) option"

section \<open>What an attempt leaves alone\<close>

context quiet
begin

lemma quiet_eligible: "eligible E m sl w = (b, w') \<Longrightarrow> obs (ext w') = obs (ext w)"
  using obs_store(2) [of m w]
  by (auto simp: eligible_def simp del: obs_store split: prod.splits sum.splits option.splits if_splits)

lemma quiet_claimJob: "claimJob E i w = (c, w') \<Longrightarrow> obs (ext w') = obs (ext w)"
  by (auto simp: claimJob_def dest!: obs_txD split: option.splits prod.splits sum.splits if_splits)

lemma quiet_revert: "obs (ext (snd (revert E i w))) = obs (ext w)"
  by (cases "uuid_parse E i") (simp_all add: revert_def)

lemma quiet_revertD: "revert E i w = (r, w') \<Longrightarrow> obs (ext w') = obs (ext w)"
  using quiet_revert [of i w] by simp

lemma quiet_publish: "call (r_publish E ch j) w = (r, w') \<Longrightarrow> obs (ext w') = obs (ext w)"
  using obs_call [of "r_publish E ch j" w] by simp

lemma quiet_presign: "PresignedReadURL E b ttl w = (r, w') \<Longrightarrow> obs (ext w') = obs (ext w)"
  using obs_minio(1) [of b ttl w] by simp

lemma quiet_after_claim: "after_claim E f w = (r, w') \<Longrightarrow> obs (ext w') = obs (ext w)"
  by (auto simp: after_claim_def quiet_revert dest!: quiet_presign quiet_publish quiet_revertD
      split: prod.splits sum.splits if_splits option.splits)

lemma quiet_attempt: "attemptDispatch E f w = (r, w') \<Longrightarrow> obs (ext w') = obs (ext w)"
  unfolding attemptDispatch_alt
  by (auto dest!: quiet_eligible quiet_claimJob quiet_after_claim
      split: prod.splits bool.splits sum.splits claimOutcome.splits)

lemma quiet_Retry: "Retry E f w = (r, w') \<Longrightarrow> obs (ext w') = obs (ext w)"
  by (auto simp: Retry_def dest!: quiet_attempt split: prod.splits sum.splits)

end

section \<open>The laws of the stream\<close>

definition delivered :: "string \<Rightarrow> xmessage list \<Rightarrow> pel \<Rightarrow> pel" where
  "delivered c ms p = p ++ map_of (map (\<lambda>m. (xID m, (c, xValues m))) ms)"

definition reassigned :: "string \<Rightarrow> string set \<Rightarrow> pel \<Rightarrow> pel" where
  "reassigned c S p = (\<lambda>i. if i \<in> S then map_option (\<lambda>(_, v). (c, v)) (p i) else p i)"

definition disowned :: "string \<Rightarrow> pel \<Rightarrow> pel" where
  "disowned c p = (\<lambda>i. case p i of None \<Rightarrow> None | Some (c', v) \<Rightarrow> if c' = c then None else Some (c', v))"

locale stream_service = quiet E "\<lambda>s. (pel s, backlog s)"
  for E :: "'s env" and pel :: "'s \<Rightarrow> pel" and backlog :: "'s \<Rightarrow> xmessage list" +
  assumes xadd_ok: "r_xadd E PendingStream vs s = (Inr i, s') \<Longrightarrow>
      pel s' = pel s \<and> backlog s' = backlog s @ [\<lparr>xID = i, xValues = vs\<rparr>] \<and>
      pel s i = None \<and> i \<notin> xID ` set (backlog s)"
    and xadd_err: "r_xadd E PendingStream vs s = (Inl e, s') \<Longrightarrow> pel s' = pel s \<and>
      (backlog s' = backlog s \<or> (\<exists>i. backlog s' = backlog s @ [\<lparr>xID = i, xValues = vs\<rparr>] \<and>
        pel s i = None \<and> i \<notin> xID ` set (backlog s)))"
    and xread: "r_xreadgroup E ConsumerGroup c PendingStream n s = (Inr ss, s') \<Longrightarrow>
      (ss = [take n (backlog s)] \<or> ss = [] \<and> take n (backlog s) = []) \<and>
      pel s' = delivered c (take n (backlog s)) (pel s) \<and> backlog s' = drop n (backlog s)"
    and xread_err: "r_xreadgroup E ConsumerGroup c PendingStream n s = (Inl e, s') \<Longrightarrow>
      (pel s' = pel s \<and> backlog s' = backlog s) \<or>
      (pel s' = delivered c (take n (backlog s)) (pel s) \<and> backlog s' = drop n (backlog s))"
    and xack: "r_xack E PendingStream ConsumerGroup i s = (r, s') \<Longrightarrow>
      (pel s' = (pel s)(i := None) \<or> pel s' = pel s \<and> (\<exists>e. r = Inl e)) \<and> backlog s' = backlog s"
    and xautoclaim: "r_xautoclaim E PendingStream ConsumerGroup c idle start n s = (Inr (ms, nxt), s') \<Longrightarrow>
      (\<forall>m\<in>set ms. \<exists>c'. pel s (xID m) = Some (c', xValues m)) \<and>
      pel s' = reassigned c (xID ` set ms) (pel s) \<and> backlog s' = backlog s"
    and xautoclaim_err: "r_xautoclaim E PendingStream ConsumerGroup c idle start n s = (Inl e, s') \<Longrightarrow>
      (\<exists>S. pel s' = reassigned c S (pel s)) \<and> backlog s' = backlog s"
    and xpending: "r_xpending E PendingStream ConsumerGroup c 1 s = (rp, s') \<Longrightarrow>
      pel s' = pel s \<and> backlog s' = backlog s \<and>
      (rp = Inr [] \<or> rp = Inl RedisNil \<longrightarrow> (\<forall>i v. pel s i \<noteq> Some (c, v)))"
    and xdel: "r_xgroup_delconsumer E PendingStream ConsumerGroup c s = (r, s') \<Longrightarrow>
      (pel s' = disowned c (pel s) \<or> pel s' = pel s) \<and> backlog s' = backlog s"
    and xinfo_keeps: "r_xinfo_consumers E PendingStream ConsumerGroup s = (ri, s') \<Longrightarrow>
      pel s' = pel s \<and> backlog s' = backlog s"

text \<open>
  Redis never gives an entry id twice. \<^verbatim>\<open>issued\<close> are the ids given so far, also those of entries
  that are long gone: a node may still be about to handle such an entry.
\<close>

locale stream_ids = stream_service E pel backlog + ids: quiet E issued
  for E :: "'s env" and pel :: "'s \<Rightarrow> pel" and backlog :: "'s \<Rightarrow> xmessage list" and issued :: "'s \<Rightarrow> string set" +
  assumes stored_issued: "xID ` set (backlog s) \<union> dom (pel s) \<subseteq> issued s"
    and xadd_issued: "r_xadd E PendingStream vs s = (r, s') \<Longrightarrow>
      issued s \<subseteq> issued s' \<and> (\<forall>m\<in>set (backlog s') - set (backlog s). xID m \<notin> issued s)"
    and xread_issued: "r_xreadgroup E ConsumerGroup c PendingStream n s = (rr, s') \<Longrightarrow> issued s \<subseteq> issued s'"
    and xack_issued: "r_xack E PendingStream ConsumerGroup i s = (ra, s') \<Longrightarrow> issued s \<subseteq> issued s'"
    and xautoclaim_issued: "r_xautoclaim E PendingStream ConsumerGroup c idle start n s = (rc, s') \<Longrightarrow> issued s \<subseteq> issued s'"
    and xpending_issued: "r_xpending E PendingStream ConsumerGroup c 1 s = (rp, s') \<Longrightarrow> issued s \<subseteq> issued s'"
    and xdel_issued: "r_xgroup_delconsumer E PendingStream ConsumerGroup c s = (rd, s') \<Longrightarrow> issued s \<subseteq> issued s'"
    and xinfo_issued: "r_xinfo_consumers E PendingStream ConsumerGroup s = (ri, s') \<Longrightarrow> issued s \<subseteq> issued s'"

section \<open>Pieces of the pending entries list\<close>

lemma disowned_none: "\<forall>i v. p i \<noteq> Some (c, v) \<Longrightarrow> disowned c p = p"
  by (rule ext) (auto simp: disowned_def split: option.splits)

lemma reassigned_values:
  "map_option snd (reassigned c S p i) = map_option snd (p i)"
  by (auto simp: reassigned_def option.map_comp comp_def split_beta)

lemma delivered_other: "i \<notin> xID ` set ms \<Longrightarrow> delivered c ms p i = p i"
  by (auto simp: delivered_def map_add_def image_iff dest!: map_of_SomeD split: option.splits)

lemma delivered_in:
  assumes "distinct (map xID ms)" "m \<in> set ms"
  shows "delivered c ms p (xID m) = Some (c, xValues m)"
proof -
  have "map_of (map (\<lambda>m. (xID m, (c, xValues m))) ms) (xID m) = Some (c, xValues m)"
    using assms by (intro map_of_is_SomeI) (auto simp: comp_def)
  then show ?thesis by (simp add: delivered_def)
qed

section \<open>No work is lost\<close>

text \<open>
  The fields of an entry are open work when they name a job whose row could still be claimed.
\<close>

definition open_values :: "'s env \<Rightarrow> tables \<Rightarrow> xvalues \<Rightarrow> bool" where
  "open_values E t v \<longleftrightarrow>
     (case JobRefFromValues v of Inl _ \<Rightarrow> False
      | Inr f \<Rightarrow> (case uuid_parse E (rfJobID f) of None \<Rightarrow> False | Some i \<Rightarrow> claimable_in t i))"

context stream_service
begin

definition held :: "'s world \<Rightarrow> (string \<times> xvalues) set" where
  "held w = {(i, v). (\<exists>c. pel (ext w) i = Some (c, v)) \<or> \<lparr>xID = i, xValues = v\<rparr> \<in> set (backlog (ext w))}"

definition sound :: "'s world \<Rightarrow> bool" where
  "sound w \<longleftrightarrow> distinct (map xID (backlog (ext w))) \<and>
     (\<forall>m\<in>set (backlog (ext w)). pel (ext w) (xID m) = None)"

definition conserves :: "'s world \<Rightarrow> 's world \<Rightarrow> bool" where
  "conserves w w' \<longleftrightarrow>
     (\<forall>i v. (i, v) \<in> held w \<longrightarrow> (i, v) \<in> held w' \<or> \<not> open_values E (db w') v) \<and>
     (\<forall>v. \<not> open_values E (db w) v \<longrightarrow> \<not> open_values E (db w') v)"

lemma conserves_refl: "conserves w w"
  by (simp add: conserves_def)

lemma conserves_trans: "conserves a b \<Longrightarrow> conserves b c \<Longrightarrow> conserves a c"
  unfolding conserves_def by blast

lemma call_cases:
  obtains r s' where "f (ext w) = (r, s')" "call f w = (r, w\<lparr>ext := s'\<rparr>)"
  by (cases "f (ext w)") (auto simp: call_def)

subsection \<open>An attempt does not touch the stream\<close>

lemma stream_obsD:
  assumes "(pel s', backlog s') = (pel s, backlog s)"
  shows "pel s' = pel s" "backlog s' = backlog s"
  using assms by simp_all

lemma keep_attempt:
  "attemptDispatch E f w = (r, w') \<Longrightarrow> pel (ext w') = pel (ext w) \<and> backlog (ext w') = backlog (ext w)"
  using quiet_attempt by simp

lemma keep_Retry:
  "Retry E f w = (r, w') \<Longrightarrow> pel (ext w') = pel (ext w) \<and> backlog (ext w') = backlog (ext w)"
  using quiet_Retry by simp

subsection \<open>One message\<close>

lemma ack_stream:
  "backlog (ext (ack E i w)) = backlog (ext w)" "db (ack E i w) = db w"
  "k \<noteq> i \<Longrightarrow> pel (ext (ack E i w)) k = pel (ext w) k"
  "pel (ext (ack E i w)) i = pel (ext w) i \<or> pel (ext (ack E i w)) i = None"
proof -
  obtain r s' where a: "r_xack E PendingStream ConsumerGroup i (ext w) = (r, s')"
    "call (r_xack E PendingStream ConsumerGroup i) w = (r, w\<lparr>ext := s'\<rparr>)"
    by (rule call_cases)
  with xack [OF a(1)]
  show "backlog (ext (ack E i w)) = backlog (ext w)" "db (ack E i w) = db w"
    "k \<noteq> i \<Longrightarrow> pel (ext (ack E i w)) k = pel (ext w) k"
    "pel (ext (ack E i w)) i = pel (ext w) i \<or> pel (ext (ack E i w)) i = None"
    by (auto simp: ack_def)
qed

lemma handle_cases:
  obtains (malformed) e where "JobRefFromValues (xValues m) = Inl e" "handle E m w = ack E (xID m) w"
  | (left) f r w1 where "JobRefFromValues (xValues m) = Inr f" "Retry E f w = (r, w1)"
      "r \<noteq> Inr True" "handle E m w = w1"
  | (acked) f w1 where "JobRefFromValues (xValues m) = Inr f" "Retry E f w = (Inr True, w1)"
      "handle E m w = ack E (xID m) w1"
proof (cases "JobRefFromValues (xValues m)")
  case (Inl e)
  then show ?thesis using malformed by (simp add: handle_def)
next
  case (Inr f)
  obtain r w1 where r: "Retry E f w = (r, w1)" by fastforce
  show ?thesis
  proof (cases "r = Inr True")
    case True
    then show ?thesis using Inr r acked by (simp add: handle_def)
  next
    case False
    then have "handle E m w = w1"
      using Inr r by (cases r) (auto simp: handle_def)
    then show ?thesis using Inr r False left by blast
  qed
qed

lemma open_mono_Retry:
  "Retry E f w = (r, w1) \<Longrightarrow> \<not> open_values E (db w) v \<Longrightarrow> \<not> open_values E (db w1) v"
  using Retry_db [of E f w] attempt_claimable_mono [of w _ E f]
  by (auto simp: open_values_def split: sum.splits option.splits)

lemma handle_stream:
  "backlog (ext (handle E m w)) = backlog (ext w)"
  "k \<noteq> xID m \<Longrightarrow> pel (ext (handle E m w)) k = pel (ext w) k"
  "pel (ext (handle E m w)) (xID m) = pel (ext w) (xID m) \<or> pel (ext (handle E m w)) (xID m) = None"
proof -
  have "backlog (ext (handle E m w)) = backlog (ext w) \<and>
    (k \<noteq> xID m \<longrightarrow> pel (ext (handle E m w)) k = pel (ext w) k) \<and>
    (pel (ext (handle E m w)) (xID m) = pel (ext w) (xID m) \<or> pel (ext (handle E m w)) (xID m) = None)"
  proof (cases rule: handle_cases [of m w])
    case (malformed e)
    then show ?thesis using ack_stream(4) [of "xID m" w] by (simp add: ack_stream)
  next
    case (left f r w1)
    then show ?thesis using keep_Retry by simp
  next
    case (acked f w1)
    then show ?thesis using keep_Retry [OF acked(2)] ack_stream(4) [of "xID m" w1]
      by (simp add: ack_stream)
  qed
  then show "backlog (ext (handle E m w)) = backlog (ext w)"
    "k \<noteq> xID m \<Longrightarrow> pel (ext (handle E m w)) k = pel (ext w) k"
    "pel (ext (handle E m w)) (xID m) = pel (ext w) (xID m) \<or> pel (ext (handle E m w)) (xID m) = None"
    by auto
qed

lemma handle_open_mono:
  assumes "\<not> open_values E (db w) v"
  shows "\<not> open_values E (db (handle E m w)) v"
proof (cases rule: handle_cases [of m w])
  case (malformed e)
  then show ?thesis using assms by (simp add: ack_stream)
next
  case (left f r w1)
  then show ?thesis using open_mono_Retry assms by simp
next
  case (acked f w1)
  then show ?thesis using open_mono_Retry assms by (simp add: ack_stream)
qed

text \<open>An entry leaves the list only when there is nothing left to do for it.\<close>

lemma handle_acked_closed:
  assumes "pel (ext w) (xID m) = Some (c, xValues m)" "pel (ext (handle E m w)) (xID m) = None"
  shows "\<not> open_values E (db (handle E m w)) (xValues m)"
proof (rule handle_cases [of m w])
  fix e assume "JobRefFromValues (xValues m) = Inl e"
  then show ?thesis by (simp add: open_values_def)
next
  fix f r w1 assume "Retry E f w = (r, w1)" "handle E m w = w1"
  with keep_Retry assms show ?thesis by force
next
  fix f w1
  assume *: "JobRefFromValues (xValues m) = Inr f" "Retry E f w = (Inr True, w1)"
    "handle E m w = ack E (xID m) w1"
  from Retry_done [OF *(2)] * show ?thesis by (auto simp: open_values_def ack_stream(2))
qed

definition agrees :: "'s world \<Rightarrow> xmessage \<Rightarrow> bool" where
  "agrees w m \<longleftrightarrow> (\<forall>c v. pel (ext w) (xID m) = Some (c, v) \<longrightarrow> v = xValues m)"

lemma handle_conserves:
  assumes "agrees w m" "sound w"
  shows "conserves w (handle E m w)"
proof -
  have "(i, v) \<in> held (handle E m w) \<or> \<not> open_values E (db (handle E m w)) v" if "(i, v) \<in> held w" for i v
  proof (cases "\<exists>c. pel (ext w) i = Some (c, v)")
    case False
    with that show ?thesis by (auto simp: held_def handle_stream(1))
  next
    case True
    then obtain c where c: "pel (ext w) i = Some (c, v)" by blast
    show ?thesis
    proof (cases "i = xID m")
      case False
      with c handle_stream(2) show ?thesis by (auto simp: held_def)
    next
      case i: True
      with c assms(1) have v: "v = xValues m" by (auto simp: agrees_def)
      with c i handle_stream(3) [of m w] handle_acked_closed [of w m c] show ?thesis
        by (auto simp: held_def)
    qed
  qed
  then show ?thesis by (simp add: conserves_def handle_open_mono)
qed

lemma handle_agrees: "agrees w m \<Longrightarrow> agrees (handle E m' w) m"
  using handle_stream(2) [of "xID m" m' w] handle_stream(3) [of m' w]
  by (cases "xID m = xID m'") (auto simp: agrees_def)

lemma handle_sound: "sound w \<Longrightarrow> sound (handle E m w)"
proof -
  assume s: "sound w"
  have "pel (ext (handle E m w)) (xID x) = None" if "x \<in> set (backlog (ext w))" for x
    using s that handle_stream(2) [of "xID x" m w] handle_stream(3) [of m w]
    by (cases "xID x = xID m") (auto simp: sound_def)
  with s show ?thesis by (simp add: sound_def handle_stream(1))
qed

subsection \<open>Batches\<close>

lemma batch_conserves:
  assumes "\<forall>m\<in>set ms. agrees w m" "sound w" "handle_batch E ms w = (b, w')"
  shows "conserves w w' \<and> sound w' \<and> backlog (ext w') = backlog (ext w) \<and>
    (\<forall>i. i \<notin> xID ` set ms \<longrightarrow> pel (ext w') i = pel (ext w) i)"
  using assms
proof (induction ms arbitrary: w)
  case Nil
  then show ?case by (simp add: conserves_refl)
next
  case (Cons m ms)
  let ?w1 = "handle E m w"
  have c: "conserves w ?w1" using Cons.prems by (simp add: handle_conserves)
  have s: "sound ?w1" using Cons.prems by (simp add: handle_sound)
  show ?case
  proof (cases "ctx_err E (ext ?w1)")
    case True
    with Cons.prems c s show ?thesis
      by (auto simp: Let_def handle_stream)
  next
    case False
    with Cons.prems(3) have h: "handle_batch E ms ?w1 = (b, w')" by (simp add: Let_def)
    have "\<forall>x\<in>set ms. agrees ?w1 x" using Cons.prems(1) by (simp add: handle_agrees)
    from Cons.IH [OF this s h] c show ?thesis
      by (auto simp: handle_stream intro: conserves_trans)
  qed
qed

end

end
