(* ===== verification/Dispatcher_Facts.thy ===== *)
theory Dispatcher_Facts
  imports Stream_Facts
begin

text \<open>
  The dispatcher over the stream: draining and reclaiming conserve the open work, a drain leaves
  the pending entries of earlier drains alone, deleting consumers never discards an entry, and a
  reclaim ends because the cursor of XAUTOCLAIM moves forward.
\<close>

context stream_service
begin

section \<open>Reading a batch\<close>

lemma xread_state:
  assumes "call (r_xreadgroup E ConsumerGroup c PendingStream n) w = (r, w1)" "sound w"
  shows "conserves w w1 \<and> sound w1 \<and> db w1 = db w \<and>
    (\<exists>k\<le>n. backlog (ext w1) = drop k (backlog (ext w))) \<and>
    (\<forall>i. pel (ext w) i \<noteq> None \<longrightarrow> pel (ext w1) i = pel (ext w) i) \<and>
    (\<forall>ss. r = Inr ss \<longrightarrow> ss = [] \<or> (ss = [take n (backlog (ext w))] \<and>
      (\<forall>m\<in>set (hd ss). agrees w1 m \<and> pel (ext w) (xID m) = None)))"
proof -
  let ?bl = "backlog (ext w)" and ?p = "pel (ext w)"
  note x = call_eqD [OF assms(1)]
  have moved: "conserves w w1 \<and> sound w1 \<and> (\<forall>i. ?p i \<noteq> None \<longrightarrow> pel (ext w1) i = ?p i) \<and>
      (\<forall>m\<in>set (take n ?bl). agrees w1 m \<and> ?p (xID m) = None)"
    if m: "pel (ext w1) = delivered c (take n ?bl) ?p" "backlog (ext w1) = drop n ?bl"
  proof -
    have d: "distinct (map xID (take n ?bl @ drop n ?bl))"
      using assms(2) by (simp add: sound_def)
    have none: "\<forall>m\<in>set ?bl. ?p (xID m) = None" using assms(2) by (simp add: sound_def)
    have old: "pel (ext w1) i = ?p i" if "?p i \<noteq> None" for i
    proof -
      have "i \<notin> xID ` set (take n ?bl)" using that none set_take_subset [of n ?bl] by fastforce
      then show ?thesis by (simp add: m(1) delivered_other)
    qed
    have fresh: "pel (ext w1) (xID y) = Some (c, xValues y)" if "y \<in> set (take n ?bl)" for y
    proof -
      have "distinct (map xID (take n ?bl))" using d by (simp only: map_append distinct_append)
      from delivered_in [OF this that] show ?thesis by (simp add: m(1))
    qed
    have "(i, v) \<in> held w1" if h: "(i, v) \<in> held w" for i v
    proof (cases "\<exists>c'. ?p i = Some (c', v)")
      case True
      with old show ?thesis by (force simp: held_def)
    next
      case False
      with h have "\<lparr>xID = i, xValues = v\<rparr> \<in> set (take n ?bl @ drop n ?bl)" by (simp add: held_def)
      then consider "\<lparr>xID = i, xValues = v\<rparr> \<in> set (take n ?bl)" | "\<lparr>xID = i, xValues = v\<rparr> \<in> set (drop n ?bl)"
        by (metis Un_iff set_append)
      then show ?thesis
      proof cases
        case 1
        from fresh [OF this] show ?thesis by (auto simp: held_def)
      qed (simp add: held_def m(2))
    qed
    moreover have "sound w1"
    proof -
      have dd: "distinct (map xID (drop n ?bl))" "xID ` set (take n ?bl) \<inter> xID ` set (drop n ?bl) = {}"
        using d by (simp_all only: map_append distinct_append set_map)
      have "pel (ext w1) (xID y) = None" if "y \<in> set (drop n ?bl)" for y
      proof -
        have "xID y \<notin> xID ` set (take n ?bl)" using dd(2) that by blast
        then show ?thesis using none in_set_dropD [OF that] by (simp add: m(1) delivered_other)
      qed
      with dd(1) show ?thesis by (simp add: sound_def m(2))
    qed
    moreover have "agrees w1 y" if "y \<in> set (take n ?bl)" for y
      using fresh [OF that] by (simp add: agrees_def)
    ultimately show ?thesis
      using old none set_take_subset [of n ?bl] x by (auto simp: conserves_def)
  qed
  have same: "conserves w w1 \<and> sound w1" if "pel (ext w1) = ?p" "backlog (ext w1) = ?bl"
    using that assms(2) x by (simp add: conserves_def held_def sound_def)
  show ?thesis
  proof (cases r)
    case (Inl e)
    then have "pel (ext w1) = ?p \<and> backlog (ext w1) = ?bl \<or>
        pel (ext w1) = delivered c (take n ?bl) ?p \<and> backlog (ext w1) = drop n ?bl"
      using x xread_err by blast
    then show ?thesis using same moved x Inl by (auto intro: exI [of _ 0])
  next
    case (Inr ss)
    with x have s: "(ss = [take n ?bl] \<or> ss = [] \<and> take n ?bl = [])"
      "pel (ext w1) = delivered c (take n ?bl) ?p" "backlog (ext w1) = drop n ?bl"
      using xread by blast+
    then show ?thesis using moved x Inr by auto
  qed
qed

section \<open>Draining\<close>

lemma drain_batches_facts:
  assumes "sound w"
  shows "conserves w (drain_batches E node n w) \<and> sound (drain_batches E node n w) \<and>
    (\<exists>k\<le>10 * n. backlog (ext (drain_batches E node n w)) = drop k (backlog (ext w))) \<and>
    (\<forall>i. pel (ext w) i \<noteq> None \<longrightarrow> pel (ext (drain_batches E node n w)) i = pel (ext w) i)"
  using assms
proof (induction n arbitrary: w)
  case 0
  then show ?case by (simp add: conserves_refl)
next
  case (Suc n)
  obtain r w1 where r: "call (r_xreadgroup E ConsumerGroup node PendingStream 10) w = (r, w1)" by fastforce
  note x = xread_state [OF r Suc.prems]
  then obtain k where k: "k \<le> 10" "backlog (ext w1) = drop k (backlog (ext w))" by blast
  show ?case
  proof (cases "\<exists>ss. r = Inr ss \<and> ss \<noteq> [] \<and> hd ss \<noteq> []")
    case False
    then have "drain_batches E node (Suc n) w = w1" using r by (cases r) auto
    then show ?thesis using x k by (auto intro: exI [of _ k])
  next
    case True
    then obtain ss where ss: "r = Inr ss" "ss \<noteq> []" "hd ss \<noteq> []" by blast
    obtain b w2 where b: "handle_batch E (hd ss) w1 = (b, w2)" by fastforce
    have ag: "\<forall>m\<in>set (hd ss). agrees w1 m \<and> pel (ext w) (xID m) = None" using x ss by blast
    then have bc: "conserves w1 w2" "sound w2" "backlog (ext w2) = backlog (ext w1)"
      "\<forall>i. i \<notin> xID ` set (hd ss) \<longrightarrow> pel (ext w2) i = pel (ext w1) i"
      using batch_conserves [OF _ _ b] x by blast+
    have old: "pel (ext w2) i = pel (ext w) i" if "pel (ext w) i \<noteq> None" for i
      using that ag bc(4) x by (metis imageE)
    have c2: "conserves w w2" using x bc(1) conserves_trans by blast
    show ?thesis
    proof (cases b)
      case True
      then have "drain_batches E node (Suc n) w = w2" using r ss b by auto
      then show ?thesis using c2 bc k old by (auto intro: exI [of _ k])
    next
      case False
      then have eq: "drain_batches E node (Suc n) w = drain_batches E node n w2" using r ss b by auto
      from Suc.IH [OF bc(2)] obtain k' where k': "k' \<le> 10 * n"
        "backlog (ext (drain_batches E node n w2)) = drop k' (backlog (ext w2))" by blast
      have "k' + k \<le> 10 * Suc n" using k k' by simp
      then show ?thesis
        using Suc.IH [OF bc(2)] c2 k k' old bc(3) unfolding eq
        by (auto intro: conserves_trans exI [of _ "k' + k"])
    qed
  qed
qed

lemma drain_facts:
  assumes "sound w"
  shows "conserves w (drain E di w)" "sound (drain E di w)"
    "\<exists>k\<le>200. backlog (ext (drain E di w)) = drop k (backlog (ext w))"
    "pel (ext w) i \<noteq> None \<Longrightarrow> pel (ext (drain E di w)) i = pel (ext w) i"
  using drain_batches_facts [OF assms, of "NodeID di" maxDrainBatches]
  by (auto simp: drain_def maxDrainBatches_def)

text \<open>With nothing new to read, a drain attempts nothing, whatever is pending.\<close>

lemma drain_empty:
  assumes "backlog (ext w) = []"
  shows "db (drain E di w) = db w"
proof -
  obtain r w1 where r: "call (r_xreadgroup E ConsumerGroup (NodeID di) PendingStream 10) w = (r, w1)" by fastforce
  from call_eqD [OF r] have "db w1 = db w" "\<And>ss. r = Inr ss \<Longrightarrow> ss = [] \<or> hd ss = []"
    using xread assms by fastforce+
  moreover have "drain_batches E (NodeID di) (Suc n) w = w1" for n
    using r calculation by (cases r) auto
  then have "drain E di w = w1" by (simp add: drain_def maxDrainBatches_def numeral_eq_Suc)
  ultimately show ?thesis by simp
qed

section \<open>Reclaiming\<close>

lemma xautoclaim_state:
  assumes "call (r_xautoclaim E PendingStream ConsumerGroup c idle start n) w = (r, w1)" "sound w"
  shows "conserves w w1 \<and> sound w1 \<and> db w1 = db w \<and> backlog (ext w1) = backlog (ext w) \<and>
    dom (pel (ext w1)) = dom (pel (ext w)) \<and>
    (\<forall>ms nxt. r = Inr (ms, nxt) \<longrightarrow> (\<forall>m\<in>set ms. agrees w1 m))"
proof -
  note x = call_eqD [OF assms(1)]
  obtain S where S: "pel (ext w1) = reassigned c S (pel (ext w))" "backlog (ext w1) = backlog (ext w)"
    using x xautoclaim xautoclaim_err by (cases r) (auto, blast+)
  have vals: "map_option snd (pel (ext w1) i) = map_option snd (pel (ext w) i)" for i
    by (simp add: S reassigned_values)
  have held_iff: "(\<exists>c. pel s i = Some (c, v)) \<longleftrightarrow> map_option snd (pel s i) = Some v" for s i v
    by auto
  have dom: "pel (ext w1) i = None \<longleftrightarrow> pel (ext w) i = None" for i
    using vals [of i] by (metis option.map_disc_iff)
  have "held w1 = held w" unfolding held_def held_iff vals S(2) ..
  then have "conserves w w1" using x by (simp add: conserves_def)
  moreover have "sound w1" using assms(2) dom by (simp add: sound_def S)
  moreover have "agrees w1 m" if "r = Inr (ms, nxt)" "m \<in> set ms" for ms nxt m
  proof -
    from x that xautoclaim obtain c' where "pel (ext w) (xID m) = Some (c', xValues m)" by blast
    then have "map_option snd (pel (ext w1) (xID m)) = Some (xValues m)" by (simp add: vals)
    then show ?thesis by (auto simp: agrees_def)
  qed
  ultimately show ?thesis using x S dom by (auto simp: dom_def)
qed

lemma batch_dom:
  "handle_batch E ms w = (b, w') \<Longrightarrow> dom (pel (ext w')) \<subseteq> dom (pel (ext w))"
proof (induction ms arbitrary: w)
  case Nil
  then show ?case by simp
next
  case (Cons m ms)
  have "dom (pel (ext (handle E m w))) \<subseteq> dom (pel (ext w))"
  proof
    fix i assume "i \<in> dom (pel (ext (handle E m w)))"
    then show "i \<in> dom (pel (ext w))"
      using handle_stream(2) [of i m w] handle_stream(3) [of m w] by (cases "i = xID m") (auto simp: dom_def)
  qed
  moreover have "dom (pel (ext w')) \<subseteq> dom (pel (ext (handle E m w)))"
    using Cons.prems Cons.IH [of "handle E m w"] by (cases "ctx_err E (ext (handle E m w))") (simp_all add: Let_def)
  ultimately show ?case by (rule subset_trans [rotated])
qed

lemma reclaim_step:
  assumes "call (r_xautoclaim E PendingStream ConsumerGroup node claimMinIdle start 10) w = (Inr (ms, nxt), w1)"
    "handle_batch E ms w1 = (b, w2)" "sound w"
  shows "conserves w w2 \<and> sound w2 \<and> backlog (ext w2) = backlog (ext w)"
proof -
  note x = xautoclaim_state [OF assms(1,3)]
  then have "\<forall>m\<in>set ms. agrees w1 m" by blast
  from batch_conserves [OF this _ assms(2)] x show ?thesis by (auto intro: conserves_trans)
qed

lemma reclaim_from_facts:
  assumes "reclaim_from E node start w = Some w'" "sound w"
  shows "conserves w w' \<and> sound w' \<and> backlog (ext w') = backlog (ext w)"
proof -
  define P where "P = (\<lambda>E' (node :: string) (start :: string) w w'. E' = E \<longrightarrow> sound w \<longrightarrow>
     conserves w w' \<and> sound w' \<and> backlog (ext w') = backlog (ext w))"
  have "P E node start w w'"
  proof (rule reclaim_from.raw_induct [where P = P, OF _ assms(1)])
    fix rf :: "'s env \<Rightarrow> string \<Rightarrow> string \<Rightarrow> 's world \<Rightarrow> 's world option" and E' node start w w'
    assume IH: "\<And>E node start w w'. rf E node start w = Some w' \<Longrightarrow> P E node start w w'"
      and eq: "(case call (r_xautoclaim E' PendingStream ConsumerGroup node claimMinIdle start 10) w of
        (Inl _, w1) \<Rightarrow> Some w1
      | (Inr (msgs, nxt), w1) \<Rightarrow>
          (case handle_batch E' msgs w1 of
             (stopped, w2) \<Rightarrow>
               (if stopped then Some w2
                else if nxt = ''0-0'' \<or> msgs = [] then Some w2
                else rf E' node nxt w2))) = Some w'"
    show "P E' node start w w'"
      unfolding P_def
    proof (intro impI)
      assume E: "E' = E" and s: "sound w"
      obtain r w1 where r: "call (r_xautoclaim E PendingStream ConsumerGroup node claimMinIdle start 10) w = (r, w1)"
        by fastforce
      show "conserves w w' \<and> sound w' \<and> backlog (ext w') = backlog (ext w)"
      proof (cases r)
        case (Inl e)
        with eq r E have "w' = w1" by simp
        with xautoclaim_state [OF r s] show ?thesis by simp
      next
        case (Inr a)
        obtain ms nxt where a: "a = (ms, nxt)" by fastforce
        obtain b w2 where b: "handle_batch E ms w1 = (b, w2)" by fastforce
        note st = reclaim_step [OF r [unfolded Inr a] b s]
        from eq r E Inr a b have "w' = w2 \<or> rf E node nxt w2 = Some w'" by (auto split: if_splits)
        then show ?thesis
        proof
          assume "rf E node nxt w2 = Some w'"
          from IH [OF this] st show ?thesis by (auto simp: P_def intro: conserves_trans)
        qed (use st in simp)
      qed
    qed
  qed
  with assms(2) show ?thesis by (simp add: P_def)
qed

section \<open>Deleting consumers\<close>

lemma delete_if_drained:
  assumes "deleteConsumerIfDrained E name w = (r, w')"
  shows "pel (ext w') = pel (ext w) \<and> backlog (ext w') = backlog (ext w) \<and> db w' = db w \<and>
    (r = Inr True \<longrightarrow> (\<forall>i v. pel (ext w) i \<noteq> Some (name, v)))"
proof -
  obtain rp w1 where rp: "call (r_xpending E PendingStream ConsumerGroup name 1) w = (rp, w1)" by fastforce
  from call_eqD [OF rp] xpending have p: "pel (ext w1) = pel (ext w)" "backlog (ext w1) = backlog (ext w)"
    "db w1 = db w" "rp = Inr [] \<or> rp = Inl RedisNil \<longrightarrow> (\<forall>i v. pel (ext w) i \<noteq> Some (name, v))" by blast+
  show ?thesis
  proof (cases "rp = Inr [] \<or> rp = Inl RedisNil")
    case False
    then have "w' = w1 \<and> r \<noteq> Inr True"
      using assms rp by (auto simp: deleteConsumerIfDrained_def split: sum.splits go_error.splits if_splits)
    then show ?thesis using p by simp
  next
    case True
    obtain rd w2 where rd: "call (r_xgroup_delconsumer E PendingStream ConsumerGroup name) w1 = (rd, w2)" by fastforce
    have "w' = w2"
      using assms rp True rd by (auto simp: deleteConsumerIfDrained_def split: sum.splits)
    moreover have "pel (ext w2) = pel (ext w1)" "backlog (ext w2) = backlog (ext w1)" "db w2 = db w1"
      using call_eqD [OF rd] xdel True p disowned_none [of "pel (ext w1)" name] by metis+
    ultimately show ?thesis using p True by simp
  qed
qed

lemma RemoveConsumer_keeps:
  assumes "RemoveConsumer E di w = (r, w')"
  shows "pel (ext w') = pel (ext w) \<and> backlog (ext w') = backlog (ext w) \<and> db w' = db w"
  using assms delete_if_drained
  by (auto simp: RemoveConsumer_def split: prod.splits sum.splits)

lemma reap_each_keeps:
  "pel (ext (reap_each E di cs w)) = pel (ext w) \<and> backlog (ext (reap_each E di cs w)) = backlog (ext w) \<and>
   db (reap_each E di cs w) = db w"
proof (induction cs arbitrary: w)
  case Nil
  then show ?case by simp
next
  case (Cons c cs)
  with delete_if_drained [OF prod.collapse [symmetric], of "ciName c" w] show ?case by auto
qed

lemma ReapStaleConsumers_keeps:
  "pel (ext (ReapStaleConsumers E di w)) = pel (ext w) \<and>
   backlog (ext (ReapStaleConsumers E di w)) = backlog (ext w) \<and> db (ReapStaleConsumers E di w) = db w"
proof -
  obtain r w1 where r: "call (r_xinfo_consumers E PendingStream ConsumerGroup) w = (r, w1)" by fastforce
  then show ?thesis using call_eqD [OF r] xinfo_keeps reap_each_keeps [of di _ w1]
    by (cases r) (auto simp: ReapStaleConsumers_def)
qed

section \<open>The whole loop\<close>

lemma same_stream_conserves:
  "pel (ext w') = pel (ext w) \<Longrightarrow> backlog (ext w') = backlog (ext w) \<Longrightarrow> db w' = db w \<Longrightarrow>
   conserves w w' \<and> (sound w \<longrightarrow> sound w')"
  by (simp add: conserves_def held_def sound_def)

lemma reclaim_conserves:
  "reclaim E di w = Some w' \<Longrightarrow> sound w \<Longrightarrow> conserves w w' \<and> sound w'"
  unfolding reclaim_def using reclaim_from_facts by blast

lemma run_loop_conserves:
  "run_loop E di evs w = Some w' \<Longrightarrow> sound w \<Longrightarrow> conserves w w' \<and> sound w'"
proof (induction evs arbitrary: w)
  case Nil
  then show ?case by (simp add: conserves_refl)
next
  case (Cons e evs)
  show ?case
  proof (cases e)
    case Available
    with Cons.prems have "run_loop E di evs (drain E di w) = Some w'" by simp
    from Cons.IH [OF this] drain_facts(1,2) [OF Cons.prems(2)] conserves_trans show ?thesis by blast
  next
    case SweepTick
    with Cons.prems obtain w1 where w1: "reclaim E di w = Some w1"
      "run_loop E di evs (ReapStaleConsumers E di (drain E di w1)) = Some w'"
      by (auto split: option.splits)
    let ?w3 = "ReapStaleConsumers E di (drain E di w1)"
    have "conserves w w1" "sound w1" using reclaim_conserves [OF w1(1)] Cons.prems(2) by blast+
    moreover have "conserves w1 (drain E di w1)" "sound (drain E di w1)"
      using drain_facts(1,2) \<open>sound w1\<close> by blast+
    moreover have "conserves (drain E di w1) ?w3" "sound ?w3"
      using same_stream_conserves ReapStaleConsumers_keeps \<open>sound (drain E di w1)\<close> by blast+
    ultimately show ?thesis using Cons.IH [OF w1(2)] conserves_trans by blast
  qed (use Cons.prems in \<open>simp_all add: conserves_refl\<close>)
qed

lemma Run_conserves:
  "Run E di evs w = Some w' \<Longrightarrow> sound w \<Longrightarrow> conserves w w' \<and> sound w'"
  unfolding Run_def using run_loop_conserves drain_facts(1,2) conserves_trans by blast

end

section \<open>Reclaiming ends\<close>

text \<open>
  Redis returns a cursor past the entries it scanned: fewer pending entries are ahead of it, and
  removing entries never puts more of them ahead.
\<close>

locale stream_cursor = stream_service E pel backlog
  for E :: "'s env" and pel :: "'s \<Rightarrow> pel" and backlog :: "'s \<Rightarrow> xmessage list" +
  fixes ahead :: "'s \<Rightarrow> string \<Rightarrow> nat"
  assumes cursor_moves: "r_xautoclaim E PendingStream ConsumerGroup c idle start n s = (Inr (ms, nxt), s') \<Longrightarrow>
      nxt \<noteq> ''0-0'' \<Longrightarrow> ahead s' nxt < ahead s start"
    and ahead_mono: "dom (pel s') \<subseteq> dom (pel s) \<Longrightarrow> ahead s' start \<le> ahead s start"
begin

lemma reclaim_from_ends: "sound w \<Longrightarrow> \<exists>w'. reclaim_from E node start w = Some w'"
proof (induction "ahead (ext w) start" arbitrary: w start rule: less_induct)
  case less
  obtain r w1 where r: "call (r_xautoclaim E PendingStream ConsumerGroup node claimMinIdle start 10) w = (r, w1)"
    by fastforce
  show ?case
  proof (cases r)
    case (Inl e)
    with r show ?thesis by (subst reclaim_from.simps) simp
  next
    case (Inr a)
    obtain ms nxt where a: "a = (ms, nxt)" by fastforce
    obtain b w2 where b: "handle_batch E ms w1 = (b, w2)" by fastforce
    have eq: "reclaim_from E node start w =
      (if b then Some w2 else if nxt = ''0-0'' \<or> ms = [] then Some w2 else reclaim_from E node nxt w2)"
      using r Inr a b by (subst reclaim_from.simps) simp
    have "sound w2" using reclaim_step [OF r [unfolded Inr a] b] less.prems by blast
    moreover have "ahead (ext w2) nxt < ahead (ext w) start" if "nxt \<noteq> ''0-0''"
      using ahead_mono [OF batch_dom [OF b], of nxt] call_eqD [OF r] cursor_moves Inr a that by fastforce
    ultimately show ?thesis using less.hyps [of w2 nxt] unfolding eq by auto
  qed
qed

lemma reclaim_ends: "sound w \<Longrightarrow> \<exists>w'. reclaim E di w = Some w'"
  unfolding reclaim_def by (rule reclaim_from_ends)

lemma run_loop_ends: "sound w \<Longrightarrow> \<exists>w'. run_loop E di evs w = Some w'"
proof (induction evs arbitrary: w)
  case (Cons e evs)
  show ?case
  proof (cases e)
    case Available
    with Cons drain_facts(2) show ?thesis by simp
  next
    case SweepTick
    obtain w1 where w1: "reclaim E di w = Some w1" using reclaim_ends Cons.prems by blast
    have "sound (ReapStaleConsumers E di (drain E di w1))"
      using reclaim_conserves [OF w1 Cons.prems] drain_facts(2)
        same_stream_conserves ReapStaleConsumers_keeps by blast
    with SweepTick w1 Cons.IH show ?thesis by simp
  qed simp_all
qed simp

lemma Run_ends: "sound w \<Longrightarrow> \<exists>w'. Run E di evs w = Some w'"
  unfolding Run_def using run_loop_ends drain_facts(2) by blast

end

end
