(* ===== verification/Http.thy ===== *)
theory Http
  imports Dispatcher_Facts Strconv
begin

text \<open>
  What the HTTP handlers share: requests and responses, \<^verbatim>\<open>respond.go\<close>, the sender a middleware
  leaves in the context (\<^verbatim>\<open>authctx\<close>), access tokens (\<^verbatim>\<open>jwtutil\<close>), the three authentication
  wrappers and the node header (\<^verbatim>\<open>middleware.go\<close>), opaque tokens (\<^verbatim>\<open>tokens.go\<close>), the server's
  own fields (\<^verbatim>\<open>server.go\<close>), and the two formats of the standard library the handlers print
  and parse: RFC 3339 times and decimal integers.
\<close>

section \<open>Requests and responses\<close>

record request =
  rqBody :: wire
  rqAuthorization :: string
  rqCookies :: "(string \<times> string) list"
  rqPathID :: string
  rqQuery :: "(string \<times> string) list"
  rqSender :: "(string \<times> string) option"
  rqFlusher :: bool

record http_cookie =
  ckName :: string
  ckValue :: string
  ckPath :: string
  ckExpires :: "int option"
  ckMaxAge :: int
  ckHttpOnly :: bool
  ckSecure :: bool
  ckStrict :: bool

datatype sse = SseData json | SseComment string

datatype body = NoBody | TextBody string | JsonBody json | EventStream "sse list"

record response =
  htStatus :: nat
  htHeaders :: "(string \<times> string) list"
  htCookies :: "http_cookie list"
  htBody :: body

type_synonym 's handler = "request \<Rightarrow> ('s, response) op"

definition query_get :: "request \<Rightarrow> string \<Rightarrow> string" where
  "query_get r k = (case map_of (rqQuery r) k of None \<Rightarrow> [] | Some v \<Rightarrow> v)"

definition WriteJSON :: "nat \<Rightarrow> json \<Rightarrow> response" where
  "WriteJSON status v = \<lparr>htStatus = status, htHeaders = [(''Content-Type'', ''application/json'')],
     htCookies = [], htBody = JsonBody v\<rparr>"

definition WriteError :: "nat \<Rightarrow> string \<Rightarrow> string \<Rightarrow> response" where
  "WriteError status message code =
     WriteJSON status (JObj [(''error'', JStr message), (''code'', JStr code)])"

definition error_code :: "response \<Rightarrow> string option" where
  "error_code resp = (case htBody resp of
     JsonBody (JObj [(''error'', JStr m), (''code'', JStr c)]) \<Rightarrow> Some c | _ \<Rightarrow> None)"

lemma WriteJSON_sel [simp]:
  "htStatus (WriteJSON st v) = st" "htBody (WriteJSON st v) = JsonBody v" "htCookies (WriteJSON st v) = []"
  by (simp_all add: WriteJSON_def)

lemma WriteError_sel [simp]:
  "htStatus (WriteError st m c) = st" "htCookies (WriteError st m c) = []"
  by (simp_all add: WriteError_def)

lemma WriteError_eq [simp]: "WriteError st m c = WriteError st' m' c' \<longleftrightarrow> st = st' \<and> m = m' \<and> c = c'"
  by (auto simp: WriteError_def WriteJSON_def)

section \<open>The server\<close>

record 's server =
  AppKey :: string
  UploadPresigner :: "(string \<Rightarrow> string \<Rightarrow> int \<Rightarrow> 's \<Rightarrow> string res \<times> 's) option"
  DrainClosed :: bool

definition draining :: "'s server \<Rightarrow> bool" where
  "draining s = DrainClosed s"

text \<open>The client that signs upload URLs: the environment with its own signing call.\<close>

definition uploadPresigner :: "'s env \<Rightarrow> 's server \<Rightarrow> 's env" where
  "uploadPresigner E s = (case UploadPresigner s of None \<Rightarrow> E | Some p \<Rightarrow> E\<lparr>m_presign_put := p\<rparr>)"

section \<open>The sender in the context\<close>

definition WithSender :: "string \<Rightarrow> string \<Rightarrow> request \<Rightarrow> request" where
  "WithSender senderID role r = r\<lparr>rqSender := Some (senderID, role)\<rparr>"

definition SenderID :: "'s env \<Rightarrow> request \<Rightarrow> uuid option" where
  "SenderID E r = (case rqSender r of None \<Rightarrow> None | Some (raw, _) \<Rightarrow> uuid_parse E raw)"

definition ctx_role :: "request \<Rightarrow> string" where
  "ctx_role r = (case rqSender r of None \<Rightarrow> [] | Some (_, role) \<Rightarrow> role)"

section \<open>Access tokens\<close>

definition AccessTokenTTL :: int where
  "AccessTokenTTL = 15 * 60 * Second"

definition IssueAccessToken :: "'s env \<Rightarrow> uuid \<Rightarrow> string \<Rightarrow> ('s, string res) op" where
  "IssueAccessToken E senderID role w =
     (jwt_sign E \<lparr>acSubject = uuid_string E senderID, acRole = role,
        acExpiresAt = time_now E (ext w) + AccessTokenTTL, acIssuedAt = time_now E (ext w)\<rparr>, w)"

definition ParseAccessToken :: "'s env \<Rightarrow> string \<Rightarrow> 's world \<Rightarrow> access_claims res" where
  "ParseAccessToken E raw w = jwt_parse E [''RS256''] raw (ext w)"

section \<open>Middleware\<close>

definition NodeHeader :: string where "NodeHeader = ''X-Automail-Node''"

definition nodeHeader :: "string \<Rightarrow> 's handler \<Rightarrow> 's handler" where
  "nodeHeader nodeID next r w =
     (case next r w of (resp, w1) \<Rightarrow> (resp\<lparr>htHeaders := htHeaders resp @ [(NodeHeader, nodeID)]\<rparr>, w1))"

definition optionalAuth :: "'s env \<Rightarrow> 's handler \<Rightarrow> 's handler" where
  "optionalAuth E next r w =
     (case cutPrefix (rqAuthorization r) ''Bearer '' of
        None \<Rightarrow> next r w
      | Some after \<Rightarrow>
          (case ParseAccessToken E after w of
             Inl _ \<Rightarrow> next r w
           | Inr claims \<Rightarrow> next (WithSender (acSubject claims) (acRole claims) r) w))"

definition requireAuth :: "'s env \<Rightarrow> 's handler \<Rightarrow> 's handler" where
  "requireAuth E next r w =
     (case cutPrefix (rqAuthorization r) ''Bearer '' of
        None \<Rightarrow> (WriteError 401 ''missing bearer token'' ''UNAUTHORIZED'', w)
      | Some after \<Rightarrow>
          (case ParseAccessToken E after w of
             Inl _ \<Rightarrow> (WriteError 401 ''invalid or expired token'' ''UNAUTHORIZED'', w)
           | Inr claims \<Rightarrow> next (WithSender (acSubject claims) (acRole claims) r) w))"

definition requireAdmin :: "'s env \<Rightarrow> 's handler \<Rightarrow> 's handler" where
  "requireAdmin E next r w =
     (case cutPrefix (rqAuthorization r) ''Bearer '' of
        None \<Rightarrow> (WriteError 401 ''missing bearer token'' ''UNAUTHORIZED'', w)
      | Some after \<Rightarrow>
          (case ParseAccessToken E after w of
             Inl _ \<Rightarrow> (WriteError 401 ''invalid or expired token'' ''UNAUTHORIZED'', w)
           | Inr claims \<Rightarrow>
               (if acRole claims \<noteq> ''admin'' then (WriteError 403 ''admin role required'' ''FORBIDDEN'', w)
                else next (WithSender (acSubject claims) (acRole claims) r) w)))"

text \<open>
  The gates: the handler behind one runs for a valid token, with the token's own subject and role
  in the context, and otherwise nothing at all happens.
\<close>

lemma requireAuth_gate:
  assumes "requireAuth E next r w = (resp, w')"
  shows "(\<exists>raw claims. rqAuthorization r = ''Bearer '' @ raw \<and> jwt_parse E [''RS256''] raw (ext w) = Inr claims \<and>
           next (WithSender (acSubject claims) (acRole claims) r) w = (resp, w'))
       \<or> (w' = w \<and> htStatus resp = 401 \<and>
           (\<forall>raw claims. rqAuthorization r = ''Bearer '' @ raw \<longrightarrow> jwt_parse E [''RS256''] raw (ext w) \<noteq> Inr claims))"
proof (cases "cutPrefix (rqAuthorization r) ''Bearer ''")
  case None
  have n: "rqAuthorization r \<noteq> ''Bearer '' @ raw" for raw
    using None by (simp only: cutPrefix_Some [symmetric] option.distinct not_False_eq_True)
  have "w' = w \<and> htStatus resp = 401" using None assms by (auto simp: requireAuth_def)
  with n show ?thesis by blast
next
  case (Some after)
  then have a: "rqAuthorization r = ''Bearer '' @ after" by (simp only: cutPrefix_Some)
  have u: "raw = after" if "rqAuthorization r = ''Bearer '' @ raw" for raw using a that by simp
  show ?thesis
  proof (cases "jwt_parse E [''RS256''] after (ext w)")
    case (Inl e)
    then have "w' = w \<and> htStatus resp = 401"
      using Some assms by (auto simp: requireAuth_def ParseAccessToken_def)
    then show ?thesis using Inl u by (metis sum.distinct(1))
  next
    case (Inr claims)
    then have "next (WithSender (acSubject claims) (acRole claims) r) w = (resp, w')"
      using Some assms by (simp add: requireAuth_def ParseAccessToken_def)
    then show ?thesis using a Inr by blast
  qed
qed

lemma requireAdmin_gate:
  assumes "requireAdmin E next r w = (resp, w')"
  shows "(\<exists>raw claims. rqAuthorization r = ''Bearer '' @ raw \<and> jwt_parse E [''RS256''] raw (ext w) = Inr claims \<and>
           acRole claims = ''admin'' \<and> next (WithSender (acSubject claims) ''admin'' r) w = (resp, w'))
       \<or> (w' = w \<and> (htStatus resp = 401 \<or> htStatus resp = 403) \<and>
           (\<forall>raw claims. rqAuthorization r = ''Bearer '' @ raw \<longrightarrow> jwt_parse E [''RS256''] raw (ext w) = Inr claims \<longrightarrow>
              acRole claims \<noteq> ''admin'' \<and> htStatus resp = 403))"
proof (cases "cutPrefix (rqAuthorization r) ''Bearer ''")
  case None
  have n: "rqAuthorization r \<noteq> ''Bearer '' @ raw" for raw
    using None by (simp only: cutPrefix_Some [symmetric] option.distinct not_False_eq_True)
  have "w' = w \<and> htStatus resp = 401" using None assms by (auto simp: requireAdmin_def)
  with n show ?thesis by blast
next
  case (Some after)
  then have a: "rqAuthorization r = ''Bearer '' @ after" by (simp only: cutPrefix_Some)
  have u: "raw = after" if "rqAuthorization r = ''Bearer '' @ raw" for raw using a that by simp
  show ?thesis
  proof (cases "jwt_parse E [''RS256''] after (ext w)")
    case (Inl e)
    then have "w' = w \<and> htStatus resp = 401"
      using Some assms by (auto simp: requireAdmin_def ParseAccessToken_def)
    then show ?thesis using Inl u by (metis sum.distinct(1))
  next
    case (Inr claims)
    show ?thesis
    proof (cases "acRole claims = ''admin''")
      case True
      then have "next (WithSender (acSubject claims) ''admin'' r) w = (resp, w')"
        using Some assms Inr by (simp add: requireAdmin_def ParseAccessToken_def)
      then show ?thesis using a Inr True by blast
    next
      case False
      then have "w' = w \<and> htStatus resp = 403"
        using Some assms Inr by (auto simp: requireAdmin_def ParseAccessToken_def)
      then show ?thesis using Inr False u by (metis sum.inject(2))
    qed
  qed
qed

section \<open>Opaque tokens\<close>

definition bytes_of :: "string \<Rightarrow> bytes" where
  "bytes_of s = map of_char s"

definition hashToken :: "'s env \<Rightarrow> string \<Rightarrow> string" where
  "hashToken E raw = RawURLEncode (sha256 E (bytes_of raw))"

definition newOpaqueToken :: "'s env \<Rightarrow> ('s, (string \<times> string) res) op" where
  "newOpaqueToken E w =
     (case call (rand_read E 32) w of
        (Inl e, w1) \<Rightarrow> (Inl e, w1)
      | (Inr buf, w1) \<Rightarrow> (let raw = RawURLEncode buf in (Inr (raw, hashToken E raw), w1)))"

lemma newOpaqueToken_db [simp, frame_simps]: "db (snd (newOpaqueToken E w)) = db w"
  by (auto simp: newOpaqueToken_def Let_def dest!: call_eqD split: prod.splits sum.splits)

section \<open>Times and numbers as text\<close>

text \<open>Instants are nanoseconds since the Unix epoch, in UTC.\<close>

definition day_length :: int where "day_length = 86400 * Second"

definition startOfDay :: "int \<Rightarrow> int" where
  "startOfDay t = (t div day_length) * day_length"

definition padded :: "nat \<Rightarrow> int \<Rightarrow> string" where
  "padded width i = (let s = decimal (nat i) in replicate (width - length s) (CHR ''0'') @ s)"

text \<open>The civil date of a day number, counted in eras of 400 years that start in March.\<close>

definition civil :: "int \<Rightarrow> int \<times> int \<times> int" where
  "civil d =
     (let z = d + 719468; era = z div 146097; doe = z mod 146097;
          yoe = (doe - doe div 1460 + doe div 36524 - doe div 146096) div 365;
          doy = doe - (365 * yoe + yoe div 4 - yoe div 100);
          mp = (5 * doy + 2) div 153;
          m = (if mp < 10 then mp + 3 else mp - 9)
      in (yoe + era * 400 + (if m \<le> 2 then 1 else 0), m, doy - (153 * mp + 2) div 5 + 1))"

definition RFC3339 :: "int \<Rightarrow> string" where
  "RFC3339 t =
     (case civil (t div day_length) of (y, m, d) \<Rightarrow>
       (let s = (t mod day_length) div Second
        in padded 4 y @ ''-'' @ padded 2 m @ ''-'' @ padded 2 d @ ''T'' @
           padded 2 (s div 3600) @ '':'' @ padded 2 (s mod 3600 div 60) @ '':'' @ padded 2 (s mod 60) @ ''Z''))"

definition atoiDefault :: "string \<Rightarrow> int \<Rightarrow> int" where
  "atoiDefault s def = (if s = [] then def else (case Atoi s of None \<Rightarrow> def | Some n \<Rightarrow> n))"

lemma atoiDefault_range: "in_int64 def \<Longrightarrow> in_int64 (atoiDefault s def)"
  by (auto simp: atoiDefault_def Atoi_def Let_def split: option.splits if_splits)

end
