(* ===== verification/Jobs_Api.thy ===== *)
theory Jobs_Api
  imports Http
begin

text \<open>
  \<^verbatim>\<open>handlers/jobs.go\<close>: the upload URL, job submission, the event stream of a job and a sender's
  history.
\<close>

section \<open>Upload URLs\<close>

definition uploadTTL :: int where "uploadTTL = 15 * 60 * Second"

definition uploadURL_field :: "unit \<Rightarrow> string \<Rightarrow> json \<Rightarrow> unit option" where
  "uploadURL_field q k v =
     (if k = ''recipient_id'' \<or> k = ''filename'' then map_option (\<lambda>_. ()) (get_str v []) else Some ())"

definition UploadURL :: "'s env \<Rightarrow> 's server \<Rightarrow> 's handler" where
  "UploadURL E s r w =
     (case (case rqBody r of None \<Rightarrow> None | Some v \<Rightarrow> read_struct uploadURL_field () v) of
        None \<Rightarrow> (WriteError 400 ''invalid request body'' ''INVALID_BODY'', w)
      | Some _ \<Rightarrow>
          (case PresignedUploadURL (uploadPresigner E s) uploadTTL w of
             (Inl e, w1) \<Rightarrow> (WriteError 500 ''could not generate upload URL'' ''INTERNAL'', w1)
           | (Inr (url, blobRef), w1) \<Rightarrow>
               (WriteJSON 200 (JObj [(''upload_url'', JStr url), (''blob_ref'', JStr blobRef),
                  (''expires_in'', JInt (uploadTTL div Second))]), w1)))"

section \<open>Submitting a job\<close>

record createJobRequest =
  cjEncryptedKey :: string
  cjBlobRef :: string
  cjRecipientID :: string
  cjPageCount :: int

definition createJob_field :: "createJobRequest \<Rightarrow> string \<Rightarrow> json \<Rightarrow> createJobRequest option" where
  "createJob_field q k v =
     (if k = ''encrypted_key'' then map_option (\<lambda>s. q\<lparr>cjEncryptedKey := s\<rparr>) (get_str v (cjEncryptedKey q))
      else if k = ''blob_ref'' then map_option (\<lambda>s. q\<lparr>cjBlobRef := s\<rparr>) (get_str v (cjBlobRef q))
      else if k = ''recipient_id'' then map_option (\<lambda>s. q\<lparr>cjRecipientID := s\<rparr>) (get_str v (cjRecipientID q))
      else if k = ''page_count'' then map_option (\<lambda>n. q\<lparr>cjPageCount := n\<rparr>) (get_int32 v (cjPageCount q))
      else Some q)"

definition createJob_read :: "wire \<Rightarrow> createJobRequest option" where
  "createJob_read b = (case b of None \<Rightarrow> None
     | Some v \<Rightarrow> read_struct createJob_field
         \<lparr>cjEncryptedKey = [], cjBlobRef = [], cjRecipientID = [], cjPageCount = 0\<rparr> v)"

definition omit_json :: "string \<Rightarrow> json option \<Rightarrow> (string \<times> json) list" where
  "omit_json k v = (case v of None \<Rightarrow> [] | Some j \<Rightarrow> [(k, j)])"

text \<open>The owner of the row: the sender in the context, or else the digest of a new guest token.\<close>

definition job_owner :: "'s env \<Rightarrow> request \<Rightarrow> ('s, (string \<times> uuid option \<times> string option) res) op" where
  "job_owner E r w =
     (case SenderID E r of
        Some senderID \<Rightarrow> (Inr ([], Some senderID, None), w)
      | None \<Rightarrow>
          (case newOpaqueToken E w of
             (Inl e, w1) \<Rightarrow> (Inl e, w1)
           | (Inr (raw, hash), w1) \<Rightarrow> (Inr (raw, None, Some hash), w1)))"

definition CreateJob :: "'s env \<Rightarrow> 's handler" where
  "CreateJob E r w =
     (case createJob_read (rqBody r) of
        None \<Rightarrow> (WriteError 400 ''invalid request body'' ''INVALID_BODY'', w)
      | Some q \<Rightarrow>
     (case uuid_parse E (cjRecipientID q) of
        None \<Rightarrow> (WriteError 400 ''recipient not found'' ''RECIPIENT_NOT_FOUND'', w)
      | Some recipientID \<Rightarrow>
     (case pg E (ResolveRecipient recipientID) w of
        (Inl e, w1) \<Rightarrow>
          (if e = ErrNoRows
           then (WriteError 400 ''recipient not found or slot unassigned'' ''RECIPIENT_NOT_FOUND'', w1)
           else (WriteError 500 ''lookup failed'' ''INTERNAL'', w1))
      | (Inr resolved, w1) \<Rightarrow>
     (case BlobExists E (cjBlobRef q) w1 of
        (Inl e, w2) \<Rightarrow> (WriteError 500 ''blob check failed'' ''INTERNAL'', w2)
      | (Inr exists, w2) \<Rightarrow>
     (if \<not> exists then (WriteError 422 ''blob_ref not found'' ''INVALID_BLOB_REF'', w2)
      else
     (case StdDecode (cjEncryptedKey q) of
        None \<Rightarrow> (WriteError 400 ''encrypted_key must be base64'' ''INVALID_BODY'', w2)
      | Some encryptedKey \<Rightarrow>
     (case job_owner E r w2 of
        (Inl e, w3) \<Rightarrow> (WriteError 500 ''could not generate guest token'' ''INTERNAL'', w3)
      | (Inr (guestToken, senderID, guestHash), w3) \<Rightarrow>
     (case qInsertJob E \<lparr>ijSenderID = senderID, ijGuestTokenHash = guestHash,
             ijMailboxID = rrMailboxID resolved, ijSlotID = rrSlotID resolved,
             ijEncryptedKey = encryptedKey, ijBlobRef = cjBlobRef q, ijPageCount = cjPageCount q\<rparr> w3 of
        (Inl e, w4) \<Rightarrow> (WriteError 500 ''could not create job'' ''INTERNAL'', w4)
      | (Inr (jobID, _), w4) \<Rightarrow>
     (case qInsertAuditEvent E jobID ''job_submitted'' (SenderID E r) w4 of
        (Inl e, w5) \<Rightarrow> (WriteError 500 ''could not write audit event'' ''INTERNAL'', w5)
      | (Inr _, w5) \<Rightarrow>
     (case TryDispatch E (FromJob E jobID (rrMailboxID resolved) (rrSlotID resolved) encryptedKey (cjBlobRef q)) w5 of
        (Inl e, w6) \<Rightarrow> (WriteError 500 ''could not dispatch job'' ''INTERNAL'', w6)
      | (Inr status, w6) \<Rightarrow>
          (WriteJSON 202 (JObj ([(''job_id'', JStr (uuid_string E jobID)), (''status'', JStr status)] @
             omit_str ''guest_token'' guestToken)), w6)))))))))))"

section \<open>The event stream\<close>

definition isTerminalStatus :: "string \<Rightarrow> bool" where
  "isTerminalStatus status \<longleftrightarrow> status = ''delivered'' \<or> status = ''failed''"

definition authorizeStream :: "'s env \<Rightarrow> request \<Rightarrow> GetJobForStreamRow \<Rightarrow> response option" where
  "authorizeStream E r job =
     (let sender = SenderID E r; token = query_get r ''token'' in
      if sender \<noteq> None \<and> gjSenderID job = sender then None
      else if token \<noteq> [] \<and> gjGuestTokenHash job = Some (hashToken E token) then None
      else if token \<noteq> [] then Some (WriteError 403 ''invalid guest token'' ''GUEST_TOKEN_INVALID'')
      else if sender \<noteq> None then Some (WriteError 404 ''job not found'' ''NOT_FOUND'')
      else Some (WriteError 401 ''authentication required'' ''UNAUTHORIZED''))"

text \<open>
  What the loop's select receives; a published payload comes with whether writing its event to
  the client works.
\<close>

datatype stream_event = ClientGone | DrainStarted | ChannelClosed | Published wire bool

definition writeSSE :: "streamEvent \<Rightarrow> sse" where
  "writeSSE ev = SseData (streamEvent_json ev)"

definition drain_comment :: sse where
  "drain_comment = SseComment ''draining: server shutting down, reconnect''"

fun relay :: "string \<Rightarrow> stream_event list \<Rightarrow> sse list" where
  "relay jobID [] = []"
| "relay jobID (ClientGone # es) = []"
| "relay jobID (DrainStarted # es) = [drain_comment]"
| "relay jobID (ChannelClosed # es) = []"
| "relay jobID (Published msg ok # es) =
     (case streamEvent_read msg of
        None \<Rightarrow> relay jobID es
      | Some ev \<Rightarrow>
          (if eStatus ev = [] then relay jobID es
           else if \<not> ok then []
           else writeSSE (ev\<lparr>eJobID := jobID\<rparr>) #
                (if isTerminalStatus (eStatus ev) then [] else relay jobID es)))"

definition stream_headers :: "(string \<times> string) list" where
  "stream_headers = [(''Content-Type'', ''text/event-stream''), (''Cache-Control'', ''no-cache''),
     (''Connection'', ''keep-alive'')]"

definition StreamJob :: "'s env \<Rightarrow> bool \<Rightarrow> stream_event list \<Rightarrow> 's handler" where
  "StreamJob E snapshot_ok events r w =
     (case uuid_parse E (rqPathID r) of
        None \<Rightarrow> (WriteError 404 ''job not found'' ''NOT_FOUND'', w)
      | Some jobID \<Rightarrow>
     (case pg E (GetJobForStream jobID) w of
        (Inl e, w1) \<Rightarrow>
          (if e = ErrNoRows then (WriteError 404 ''job not found'' ''NOT_FOUND'', w1)
           else (WriteError 500 ''lookup failed'' ''INTERNAL'', w1))
      | (Inr job0, w1) \<Rightarrow>
     (case authorizeStream E r job0 of
        Some resp \<Rightarrow> (resp, w1)
      | None \<Rightarrow>
     (if \<not> rqFlusher r then (WriteError 500 ''streaming unsupported'' ''INTERNAL'', w1)
      else
     (case call (r_subscribe E (ChanJobStatus (uuid_string E jobID))) w1 of
        (Inl e, w2) \<Rightarrow> (WriteError 500 ''could not subscribe to status channel'' ''INTERNAL'', w2)
      | (Inr _, w2) \<Rightarrow>
     (case pg E (GetJobForStream jobID) w2 of
        (Inl e, w3) \<Rightarrow> (WriteError 500 ''lookup failed'' ''INTERNAL'', w3)
      | (Inr job, w3) \<Rightarrow>
          (let snapshot = writeSSE \<lparr>eJobID = uuid_string E jobID, eStatus = gjStatus job, eError = []\<rparr>
           in (\<lparr>htStatus = 200, htHeaders = stream_headers, htCookies = [], htBody = EventStream
                (if \<not> snapshot_ok then []
                 else snapshot # (if isTerminalStatus (gjStatus job) then []
                                  else relay (uuid_string E jobID) events))\<rparr>, w3))))))))"

section \<open>A sender's history\<close>

definition historyJob :: "'s env \<Rightarrow> GetJobsBySenderRow \<Rightarrow> json" where
  "historyJob E row = JObj ([(''job_id'', JStr (uuid_string E (gsID row))), (''status'', JStr (gsStatus row)),
     (''page_count'', JInt (gsPageCount row)), (''created_at'', JStr (RFC3339 (gsCreatedAt row)))] @
     omit_json ''delivered_at'' (map_option (\<lambda>t. JStr (RFC3339 t)) (gsDeliveredAt row)))"

definition ListMyJobs :: "'s env \<Rightarrow> 's handler" where
  "ListMyJobs E r w =
     (case SenderID E r of
        None \<Rightarrow> (WriteError 401 ''authentication required'' ''UNAUTHORIZED'', w)
      | Some senderID \<Rightarrow>
          (case pg E (GetJobsBySender senderID) w of
             (Inl e, w1) \<Rightarrow> (WriteError 500 ''could not list jobs'' ''INTERNAL'', w1)
           | (Inr rows, w1) \<Rightarrow> (WriteJSON 200 (JObj [(''jobs'', JArr (map (historyJob E) rows))]), w1)))"

end
