(* ===== verification/Admin.thy ===== *)
theory Admin
  imports Jobs_Api
begin

text \<open>
  \<^verbatim>\<open>handlers/admin.go\<close>: the operator's job table with its pagination, the mailbox overview that
  joins the database with the live printer states, and the summary counts. Pagination is
  arithmetic on 64-bit integers narrowed to 32 bits for the query, written out as such.
\<close>

section \<open>The job table\<close>

definition defaultPerPage :: int where "defaultPerPage = 50"
definition maxPerPage :: int where "maxPerPage = 200"
definition MaxInt32 :: int where "MaxInt32 = 2147483647"

text \<open>Page, page size and row offset, as computed from the query string.\<close>

definition page_of :: "string \<Rightarrow> int" where
  "page_of s = (let p = atoiDefault s 1 in if p < 1 then 1 else p)"

definition per_page_of :: "string \<Rightarrow> int" where
  "per_page_of s = (let p = atoiDefault s defaultPerPage;
                        p1 = (if p < 1 then defaultPerPage else p)
                    in if p1 > maxPerPage then maxPerPage else p1)"

definition offset_of :: "int \<Rightarrow> int \<Rightarrow> int" where
  "offset_of page perPage = (let off = int64 (int64 (page - 1) * perPage) in
                             if off > MaxInt32 then MaxInt32 else off)"

definition adminJob :: "'s env \<Rightarrow> AdminListJobsRow \<Rightarrow> json" where
  "adminJob E row = JObj ([(''job_id'', JStr (uuid_string E (ajID row))),
     (''slot_id'', JStr (uuid_string E (ajSlotID row))), (''slot_number'', JInt (ajSlotNumber row)),
     (''status'', JStr (ajStatus row)), (''page_count'', JInt (ajPageCount row)),
     (''created_at'', JStr (RFC3339 (ajCreatedAt row)))] @
     omit_json ''delivered_at'' (map_option (\<lambda>t. JStr (RFC3339 t)) (ajDeliveredAt row)))"

definition AdminJobs :: "'s env \<Rightarrow> 's handler" where
  "AdminJobs E r w =
     (let status = query_get r ''status'';
          page = page_of (query_get r ''page'');
          perPage = per_page_of (query_get r ''per_page'');
          offset = offset_of page perPage
      in (case pg E (AdminListJobs status (int32 offset) (int32 perPage)) w of
            (Inl e, w1) \<Rightarrow> (WriteError 500 ''could not list jobs'' ''INTERNAL'', w1)
          | (Inr rows, w1) \<Rightarrow>
              (case pg E (AdminCountJobs status) w1 of
                 (Inl e, w2) \<Rightarrow> (WriteError 500 ''could not count jobs'' ''INTERNAL'', w2)
               | (Inr n, w2) \<Rightarrow>
                   (WriteJSON 200 (JObj [(''jobs'', JArr (map (adminJob E) rows)), (''total'', JInt n),
                      (''page'', JInt page)]), w2))))"

section \<open>The mailboxes\<close>

definition slots_of :: "'s env \<Rightarrow> mailbox_slot list \<Rightarrow> string \<Rightarrow> mailbox_slot list" where
  "slots_of E sls mbid = filter (\<lambda>sl. uuid_string E (slMailboxID sl) = mbid) sls"

definition live_status :: "PrinterState option \<Rightarrow> string" where
  "live_status st = (case st of None \<Rightarrow> ''offline''
     | Some p \<Rightarrow> (if psStatus p = [] then ''idle'' else psStatus p))"

definition slot_current :: "'s env \<Rightarrow> PrinterState option \<Rightarrow> mailbox_slot \<Rightarrow> int" where
  "slot_current E st sl = (case st of None \<Rightarrow> 0
     | Some p \<Rightarrow> (case map_of (psSlotOccupancy p) (uuid_string E (slID sl)) of
                    None \<Rightarrow> 0 | Some oc \<Rightarrow> Current oc))"

definition slotOccupancy :: "'s env \<Rightarrow> PrinterState option \<Rightarrow> mailbox_slot list \<Rightarrow> json" where
  "slotOccupancy E st sls = json_map id (fold (\<lambda>sl m. AList.update (uuid_string E (slID sl))
     (JObj [(''slot_number'', JInt (slSlotNumber sl)), (''current'', JInt (slot_current E st sl)),
        (''max'', JInt (slMaxCount sl))]) m) sls [])"

definition adminMailbox :: "'s env \<Rightarrow> mailbox_slot list \<Rightarrow> AdminListMailboxesRow \<Rightarrow> PrinterState option \<Rightarrow> json" where
  "adminMailbox E sls mb st =
     (let mbid = uuid_string E (amMailboxID mb) in
      JObj ([(''mailbox_id'', JStr mbid), (''building_address'', JStr (amBuildingAddress mb)),
        (''status'', JStr (live_status st))] @
        omit_json ''last_heartbeat_at'' (map_option (\<lambda>t. JStr (RFC3339 t)) (amLastHeartbeatAt mb)) @
        [(''slot_occupancy'', slotOccupancy E st (slots_of E sls mbid))]))"

fun mailbox_views :: "'s env \<Rightarrow> mailbox_slot list \<Rightarrow> AdminListMailboxesRow list \<Rightarrow> ('s, json list res) op" where
  "mailbox_views E sls [] w = (Inr [], w)"
| "mailbox_views E sls (mb # mbs) w =
     (case LookupPrinterState E (uuid_string E (amMailboxID mb)) w of
        (Inl e, w1) \<Rightarrow> (Inl e, w1)
      | (Inr st, w1) \<Rightarrow>
          (case mailbox_views E sls mbs w1 of
             (Inl e, w2) \<Rightarrow> (Inl e, w2)
           | (Inr rest, w2) \<Rightarrow> (Inr (adminMailbox E sls mb st # rest), w2)))"

definition AdminMailboxes :: "'s env \<Rightarrow> 's handler" where
  "AdminMailboxes E r w =
     (case pg E (AdminListMailboxes (pg_collate E)) w of
        (Inl e, w1) \<Rightarrow> (WriteError 500 ''could not list mailboxes'' ''INTERNAL'', w1)
      | (Inr mbs, w1) \<Rightarrow>
     (case pg E AdminListSlots w1 of
        (Inl e, w2) \<Rightarrow> (WriteError 500 ''could not list slots'' ''INTERNAL'', w2)
      | (Inr sls, w2) \<Rightarrow>
     (case mailbox_views E sls mbs w2 of
        (Inl e, w3) \<Rightarrow> (WriteError 500 ''could not read printer state'' ''INTERNAL'', w3)
      | (Inr out, w3) \<Rightarrow> (WriteJSON 200 (JObj [(''mailboxes'', JArr out)]), w3))))"

section \<open>The summary\<close>

definition waiting_status :: "string \<Rightarrow> bool" where
  "waiting_status st \<longleftrightarrow> st = ''submitted'' \<or> st = ''queued'' \<or> st = ''dispatching''"

fun summarize :: "(string \<times> int) list \<Rightarrow> (string \<times> int) list \<Rightarrow> int \<Rightarrow> (string \<times> int) list \<times> int" where
  "summarize [] counts depth = (counts, depth)"
| "summarize ((st, n) # cs) counts depth =
     summarize cs (AList.update st n counts) (if waiting_status st then depth + n else depth)"

definition AdminSummary :: "'s env \<Rightarrow> 's handler" where
  "AdminSummary E r w =
     (case pg E AdminJobStatusCounts w of
        (Inl e, w1) \<Rightarrow> (WriteError 500 ''could not count jobs'' ''INTERNAL'', w1)
      | (Inr cs, w1) \<Rightarrow>
          (case summarize cs [] 0 of (counts, depth) \<Rightarrow>
          (case pg E (AdminCountDeliveredSince (startOfDay (time_now E (ext w1)))) w1 of
             (Inl e, w2) \<Rightarrow> (WriteError 500 ''could not count deliveries'' ''INTERNAL'', w2)
           | (Inr today, w2) \<Rightarrow>
               (WriteJSON 200 (JObj [(''status_counts'', json_map JInt counts), (''queue_depth'', JInt depth),
                  (''completed_today'', JInt today)]), w2))))"

section \<open>Pagination\<close>

lemma page_of_bounds: "1 \<le> page_of s" "page_of s < 2 ^ 63"
  using atoiDefault_range [of 1 s] by (auto simp: page_of_def Let_def in_int64_def)

lemma per_page_of_bounds: "1 \<le> per_page_of s" "per_page_of s \<le> 200"
  by (auto simp: per_page_of_def Let_def defaultPerPage_def maxPerPage_def)

text \<open>
  The offset is the exact product, capped, as long as the product fits 64 bits; past that it is
  whatever the wrap-around leaves.
\<close>

lemma offset_exact:
  assumes "1 \<le> page" "1 \<le> perPage" "perPage \<le> 200" "(page - 1) * perPage < 2 ^ 63" "page < 2 ^ 63"
  shows "offset_of page perPage = min ((page - 1) * perPage) MaxInt32" "0 \<le> offset_of page perPage"
    "int32 (offset_of page perPage) = offset_of page perPage"
proof -
  have p: "int64 (page - 1) = page - 1" using assms by (intro int64_in) (simp add: in_int64_def)
  have nn: "0 \<le> (page - 1) * perPage" using assms by simp
  then have m: "int64 ((page - 1) * perPage) = (page - 1) * perPage"
    using assms(4) order_trans [OF _ nn, of "- (2 ^ 63)"] by (intro int64_in) (simp add: in_int64_def)
  show e: "offset_of page perPage = min ((page - 1) * perPage) MaxInt32"
    by (simp add: offset_of_def p m Let_def)
  show "0 \<le> offset_of page perPage" using nn by (simp add: e MaxInt32_def)
  show "int32 (offset_of page perPage) = offset_of page perPage"
    using nn by (intro int32_in) (auto simp: e MaxInt32_def in_int32_def)
qed

section \<open>Counting\<close>

definition statuses_in :: "job list \<Rightarrow> string list" where
  "statuses_in js = remdups (map jStatus js)"

lemma summarize_depth:
  "snd (summarize cs counts depth) = depth + (\<Sum>(st, n)\<leftarrow>cs. if waiting_status st then n else 0)"
  by (induction cs counts depth rule: summarize.induct) auto

lemma summarize_counts:
  "distinct (map fst cs) \<Longrightarrow> map_of (fst (summarize cs counts depth)) =
     map_of counts ++ map_of cs"
proof (induction cs counts depth rule: summarize.induct)
  case (2 st n cs counts depth)
  then have "map_of cs st = None" by (simp add: map_of_eq_None_iff)
  moreover have "map_of (AList.update st n counts) = (map_of counts)(st \<mapsto> n)" by (simp add: update_conv')
  ultimately show ?case using 2 by (auto simp: fun_eq_iff map_add_def split: option.splits)
qed simp

lemma int_sum_if: "(\<Sum>x\<leftarrow>xs. if P x then int (f x) else 0) = int (\<Sum>x\<leftarrow>xs. if P x then f x else 0)"
  by (induction xs) simp_all

lemma sum_remdups_count:
  "(\<Sum>st\<leftarrow>remdups (map f xs). if P st then length (filter (\<lambda>x. f x = st) xs) else 0) =
     length (filter (\<lambda>x. P (f x)) xs)"
proof -
  have "(\<Sum>st\<leftarrow>remdups (map f xs). if P st then length (filter (\<lambda>x. f x = st) xs) else 0) =
      (\<Sum>st\<in>f ` set xs. if P st then length (filter (\<lambda>x. f x = st) xs) else 0)"
    by (subst sum_list_distinct_conv_sum_set) simp_all
  also have "\<dots> = length (filter (\<lambda>x. P (f x)) xs)"
  proof (induction xs)
    case (Cons x xs)
    let ?g = "\<lambda>ys st. if P st then length (filter (\<lambda>x. f x = st) ys) else 0"
    have "(\<Sum>st\<in>f ` set (x # xs). ?g (x # xs) st) =
        (\<Sum>st\<in>insert (f x) (f ` set xs). ?g xs st + (if st = f x \<and> P st then 1 else 0))"
      by (intro sum.cong) auto
    also have "\<dots> = (\<Sum>st\<in>insert (f x) (f ` set xs). ?g xs st) + (if P (f x) then 1 else 0)"
    proof -
      have "(\<Sum>st\<in>insert (f x) (f ` set xs). if st = f x \<and> P st then 1 else (0 :: nat)) =
          (\<Sum>st\<in>insert (f x) (f ` set xs). if st = f x then (if P (f x) then 1 else 0) else 0)"
        by (intro sum.cong) auto
      also have "\<dots> = (if P (f x) then 1 else 0)" by (subst sum.delta) simp_all
      finally show ?thesis by (simp only: sum.distrib)
    qed
    also have "(\<Sum>st\<in>insert (f x) (f ` set xs). ?g xs st) = (\<Sum>st\<in>f ` set xs. ?g xs st)"
    proof (cases "f x \<in> f ` set xs")
      case False
      then have "filter (\<lambda>y. f y = f x) xs = []" by (auto simp: filter_empty_conv image_iff)
      then show ?thesis using False by simp
    qed (simp add: insert_absorb)
    finally show ?case using Cons by simp
  qed simp
  finally show ?thesis .
qed

text \<open>The queue depth is the number of jobs that wait for a printer, each counted once.\<close>

lemma queue_depth:
  assumes "fst (AdminJobStatusCounts t) = Inr cs"
  shows "snd (summarize cs [] 0) = int (length (filter (\<lambda>j. waiting_status (jStatus j)) (jobs t)))"
    "map_of (fst (summarize cs [] 0)) st =
       (if st \<in> jStatus ` set (jobs t) then Some (int (count_status st (jobs t))) else None)"
proof -
  have cs: "cs = map (\<lambda>st. (st, int (count_status st (jobs t)))) (remdups (map jStatus (jobs t)))"
    using assms by (simp add: AdminJobStatusCounts_def)
  have "snd (summarize cs [] 0) =
      (\<Sum>st\<leftarrow>remdups (map jStatus (jobs t)). if waiting_status st then int (count_status st (jobs t)) else 0)"
    by (simp add: summarize_depth cs comp_def)
  also have "\<dots> = int (\<Sum>st\<leftarrow>remdups (map jStatus (jobs t)). if waiting_status st then count_status st (jobs t) else 0)"
    by (rule int_sum_if)
  finally show "snd (summarize cs [] 0) = int (length (filter (\<lambda>j. waiting_status (jStatus j)) (jobs t)))"
    unfolding count_status_def sum_remdups_count .
  have "map_of (fst (summarize cs [] 0)) = map_of cs"
    by (subst summarize_counts) (simp_all add: cs comp_def)
  then show "map_of (fst (summarize cs [] 0)) st =
       (if st \<in> jStatus ` set (jobs t) then Some (int (count_status st (jobs t))) else None)"
    by (simp add: cs map_of_map_restrict restrict_map_def)
qed

end
