(* ===== verification/Utf8.thy ===== *)
theory Utf8
  imports Prelude
begin

text \<open>
  Go strings are bytes; \<^verbatim>\<open>len\<close> counts bytes, \<^verbatim>\<open>[]rune\<close> and \<^verbatim>\<open>utf8.DecodeRuneInString\<close> decode UTF-8,
  with a byte that starts no encoding counting as one rune of size one. \<^verbatim>\<open>strings.Fields\<close> splits
  at the runes of Unicode's white space.
\<close>

definition code :: "char \<Rightarrow> nat" where
  "code c = of_char c"

definition cont :: "nat \<Rightarrow> nat \<Rightarrow> string \<Rightarrow> bool" where
  "cont lo hi s = (case s of [] \<Rightarrow> False | c # _ \<Rightarrow> lo \<le> code c \<and> code c \<le> hi)"

text \<open>The size of the first rune of a nonempty string.\<close>

definition rune_size :: "string \<Rightarrow> nat" where
  "rune_size s =
     (let b = code (hd s); t = tl s in
      if 0xC2 \<le> b \<and> b \<le> 0xDF then (if cont 0x80 0xBF t then 2 else 1)
      else if 0xE0 \<le> b \<and> b \<le> 0xEF then
        (if cont (if b = 0xE0 then 0xA0 else 0x80) (if b = 0xED then 0x9F else 0xBF) t \<and>
            cont 0x80 0xBF (drop 1 t) then 3 else 1)
      else if 0xF0 \<le> b \<and> b \<le> 0xF4 then
        (if cont (if b = 0xF0 then 0x90 else 0x80) (if b = 0xF4 then 0x8F else 0xBF) t \<and>
            cont 0x80 0xBF (drop 1 t) \<and> cont 0x80 0xBF (drop 2 t) then 4 else 1)
      else 1)"

lemma rune_size_pos [simp]: "0 < rune_size s"
  by (simp add: rune_size_def Let_def)

lemma cont_drop_length: "cont lo hi (drop n s) \<Longrightarrow> n < length s"
  by (auto simp: cont_def not_less split: list.splits) (metis drop_all list.distinct(1) not_less)

lemma rune_size_le: "s \<noteq> [] \<Longrightarrow> rune_size s \<le> length s"
  using cont_drop_length [of _ _ 0 "tl s"] cont_drop_length [of _ _ 1 "tl s"] cont_drop_length [of _ _ 2 "tl s"]
  by (cases s) (auto simp: rune_size_def Let_def Suc_le_eq split: if_splits dest!: cont_drop_length)

function runes :: "string \<Rightarrow> string list" where
  "runes s = (if s = [] then [] else take (rune_size s) s # runes (drop (rune_size s) s))"
  by pat_completeness auto
termination
  by (relation "measure length") auto

declare runes.simps [simp del]

lemma runes_Nil [simp]: "runes [] = []"
  by (subst runes.simps) simp

lemma runes_not_Nil: "s \<noteq> [] \<Longrightarrow> runes s = take (rune_size s) s # runes (drop (rune_size s) s)"
  by (subst runes.simps) simp

lemma concat_runes [simp]: "concat (runes s) = s"
  by (induction s rule: runes.induct) (metis append_take_drop_id concat.simps runes_Nil runes_not_Nil)

lemma Nil_not_in_runes [simp]: "[] \<notin> set (runes s)"
proof (induction s rule: runes.induct)
  case (1 s)
  then show ?case by (cases "s = []") (auto simp: runes_not_Nil take_eq_Nil2)
qed

definition rune_count :: "string \<Rightarrow> nat" where
  "rune_count s = length (runes s)"

lemma rune_count_le: "rune_count s \<le> length s"
proof (induction s rule: runes.induct)
  case (1 s)
  show ?case
  proof (cases "s = []")
    case False
    then have "rune_count (drop (rune_size s) s) \<le> length (drop (rune_size s) s)" using 1 by simp
    moreover have "rune_size s \<le> length s" "0 < rune_size s" using False by (simp_all add: rune_size_le)
    ultimately show ?thesis using False by (simp add: rune_count_def runes_not_Nil del: rune_size_pos)
  qed (simp add: rune_count_def)
qed

section \<open>Fields\<close>

definition space_rune :: "string \<Rightarrow> bool" where
  "space_rune r \<longleftrightarrow> map code r \<in> set
     [[9], [10], [11], [12], [13], [32], [0xC2, 0x85], [0xC2, 0xA0], [0xE1, 0x9A, 0x80],
      [0xE2, 0x80, 0xA8], [0xE2, 0x80, 0xA9], [0xE2, 0x80, 0xAF], [0xE2, 0x81, 0x9F], [0xE3, 0x80, 0x80],
      [0xE2, 0x80, 0x80], [0xE2, 0x80, 0x81], [0xE2, 0x80, 0x82], [0xE2, 0x80, 0x83], [0xE2, 0x80, 0x84],
      [0xE2, 0x80, 0x85], [0xE2, 0x80, 0x86], [0xE2, 0x80, 0x87], [0xE2, 0x80, 0x88], [0xE2, 0x80, 0x89],
      [0xE2, 0x80, 0x8A]]"

fun split_fields :: "string list \<Rightarrow> string \<Rightarrow> string list" where
  "split_fields [] acc = (if acc = [] then [] else [acc])"
| "split_fields (r # rs) acc =
     (if space_rune r then (if acc = [] then split_fields rs [] else acc # split_fields rs [])
      else split_fields rs (acc @ r))"

definition strFields :: "string \<Rightarrow> string list" where
  "strFields s = split_fields (runes s) []"

lemma split_fields_nonempty:
  "[] \<notin> set rs \<Longrightarrow> [] \<notin> set (split_fields rs acc)"
  by (induction rs acc rule: split_fields.induct) auto

lemma strFields_nonempty [simp]: "[] \<notin> set (strFields s)"
  by (simp add: strFields_def split_fields_nonempty)

text \<open>The fields are the text without its white space.\<close>

lemma concat_split_fields: "concat (split_fields rs acc) = acc @ concat (filter (\<lambda>r. \<not> space_rune r) rs)"
  by (induction rs acc rule: split_fields.induct) auto

lemma concat_strFields: "concat (strFields s) = concat (filter (\<lambda>r. \<not> space_rune r) (runes s))"
  by (simp add: strFields_def concat_split_fields)

end
