(* ===== verification/Accounts.thy ===== *)
theory Accounts
  imports Http Utf8
begin

text \<open>
  \<^verbatim>\<open>handlers/auth.go\<close>: sign-in, the rotating refresh token, sign-out and self-service signup.
\<close>

section \<open>The refresh cookie\<close>

definition refreshTokenTTL :: int where "refreshTokenTTL = 7 * 24 * 3600 * Second"
definition refreshCookieName :: string where "refreshCookieName = ''refresh_token''"
definition refreshCookiePath :: string where "refreshCookiePath = ''/auth/refresh''"

definition refreshCookie :: "string \<Rightarrow> int option \<Rightarrow> int \<Rightarrow> http_cookie" where
  "refreshCookie value expires maxAge = \<lparr>ckName = refreshCookieName, ckValue = value,
     ckPath = refreshCookiePath, ckExpires = expires, ckMaxAge = maxAge, ckHttpOnly = True,
     ckSecure = True, ckStrict = True\<rparr>"

definition setRefreshCookie :: "string \<Rightarrow> int \<Rightarrow> http_cookie" where
  "setRefreshCookie token expiresAt = refreshCookie token (Some expiresAt) 0"

definition clearRefreshCookie :: http_cookie where
  "clearRefreshCookie = refreshCookie [] None (- 1)"

section \<open>Request bodies\<close>

record credentials =
  crEmail :: string
  crPassword :: string

definition credentials_field :: "credentials \<Rightarrow> string \<Rightarrow> json \<Rightarrow> credentials option" where
  "credentials_field q k v =
     (if k = ''email'' then map_option (\<lambda>s. q\<lparr>crEmail := s\<rparr>) (get_str v (crEmail q))
      else if k = ''password'' then map_option (\<lambda>s. q\<lparr>crPassword := s\<rparr>) (get_str v (crPassword q))
      else Some q)"

definition credentials_read :: "wire \<Rightarrow> credentials option" where
  "credentials_read b = (case b of None \<Rightarrow> None
     | Some v \<Rightarrow> read_struct credentials_field \<lparr>crEmail = [], crPassword = []\<rparr> v)"

section \<open>Sessions\<close>

definition tokenResponse :: "string \<Rightarrow> json" where
  "tokenResponse access = JObj [(''access_token'', JStr access),
     (''expires_in'', JInt (AccessTokenTTL div Second))]"

definition issueSession :: "'s env \<Rightarrow> uuid \<Rightarrow> string \<Rightarrow> ('s, (json \<times> http_cookie) res) op" where
  "issueSession E senderID role w =
     (case IssueAccessToken E senderID role w of
        (Inl e, w1) \<Rightarrow> (Inl e, w1)
      | (Inr access, w1) \<Rightarrow>
          (case newOpaqueToken E w1 of
             (Inl e, w2) \<Rightarrow> (Inl e, w2)
           | (Inr (rawRefresh, refreshHash), w2) \<Rightarrow>
               (let expiresAt = time_now E (ext w2) + refreshTokenTTL in
                case qInsertRefreshToken E senderID refreshHash expiresAt w2 of
                  (Inl e, w3) \<Rightarrow> (Inl e, w3)
                | (Inr _, w3) \<Rightarrow> (Inr (tokenResponse access, setRefreshCookie rawRefresh expiresAt), w3))))"

definition session_response :: "nat \<Rightarrow> (json \<times> http_cookie) res \<Rightarrow> response" where
  "session_response status r = (case r of
     Inl _ \<Rightarrow> WriteError 500 ''could not issue token'' ''INTERNAL''
   | Inr (body, ck) \<Rightarrow> (WriteJSON status body)\<lparr>htCookies := [ck]\<rparr>)"

section \<open>The handlers\<close>

definition Login :: "'s env \<Rightarrow> 's server \<Rightarrow> 's handler" where
  "Login E s r w =
     (case credentials_read (rqBody r) of
        None \<Rightarrow> (WriteError 400 ''invalid request body'' ''INVALID_BODY'', w)
      | Some q \<Rightarrow>
          (case pg E (GetSenderByEmail (pgp_decrypt E (AppKey s)) (toLower (crEmail q))) w of
             (Inl e, w1) \<Rightarrow>
               (if e = ErrNoRows then (WriteError 401 ''invalid credentials'' ''UNAUTHORIZED'', w1)
                else (WriteError 500 ''login failed'' ''INTERNAL'', w1))
           | (Inr sd, w1) \<Rightarrow>
               (if \<not> bcrypt_compare E (snPasswordHash sd) (crPassword q)
                then (WriteError 401 ''invalid credentials'' ''UNAUTHORIZED'', w1)
                else (case issueSession E (snID sd) (snRole sd) w1 of
                        (res, w2) \<Rightarrow> (session_response 200 res, w2)))))"

definition Refresh :: "'s env \<Rightarrow> 's server \<Rightarrow> 's handler" where
  "Refresh E s r w =
     (case map_of (rqCookies r) refreshCookieName of
        None \<Rightarrow> (WriteError 401 ''missing refresh token'' ''UNAUTHORIZED'', w)
      | Some value \<Rightarrow>
          (let hash = hashToken E value in
           case pg E (GetActiveRefreshToken hash) w of
             (Inl e, w1) \<Rightarrow>
               (if e = ErrNoRows then (WriteError 401 ''expired or revoked token'' ''UNAUTHORIZED'', w1)
                else (WriteError 500 ''refresh failed'' ''INTERNAL'', w1))
           | (Inr active, w1) \<Rightarrow>
               (if rtExpiresAt active < time_now E (ext w1)
                then (WriteError 401 ''expired or revoked token'' ''UNAUTHORIZED'', w1)
                else (case qRevokeRefreshTokenByHash E hash w1 of
                        (Inl e, w2) \<Rightarrow> (WriteError 500 ''could not revoke token'' ''INTERNAL'', w2)
                      | (Inr _, w2) \<Rightarrow>
                          (case pg E (GetSenderByID (rtSenderID active)) w2 of
                             (Inl e, w3) \<Rightarrow> (WriteError 500 ''lookup failed'' ''INTERNAL'', w3)
                           | (Inr sd, w3) \<Rightarrow>
                               (case issueSession E (snID sd) (snRole sd) w3 of
                                  (res, w4) \<Rightarrow> (session_response 200 res, w4)))))))"

text \<open>
  The same cut where another request can come in between: what \<^verbatim>\<open>Refresh\<close> reads, then what it
  grants on it.
\<close>

definition refresh_read :: "'s env \<Rightarrow> request \<Rightarrow> ('s, response + string \<times> refresh_token) op" where
  "refresh_read E r w =
     (case map_of (rqCookies r) refreshCookieName of
        None \<Rightarrow> (Inl (WriteError 401 ''missing refresh token'' ''UNAUTHORIZED''), w)
      | Some value \<Rightarrow>
          (let hash = hashToken E value in
           case pg E (GetActiveRefreshToken hash) w of
             (Inl e, w1) \<Rightarrow>
               (if e = ErrNoRows then (Inl (WriteError 401 ''expired or revoked token'' ''UNAUTHORIZED''), w1)
                else (Inl (WriteError 500 ''refresh failed'' ''INTERNAL''), w1))
           | (Inr active, w1) \<Rightarrow>
               (if rtExpiresAt active < time_now E (ext w1)
                then (Inl (WriteError 401 ''expired or revoked token'' ''UNAUTHORIZED''), w1)
                else (Inr (hash, active), w1))))"

definition refresh_grant :: "'s env \<Rightarrow> 's server \<Rightarrow> string \<Rightarrow> refresh_token \<Rightarrow> ('s, response) op" where
  "refresh_grant E s hash active w1 =
     (case qRevokeRefreshTokenByHash E hash w1 of
        (Inl e, w2) \<Rightarrow> (WriteError 500 ''could not revoke token'' ''INTERNAL'', w2)
      | (Inr _, w2) \<Rightarrow>
          (case pg E (GetSenderByID (rtSenderID active)) w2 of
             (Inl e, w3) \<Rightarrow> (WriteError 500 ''lookup failed'' ''INTERNAL'', w3)
           | (Inr sd, w3) \<Rightarrow>
               (case issueSession E (snID sd) (snRole sd) w3 of
                  (res, w4) \<Rightarrow> (session_response 200 res, w4))))"

lemma Refresh_split:
  "Refresh E s r w = (case refresh_read E r w of
     (Inl resp, w1) \<Rightarrow> (resp, w1) | (Inr (hash, active), w1) \<Rightarrow> refresh_grant E s hash active w1)"
  by (auto simp: Refresh_def refresh_read_def refresh_grant_def Let_def split: option.splits prod.splits sum.splits)

definition Logout :: "'s env \<Rightarrow> 's handler" where
  "Logout E r w =
     (let w1 = (case map_of (rqCookies r) refreshCookieName of
                  None \<Rightarrow> w
                | Some value \<Rightarrow> snd (qRevokeRefreshTokenByHash E (hashToken E value) w))
      in (\<lparr>htStatus = 204, htHeaders = [], htCookies = [clearRefreshCookie], htBody = NoBody\<rparr>, w1))"

definition minPasswordLen :: nat where "minPasswordLen = 8"

definition display_name :: "string \<Rightarrow> string" where
  "display_name email =
     (let n = length (takeWhile (\<lambda>c. c \<noteq> CHR ''@'') email) in
      if 0 < n \<and> n < length email then take n email else email)"

definition Register :: "'s env \<Rightarrow> 's server \<Rightarrow> 's handler" where
  "Register E s r w =
     (case credentials_read (rqBody r) of
        None \<Rightarrow> (WriteError 400 ''invalid request body'' ''INVALID_BODY'', w)
      | Some q \<Rightarrow>
     (case mail_parse E (crEmail q) of
        None \<Rightarrow> (WriteError 422 ''invalid email address'' ''VALIDATION'', w)
      | Some address \<Rightarrow>
     (let email = toLower address in
      if rune_count (crPassword q) < minPasswordLen
      then (WriteError 422 ''password must be at least 8 characters'' ''VALIDATION'', w)
      else
     (case pg E (GetSenderByEmail (pgp_decrypt E (AppKey s)) email) w of
        (Inr _, w1) \<Rightarrow> (WriteError 409 ''email already registered'' ''EMAIL_TAKEN'', w1)
      | (Inl e, w1) \<Rightarrow>
     (if e \<noteq> ErrNoRows then (WriteError 500 ''registration failed'' ''INTERNAL'', w1)
      else
     (case call (bcrypt_generate E (crPassword q)) w1 of
        (Inl e, w2) \<Rightarrow> (WriteError 500 ''could not hash password'' ''INTERNAL'', w2)
      | (Inr hash, w2) \<Rightarrow>
     (case call (pgp_encrypt E (AppKey s) email) w2 of (email_enc, w3) \<Rightarrow>
      case call (pgp_encrypt E (AppKey s) (display_name email)) w3 of (name_enc, w4) \<Rightarrow>
     (case qInsertSender E email_enc name_enc hash w4 of
        (Inl e, w5) \<Rightarrow> (WriteError 500 ''could not create account'' ''INTERNAL'', w5)
      | (Inr (sid, role), w5) \<Rightarrow>
          (case issueSession E sid role w5 of
             (res, w6) \<Rightarrow> (session_response 201 res, w6))))))))))"

section \<open>Sessions: what they store\<close>

lemma session_status [simp]:
  "st \<noteq> 500 \<Longrightarrow> htStatus (session_response st r) = st \<longleftrightarrow> (\<exists>b ck. r = Inr (b, ck))"
  "htStatus (session_response st r) = st \<or> htStatus (session_response st r) = 500"
  by (auto simp: session_response_def split: sum.splits)

lemma pg_gen_InrD: "pg_gen E q w = (Inr x, w') \<Longrightarrow> \<exists>i now. q i now (db w) = (Inr x, db w')"
  by (rule pg_gen_cases [of E q w]) (metis pg_InrD)

lemma pg_gen_InlD: "pg_gen E q w = (Inl e, w') \<Longrightarrow> \<exists>i now. db w' = db w \<or> db w' = snd (q i now (db w))"
  by (rule pg_gen_cases [of E q w]) (metis pg_InlD)

lemma pg_read_db: "(\<And>t. snd (q t) = t) \<Longrightarrow> pg E q w = (x, w') \<Longrightarrow> db w' = db w"
  using pg_read [of q w E] by (cases "pg E q w") simp

text \<open>
  A session that was issued stored one token, unrevoked, for that sender, under the digest of the
  cookie it set; the cookie is out of reach of scripts, plain HTTP and other sites.
\<close>

lemma issueSession_InrD:
  assumes "issueSession E sid role w = (Inr (body, ck), w')"
  shows "\<exists>i now raw x. db w' = (db w)\<lparr>refresh_tokens := refresh_tokens (db w) @
      [\<lparr>rtID = i, rtSenderID = sid, rtTokenHash = hashToken E raw, rtExpiresAt = x,
        rtRevokedAt = None, rtCreatedAt = now\<rparr>]\<rparr> \<and> ck = setRefreshCookie raw x"
proof -
  from assms obtain w2 raw x where q: "qInsertRefreshToken E sid (hashToken E raw) x w2 = (Inr (), w')"
    and d: "db w2 = db w" and ck: "ck = setRefreshCookie raw x"
    by (auto simp: issueSession_def IssueAccessToken_def newOpaqueToken_def Let_def
        dest!: call_eqD split: prod.splits sum.splits)
  from pg_gen_InrD [OF q [unfolded qInsertRefreshToken_def]] show ?thesis
    by (auto simp: InsertRefreshToken_def d ck split: if_splits) (metis (no_types))
qed

lemma issueSession_steps: "db_steps (db w) (db (snd (issueSession E sid role w)))"
proof -
  have *: "db_steps (db w) (db w3)"
    if "qInsertRefreshToken E sid h x w2 = (r, w3)" "db w2 = db w" for h x w2 r w3
    using query_steps(4) [of w2 E sid h x] that by simp
  show ?thesis
    by (auto simp: issueSession_def IssueAccessToken_def newOpaqueToken_def Let_def
        dest!: call_eqD intro: * split: prod.splits sum.splits)
qed

lemma issueSession_senders: "senders (db (snd (issueSession E sid role w))) = senders (db w)"
proof -
  have *: "senders (db w3) = senders (db w2)"
    if "qInsertRefreshToken E sid h x w2 = (r, w3)" for h x w2 r w3
    using that by (rule_tac pg_gen_cases [of E "\<lambda>i now. InsertRefreshToken i now sid h x" w2])
      (auto simp: qInsertRefreshToken_def InsertRefreshToken_def pg_def split: prod.splits fault.splits if_splits)
  show ?thesis
    by (auto simp: issueSession_def IssueAccessToken_def newOpaqueToken_def Let_def
        dest!: call_eqD * split: prod.splits sum.splits)
qed

section \<open>Every handler works through the statements\<close>

lemma GetSenderByEmail_db: "pg E (GetSenderByEmail dec e) w = (x, w1) \<Longrightarrow> db w1 = db w"
  by (rule pg_read_db [rotated], assumption) simp

lemma GetActive_db: "pg E (GetActiveRefreshToken h) w = (x, w1) \<Longrightarrow> db w1 = db w"
  by (rule pg_read_db [rotated], assumption) simp

lemma GetSenderByID_db: "pg E (GetSenderByID i) w = (x, w1) \<Longrightarrow> db w1 = db w"
  by (rule pg_read_db [rotated], assumption) simp

lemma issueSession_stepsD: "issueSession E sid role w1 = (x, w2) \<Longrightarrow> db_steps (db w1) (db w2)"
  using issueSession_steps [of w1 E sid role] by simp

lemma revoke_stepsD: "qRevokeRefreshTokenByHash E h w1 = (x, w2) \<Longrightarrow> db_steps (db w1) (db w2)"
  using query_steps(8) [of w1 E h] by simp

lemma insert_sender_stepsD: "qInsertSender E e n h w1 = (x, w2) \<Longrightarrow> db_steps (db w1) (db w2)"
  using query_steps(3) [of w1 E e n h] by simp

lemma Login_steps: "db_steps (db w) (db (snd (Login E s r w)))"
  by (auto simp: Login_def split: option.splits prod.splits sum.splits
      dest!: GetSenderByEmail_db issueSession_stepsD)

lemma Refresh_steps: "db_steps (db w) (db (snd (Refresh E s r w)))"
  by (auto simp: Refresh_def Let_def split: option.splits prod.splits sum.splits
      dest!: GetActive_db GetSenderByID_db revoke_stepsD issueSession_stepsD intro: rtranclp_trans)

lemma Logout_steps: "db_steps (db w) (db (snd (Logout E r w)))"
  by (simp add: Logout_def Let_def query_steps split: option.splits)

lemma Register_steps: "db_steps (db w) (db (snd (Register E s r w)))"
  by (auto simp: Register_def Let_def split: option.splits prod.splits sum.splits
      dest!: GetSenderByEmail_db call_eqD insert_sender_stepsD issueSession_stepsD intro: rtranclp_trans)

end
