(* ===== verification/Accounts_Facts.thy ===== *)
theory Accounts_Facts
  imports Accounts
begin

text \<open>
  The contract of the account handlers: who gets a session, what a failed sign-in reveals, that a
  refresh token works once, that signing out and signing up do what they promise.
\<close>

section \<open>Signing in\<close>

lemma GetSenderByEmail_InrD:
  "pg E (GetSenderByEmail dec e) w = (Inr sd, w1) \<Longrightarrow> sd \<in> set (senders (db w)) \<and> dec (snEmailEnc sd) = Some e"
  by (auto simp: GetSenderByEmail_def split: if_splits option.splits dest!: pg_InrD find_SomeD)

lemma Login_cases:
  assumes "Login E s r w = (resp, w')"
  obtains (bad_body) "credentials_read (rqBody r) = None" "htStatus resp = 400" "w' = w"
  | (unknown) q where "credentials_read (rqBody r) = Some q"
      "pg E (GetSenderByEmail (pgp_decrypt E (AppKey s)) (toLower (crEmail q))) w = (Inl ErrNoRows, w')"
      "resp = WriteError 401 ''invalid credentials'' ''UNAUTHORIZED''"
  | (db_error) q e where "credentials_read (rqBody r) = Some q" "e \<noteq> ErrNoRows"
      "pg E (GetSenderByEmail (pgp_decrypt E (AppKey s)) (toLower (crEmail q))) w = (Inl e, w')"
      "htStatus resp = 500"
  | (wrong) q sd where "credentials_read (rqBody r) = Some q"
      "pg E (GetSenderByEmail (pgp_decrypt E (AppKey s)) (toLower (crEmail q))) w = (Inr sd, w')"
      "\<not> bcrypt_compare E (snPasswordHash sd) (crPassword q)"
      "resp = WriteError 401 ''invalid credentials'' ''UNAUTHORIZED''"
  | (granted) q sd w1 res where "credentials_read (rqBody r) = Some q"
      "pg E (GetSenderByEmail (pgp_decrypt E (AppKey s)) (toLower (crEmail q))) w = (Inr sd, w1)"
      "bcrypt_compare E (snPasswordHash sd) (crPassword q)"
      "issueSession E (snID sd) (snRole sd) w1 = (res, w')" "resp = session_response 200 res"
proof (cases "credentials_read (rqBody r)")
  case None
  then show thesis using assms bad_body by (auto simp: Login_def)
next
  case (Some q)
  obtain x w1 where x: "pg E (GetSenderByEmail (pgp_decrypt E (AppKey s)) (toLower (crEmail q))) w = (x, w1)"
    by fastforce
  show thesis
  proof (cases x)
    case (Inl e)
    then show thesis using Some x assms unknown db_error by (cases "e = ErrNoRows") (auto simp: Login_def)
  next
    case (Inr sd)
    then show thesis
      using Some x assms wrong [OF Some] granted [OF Some]
      by (cases "bcrypt_compare E (snPasswordHash sd) (crPassword q)") (auto simp: Login_def split: prod.splits)
  qed
qed

section \<open>Refreshing\<close>

text \<open>A digest is dead when every stored token with it is revoked.\<close>

definition token_dead :: "string \<Rightarrow> tables \<Rightarrow> bool" where
  "token_dead h t \<longleftrightarrow> (\<forall>x\<in>set (refresh_tokens t). rtTokenHash x = h \<longrightarrow> rtRevokedAt x \<noteq> None)"

lemma token_dead_iff: "token_dead h t \<longleftrightarrow> find (active_token h) (refresh_tokens t) = None"
  by (auto simp: token_dead_def active_token_def find_None_iff_ball)

lemma revoke_dead: "token_dead h (snd (RevokeRefreshTokenByHash now h t))"
  by (simp add: token_dead_def RevokeRefreshTokenByHash_def active_token_def update_where_def
      ball_Un image_iff)

lemma revoked_dead:
  "qRevokeRefreshTokenByHash E h w = (Inr u, w') \<Longrightarrow> token_dead h (db w')"
  unfolding qRevokeRefreshTokenByHash_def pg_at_def
  using revoke_dead [of h "pg_now E (ext w)" "db w"] pg_InrD by fastforce

lemma Refresh_dead:
  assumes "map_of (rqCookies r) refreshCookieName = Some v" "token_dead (hashToken E v) (db w)"
    "Refresh E s r w = (resp, w')"
  shows "db w' = db w" "htStatus resp = 401 \<or> htStatus resp = 500" "htCookies resp = []"
proof -
  obtain x w1 where x: "pg E (GetActiveRefreshToken (hashToken E v)) w = (x, w1)" by fastforce
  have "\<exists>e. x = Inl e"
    using x assms(2) by (cases x) (auto simp: token_dead_iff GetActiveRefreshToken_def dest!: pg_InrD)
  then obtain e where "x = Inl e" by blast
  then show "db w' = db w" "htStatus resp = 401 \<or> htStatus resp = 500" "htCookies resp = []"
    using x assms GetActive_db [OF x] by (auto simp: Refresh_def split: if_splits)
qed

lemma refresh_grant_status:
  "refresh_grant E s h a w = (resp, w') \<Longrightarrow> htStatus resp = 200 \<or> htStatus resp = 500"
  by (auto simp: refresh_grant_def session_response_def split: prod.splits sum.splits)

lemma refresh_grantD:
  assumes "refresh_grant E s h a w = (resp, w')" "htStatus resp = 200"
  obtains now t where "refresh_tokens (db w') = refresh_tokens (snd (RevokeRefreshTokenByHash now h (db w))) @ [t]"
    "rtSenderID t = rtSenderID a" "rtRevokedAt t = None"
proof -
  from assms obtain w2 sd w3 b ck where
    rv: "qRevokeRefreshTokenByHash E h w = (Inr (), w2)" and
    sd: "pg E (GetSenderByID (rtSenderID a)) w2 = (Inr sd, w3)" and
    iss: "issueSession E (snID sd) (snRole sd) w3 = (Inr (b, ck), w')"
    by (auto simp: refresh_grant_def session_response_def split: sum.splits prod.splits)
  obtain now where w2: "db w2 = snd (RevokeRefreshTokenByHash now h (db w))"
    using pg_InrD [OF rv [unfolded qRevokeRefreshTokenByHash_def pg_at_def]] by (metis snd_conv)
  have "snID sd = rtSenderID a"
    using pg_InrD [OF sd] by (auto simp: GetSenderByID_def split: option.splits dest!: find_SomeD)
  with issueSession_InrD [OF iss] GetSenderByID_db [OF sd] w2 show thesis using that by auto
qed

text \<open>A revocation leaves a last token in its place, and active unless it has that digest.\<close>

lemma revoke_last:
  assumes "refresh_tokens tb = old @ [t]"
  shows "\<exists>old' t'. refresh_tokens (snd (RevokeRefreshTokenByHash now h tb)) = old' @ [t'] \<and>
    rtSenderID t' = rtSenderID t \<and> rtTokenHash t' = rtTokenHash t \<and> (rtTokenHash t \<noteq> h \<longrightarrow> t' = t)"
  using assms by (auto simp: RevokeRefreshTokenByHash_def update_where_def active_token_def)

lemma Refresh_granted:
  assumes "Refresh E s r w = (resp, w')" "htStatus resp = 200"
  obtains v old sd now i raw x now' where
    "map_of (rqCookies r) refreshCookieName = Some v"
    "old \<in> set (refresh_tokens (db w))" "active_token (hashToken E v) old"
    "sd \<in> set (senders (db w))" "snID sd = rtSenderID old"
    "db w' = (snd (RevokeRefreshTokenByHash now (hashToken E v) (db w)))\<lparr>refresh_tokens :=
       refresh_tokens (snd (RevokeRefreshTokenByHash now (hashToken E v) (db w))) @
        [\<lparr>rtID = i, rtSenderID = rtSenderID old, rtTokenHash = hashToken E raw, rtExpiresAt = x,
          rtRevokedAt = None, rtCreatedAt = now'\<rparr>]\<rparr>"
    "htCookies resp = [setRefreshCookie raw x]"
proof -
  from assms obtain v where v: "map_of (rqCookies r) refreshCookieName = Some v"
    by (auto simp: Refresh_def split: option.splits)
  from assms v obtain old w1 w2 sd w3 b ck where
    old: "pg E (GetActiveRefreshToken (hashToken E v)) w = (Inr old, w1)" and
    rv: "qRevokeRefreshTokenByHash E (hashToken E v) w1 = (Inr (), w2)" and
    sd: "pg E (GetSenderByID (rtSenderID old)) w2 = (Inr sd, w3)" and
    iss: "issueSession E (snID sd) (snRole sd) w3 = (Inr (b, ck), w')" and
    resp: "htCookies resp = [ck]"
    by (auto simp: Refresh_def Let_def session_response_def split: sum.splits prod.splits if_splits)
  have o: "old \<in> set (refresh_tokens (db w))" "active_token (hashToken E v) old"
    using pg_InrD [OF old] by (auto simp: GetActiveRefreshToken_def split: option.splits dest!: find_SomeD)
  obtain now where w2: "db w2 = snd (RevokeRefreshTokenByHash now (hashToken E v) (db w))"
    using pg_InrD [OF rv [unfolded qRevokeRefreshTokenByHash_def pg_at_def]] GetActive_db [OF old]
    by (metis snd_conv)
  have s: "sd \<in> set (senders (db w))" "snID sd = rtSenderID old"
    using pg_InrD [OF sd] w2 by (auto simp: GetSenderByID_def RevokeRefreshTokenByHash_def
        split: option.splits dest!: find_SomeD)
  from issueSession_InrD [OF iss] GetSenderByID_db [OF sd] w2 s(2) resp
  show thesis using that [OF v o s] by auto
qed

section \<open>Signing up\<close>

lemma qInsertSender_senders:
  assumes "qInsertSender E e n h w = (r, w')"
  shows "senders (db w') = senders (db w) \<or> (\<exists>i now. senders (db w') = senders (db w) @
     [\<lparr>snID = i, snEmailEnc = e, snNameEnc = n, snPasswordHash = h, snRole = ''sender'', snCreatedAt = now\<rparr>])"
proof (rule pg_gen_cases [of E "\<lambda>i now. InsertSender i now e n h" w])
  fix i now w1
  assume *: "pg_gen E (\<lambda>i now. InsertSender i now e n h) w = pg E (InsertSender i now e n h) w1" "db w1 = db w"
  show ?thesis
    using assms * pg_db [of E "InsertSender i now e n h" w1]
    by (cases "i \<in> snID ` set (senders (db w))") (auto simp: qInsertSender_def InsertSender_def)
qed

lemma qInsertSender_InrD:
  assumes "qInsertSender E e n h w = (Inr (i, role), w')"
  shows "role = ''sender'' \<and> (\<exists>now. senders (db w') = senders (db w) @
     [\<lparr>snID = i, snEmailEnc = e, snNameEnc = n, snPasswordHash = h, snRole = ''sender'', snCreatedAt = now\<rparr>])"
proof -
  from pg_gen_InrD [OF assms [unfolded qInsertSender_def]]
  obtain k now where "InsertSender k now e n h (db w) = (Inr (i, role), db w')" by blast
  then have "fst (InsertSender k now e n h (db w)) = Inr (i, role)" "db w' = snd (InsertSender k now e n h (db w))"
    by simp_all
  then have "role = ''sender'' \<and> db w' = (db w)\<lparr>senders := senders (db w) @
     [\<lparr>snID = i, snEmailEnc = e, snNameEnc = n, snPasswordHash = h, snRole = ''sender'', snCreatedAt = now\<rparr>]\<rparr>"
    by (auto simp: InsertSender_def split: if_splits)
  then show ?thesis by auto
qed

lemma issueSession_sendersD: "issueSession E sid role w = (x, w') \<Longrightarrow> senders (db w') = senders (db w)"
  using issueSession_senders [of E sid role w] by simp

text \<open>
  Whatever happens, signing up adds at most one account, and never one with another role than
  \<^verbatim>\<open>sender\<close>.
\<close>

lemma Register_senders:
  assumes "Register E s r w = (resp, w')"
  shows "senders (db w') = senders (db w) \<or> (\<exists>sd. senders (db w') = senders (db w) @ [sd] \<and> snRole sd = ''sender'')"
  using assms
  by (auto simp: Register_def Let_def split: option.splits prod.splits sum.splits if_splits
      dest!: GetSenderByEmail_db call_eqD qInsertSender_senders issueSession_sendersD)

lemma Register_created:
  assumes "Register E s r w = (resp, w')" "htStatus resp = 201"
  obtains q address sd u u' w4 w5 b ck where
    "credentials_read (rqBody r) = Some q" "mail_parse E (crEmail q) = Some address"
    "minPasswordLen \<le> rune_count (crPassword q)"
    "fst (GetSenderByEmail (pgp_decrypt E (AppKey s)) (toLower address) (db w)) = Inl ErrNoRows"
    "senders (db w') = senders (db w) @ [sd]" "snRole sd = ''sender''"
    "snEmailEnc sd = fst (pgp_encrypt E (AppKey s) (toLower address) u)"
    "fst (bcrypt_generate E (crPassword q) u') = Inr (snPasswordHash sd)"
    "issueSession E (snID sd) ''sender'' w5 = (Inr (b, ck), w')" "htCookies resp = [ck]"
proof -
  from assms obtain q where q: "credentials_read (rqBody r) = Some q"
    by (auto simp: Register_def split: option.splits)
  from assms q obtain address where a: "mail_parse E (crEmail q) = Some address"
    by (auto simp: Register_def split: option.splits)
  from assms q a have len: "minPasswordLen \<le> rune_count (crPassword q)"
    by (auto simp: Register_def not_less [symmetric])
  from assms q a len obtain w1 hash w2 em w3 nm w4 sid role w5 b ck where
    g: "pg E (GetSenderByEmail (pgp_decrypt E (AppKey s)) (toLower address)) w = (Inl ErrNoRows, w1)" and
    h: "call (bcrypt_generate E (crPassword q)) w1 = (Inr hash, w2)" and
    em: "call (pgp_encrypt E (AppKey s) (toLower address)) w2 = (em, w3)" and
    nm: "call (pgp_encrypt E (AppKey s) (display_name (toLower address))) w3 = (nm, w4)" and
    ins: "qInsertSender E em nm hash w4 = (Inr (sid, role), w5)" and
    iss: "issueSession E sid role w5 = (Inr (b, ck), w')" and resp: "htCookies resp = [ck]"
    by (auto simp: Register_def Let_def session_response_def split: sum.splits prod.splits if_splits)
  have d: "db w1 = db w" "db w2 = db w" "db w3 = db w" "db w4 = db w"
    using GetSenderByEmail_db [OF g] call_eqD [OF h] call_eqD [OF em] call_eqD [OF nm] by auto
  from g have g': "fst (GetSenderByEmail (pgp_decrypt E (AppKey s)) (toLower address) (db w)) = Inl ErrNoRows"
    using pg_InlD [OF g] by (metis fst_conv go_error.distinct(5))
  from qInsertSender_InrD [OF ins] d obtain now where
    role: "role = ''sender''" and
    sd: "senders (db w5) = senders (db w) @ [\<lparr>snID = sid, snEmailEnc = em, snNameEnc = nm,
      snPasswordHash = hash, snRole = ''sender'', snCreatedAt = now\<rparr>]" by auto
  show thesis
    by (rule that [OF q a len g' trans [OF issueSession_sendersD [OF iss] sd] _ _ _ _ resp,
          of "ext w2" "ext w1" w5 b])
       (use call_eqD [OF h] call_eqD [OF em] iss role in simp_all)
qed

end
