(* ===== verification/Jobs_Facts.thy ===== *)
theory Jobs_Facts
  imports Jobs_Api Accounts_Facts
begin

text \<open>
  The contract of the job handlers: what an accepted submission has stored, who may watch a job,
  what a watcher sees and when the stream ends.
\<close>

section \<open>Submission\<close>

lemma BlobExists_InrD:
  "BlobExists E b w = (Inr True, w') \<Longrightarrow> fst (m_stat E bucket b (ext w)) = Inr () \<and> db w' = db w"
  by (auto simp: BlobExists_def dest!: call_eqD split: prod.splits sum.splits if_splits)

lemma job_owner_InrD:
  assumes "job_owner E r w = (Inr (guest, sid, hash), w')"
  shows "db w' = db w" "sid = SenderID E r" "sid = None \<longleftrightarrow> hash \<noteq> None" "sid \<noteq> None \<Longrightarrow> guest = []"
    "sid = None \<Longrightarrow> hash = Some (hashToken E guest)"
  using assms
  by (cases "SenderID E r",
      auto simp: job_owner_def newOpaqueToken_def Let_def dest!: call_eqD split: prod.splits sum.splits)+

lemma qInsertJob_InrD:
  assumes "qInsertJob E p w = (Inr (i, st), w')"
  obtains now where "db w' = (db w)\<lparr>jobs := jobs (db w) @ [new_job i now p]\<rparr>" "i \<notin> jID ` set (jobs (db w))"
proof -
  from pg_gen_InrD [OF assms [unfolded qInsertJob_def]]
  obtain k now where *: "InsertJob k now p (db w) = (Inr (i, st), db w')" by blast
  then have "fst (InsertJob k now p (db w)) = Inr (i, st)" "db w' = snd (InsertJob k now p (db w))" by simp_all
  then show thesis using that [of now] by (auto simp: InsertJob_def split: if_splits)
qed

lemma job_of_append_new:
  "i \<notin> jID ` set (jobs t) \<Longrightarrow> jID j = i \<Longrightarrow> job_of (t\<lparr>jobs := jobs t @ [j]\<rparr>) i = Some j"
proof -
  assume i: "i \<notin> jID ` set (jobs t)" "jID j = i"
  then have "find (\<lambda>j. jID j = i) (jobs t) = None" by (auto simp: find_None_iff_ball image_iff)
  with i show ?thesis by (simp add: job_of_def find_append)
qed

lemma new_job_id [simp]: "jID (new_job i now p) = i"
  by (simp add: new_job_def)

lemma db_le_TryDispatch: "db_le (db w) (db (snd (TryDispatch E f w)))"
  using db_mono.steps_le [OF attempt_steps] by simp

lemma qInsertAuditEvent_le: "db_le (db w) (db (snd (qInsertAuditEvent E j a u w)))"
  by (rule db_mono.steps_le [OF query_steps(2)])

lemma CreateJob_accepted:
  assumes "CreateJob E r w = (resp, w')" "htStatus resp = 202"
  obtains q recipientID resolved key guest hash i now w5 status where
    "createJob_read (rqBody r) = Some q" "uuid_parse E (cjRecipientID q) = Some recipientID"
    "ResolveRecipient recipientID (db w) = (Inr resolved, db w)"
    "\<exists>u. fst (m_stat E bucket (cjBlobRef q) u) = Inr ()"
    "StdDecode (cjEncryptedKey q) = Some key"
    "SenderID E r = None \<longleftrightarrow> hash \<noteq> None" "SenderID E r = None \<Longrightarrow> hash = Some (hashToken E guest)"
    "SenderID E r \<noteq> None \<Longrightarrow> guest = []"
    "job_of (db w) i = None"
    "job_of (db w5) i = Some (new_job i now \<lparr>ijSenderID = SenderID E r, ijGuestTokenHash = hash,
       ijMailboxID = rrMailboxID resolved, ijSlotID = rrSlotID resolved, ijEncryptedKey = key,
       ijBlobRef = cjBlobRef q, ijPageCount = cjPageCount q\<rparr>)"
    "db_le (db w5) (db w')"
    "TryDispatch E (FromJob E i (rrMailboxID resolved) (rrSlotID resolved) key (cjBlobRef q)) w5 = (Inr status, w')"
    "resp = WriteJSON 202 (JObj ([(''job_id'', JStr (uuid_string E i)), (''status'', JStr status)] @
       omit_str ''guest_token'' guest))"
proof -
  from assms obtain q where q: "createJob_read (rqBody r) = Some q"
    by (auto simp: CreateJob_def split: option.splits)
  from assms q obtain rid where rid: "uuid_parse E (cjRecipientID q) = Some rid"
    by (auto simp: CreateJob_def split: option.splits)
  from assms q rid obtain resolved w1 where res: "pg E (ResolveRecipient rid) w = (Inr resolved, w1)"
    by (auto simp: CreateJob_def split: prod.splits sum.splits if_splits)
  from assms q rid res obtain w2 where bl: "BlobExists E (cjBlobRef q) w1 = (Inr True, w2)"
    by (auto simp: CreateJob_def split: prod.splits sum.splits if_splits)
  from assms q rid res bl obtain key where key: "StdDecode (cjEncryptedKey q) = Some key"
    by (auto simp: CreateJob_def split: option.splits)
  from assms q rid res bl key obtain guest sid hash w3 where ow: "job_owner E r w2 = (Inr (guest, sid, hash), w3)"
    by (auto simp: CreateJob_def split: prod.splits sum.splits)
  define p where "p = \<lparr>ijSenderID = sid, ijGuestTokenHash = hash, ijMailboxID = rrMailboxID resolved,
     ijSlotID = rrSlotID resolved, ijEncryptedKey = key, ijBlobRef = cjBlobRef q, ijPageCount = cjPageCount q\<rparr>"
  from assms q rid res bl key ow obtain i st w4 where ins: "qInsertJob E p w3 = (Inr (i, st), w4)"
    by (auto simp: CreateJob_def p_def split: prod.splits sum.splits)
  from assms q rid res bl key ow ins obtain w5 where
    au: "qInsertAuditEvent E i ''job_submitted'' (SenderID E r) w4 = (Inr (), w5)"
    by (auto simp: CreateJob_def p_def split: prod.splits sum.splits)
  from assms q rid res bl key ow ins au obtain status where
    td: "TryDispatch E (FromJob E i (rrMailboxID resolved) (rrSlotID resolved) key (cjBlobRef q)) w5 = (Inr status, w')"
    and resp: "resp = WriteJSON 202 (JObj ([(''job_id'', JStr (uuid_string E i)), (''status'', JStr status)] @
       omit_str ''guest_token'' guest))"
    by (auto simp: CreateJob_def p_def split: prod.splits sum.splits)
  note o = job_owner_InrD [OF ow]
  have d1: "db w1 = db w" by (rule pg_read_db [OF _ res]) simp
  have d: "db w3 = db w" "\<exists>u. fst (m_stat E bucket (cjBlobRef q) u) = Inr ()"
    using BlobExists_InrD [OF bl] o(1) d1 by auto
  have rr: "ResolveRecipient rid (db w) = (Inr resolved, db w)" using pg_InrD [OF res] d1 by simp
  obtain now where now: "db w4 = (db w)\<lparr>jobs := jobs (db w) @ [new_job i now p]\<rparr>" "i \<notin> jID ` set (jobs (db w))"
    using qInsertJob_InrD [OF ins] d by metis
  have j5: "jobs (db w5) = jobs (db w4)" using qInsertAuditEvent_jobs [of E i "''job_submitted''" "SenderID E r" w4] au by simp
  have "job_of (db w4) i = Some (new_job i now p)"
    unfolding now(1) by (rule job_of_append_new [OF now(2)]) simp
  then have n5: "job_of (db w5) i = Some (new_job i now p)" by (simp add: job_of_def j5)
  have none: "job_of (db w) i = None" using now(2) by (auto simp: job_of_def find_None_iff_ball)
  have le: "db_le (db w5) (db w')" using db_le_TryDispatch [of w5 E] td by (metis snd_conv)
  show thesis
    by (rule that [OF q rid rr d(2) key _ _ _ none _ le td resp])
       (use o n5 [unfolded p_def] in auto)
qed

section \<open>Watching\<close>

lemma authorizeStream_iff:
  "authorizeStream E r job = None \<longleftrightarrow>
     (SenderID E r \<noteq> None \<and> gjSenderID job = SenderID E r) \<or>
     (query_get r ''token'' \<noteq> [] \<and> gjGuestTokenHash job = Some (hashToken E (query_get r ''token'')))"
  by (simp add: authorizeStream_def Let_def)

text \<open>The events a text published on the channel stands for.\<close>

fun published :: "stream_event list \<Rightarrow> streamEvent list" where
  "published (Published msg ok # es) =
     (case streamEvent_read msg of None \<Rightarrow> published es
      | Some ev \<Rightarrow> if eStatus ev = [] then published es else ev # published es)"
| "published _ = []"

fun until_terminal :: "streamEvent list \<Rightarrow> streamEvent list" where
  "until_terminal [] = []"
| "until_terminal (e # es) = e # (if isTerminalStatus (eStatus e) then [] else until_terminal es)"

definition all_written :: "stream_event list \<Rightarrow> bool" where
  "all_written es = list_all (\<lambda>e. case e of Published _ ok \<Rightarrow> ok | _ \<Rightarrow> True) es"

definition sse_data :: "sse list \<Rightarrow> json list" where
  "sse_data xs = List.map_filter (\<lambda>x. case x of SseData j \<Rightarrow> Some j | SseComment _ \<Rightarrow> None) xs"

lemma sse_data_simps [simp]:
  "sse_data [] = []" "sse_data (SseData j # xs) = j # sse_data xs" "sse_data (SseComment c # xs) = sse_data xs"
  by (simp_all add: sse_data_def map_filter_simps)

lemma relay_written:
  "all_written es \<Longrightarrow> sse_data (relay i es) =
     map (\<lambda>ev. streamEvent_json (ev\<lparr>eJobID := i\<rparr>)) (until_terminal (published es))"
  by (induction i es rule: relay.induct) (auto simp: all_written_def writeSSE_def drain_comment_def split: option.splits)

lemma relay_prefix:
  "prefix (sse_data (relay i es)) (map (\<lambda>ev. streamEvent_json (ev\<lparr>eJobID := i\<rparr>)) (until_terminal (published es)))"
  by (induction i es rule: relay.induct) (auto simp: writeSSE_def drain_comment_def split: option.splits)

lemma until_terminal_last:
  "until_terminal es = xs @ e # ys \<Longrightarrow> isTerminalStatus (eStatus e) \<Longrightarrow> ys = []"
  by (induction es arbitrary: xs) (auto simp: Cons_eq_append_conv split: if_splits)

text \<open>
  A stream that started was allowed, and its first event is the row as read after the
  subscription was acknowledged.
\<close>

lemma StreamJob_started:
  assumes "StreamJob E sok events r w = (resp, w')" "htStatus resp = 200"
  obtains i job0 job w1 w2 where "uuid_parse E (rqPathID r) = Some i"
    "pg E (GetJobForStream i) w = (Inr job0, w1)" "authorizeStream E r job0 = None" "rqFlusher r"
    "call (r_subscribe E (ChanJobStatus (uuid_string E i))) w1 = (Inr (), w2)"
    "pg E (GetJobForStream i) w2 = (Inr job, w')"
    "htBody resp = EventStream (if \<not> sok then [] else
       writeSSE \<lparr>eJobID = uuid_string E i, eStatus = gjStatus job, eError = []\<rparr> #
       (if isTerminalStatus (gjStatus job) then [] else relay (uuid_string E i) events))"
proof -
  from assms obtain i where i: "uuid_parse E (rqPathID r) = Some i"
    by (auto simp: StreamJob_def split: option.splits)
  from assms i obtain job0 w1 where j0: "pg E (GetJobForStream i) w = (Inr job0, w1)"
    by (auto simp: StreamJob_def split: prod.splits sum.splits if_splits)
  have auth: "authorizeStream E r job0 = None"
    using assms i j0 by (auto simp: StreamJob_def authorizeStream_def Let_def split: option.splits if_splits)
  have fl: "rqFlusher r" using assms i j0 auth by (auto simp: StreamJob_def split: if_splits)
  from assms i j0 auth fl obtain w2 where
    su: "call (r_subscribe E (ChanJobStatus (uuid_string E i))) w1 = (Inr (), w2)"
    by (auto simp: StreamJob_def split: prod.splits sum.splits)
  from assms i j0 auth fl su obtain job where j: "pg E (GetJobForStream i) w2 = (Inr job, w')"
    by (auto simp: StreamJob_def Let_def split: prod.splits sum.splits)
  show thesis
    by (rule that [OF i j0 auth fl su j]) (use assms i j0 auth fl su j in \<open>auto simp: StreamJob_def Let_def\<close>)
qed

lemma StreamJob_owner:
  assumes "StreamJob E sok events r w = (resp, w')" "htStatus resp = 200"
  shows "\<exists>i j. uuid_parse E (rqPathID r) = Some i \<and> job_of (db w) i = Some j \<and>
    (SenderID E r \<noteq> None \<and> jSenderID j = SenderID E r \<or>
     query_get r ''token'' \<noteq> [] \<and> jGuestTokenHash j = Some (hashToken E (query_get r ''token'')))"
proof (rule StreamJob_started [OF assms])
  fix i job0 job w1 w2
  assume i: "uuid_parse E (rqPathID r) = Some i" and q: "pg E (GetJobForStream i) w = (Inr job0, w1)"
    and a: "authorizeStream E r job0 = None"
  from pg_InrD [OF q] obtain j where "job_of (db w) i = Some j" "gjSenderID job0 = jSenderID j"
    "gjGuestTokenHash job0 = jGuestTokenHash j"
    by (auto simp: GetJobForStream_def split: option.splits)
  with i a [unfolded authorizeStream_iff] show ?thesis by auto
qed

end
