(* ===== verification/Recipients.thy ===== *)
theory Recipients
  imports Http Utf8
begin

text \<open>
  \<^verbatim>\<open>handlers/recipients.go\<close> and \<^verbatim>\<open>handlers/health.go\<close>: the unauthenticated recipient search with
  its masked names, the public-key lookup, and the two probes.
\<close>

section \<open>Names\<close>

definition maskName :: "string \<Rightarrow> string" where
  "maskName full =
     (case strFields full of
        [] \<Rightarrow> []
      | [p] \<Rightarrow> p
      | parts \<Rightarrow> take (rune_size (hd parts)) (hd parts) @ ''. '' @ last parts)"

section \<open>Search\<close>

definition recipientSummary :: "'s env \<Rightarrow> SearchRecipientsRow \<Rightarrow> json" where
  "recipientSummary E row = JObj [(''recipient_id'', JStr (uuid_string E (sqRecipientID row))),
     (''display_name'', JStr (maskName (sqFullName row))),
     (''building_address'', JStr (sqBuildingAddress row))]"

definition SearchRecipients_handler :: "'s env \<Rightarrow> 's server \<Rightarrow> 's handler" where
  "SearchRecipients_handler E s r w =
     (let q = query_get r ''q'' in
      if length q < 2 then (WriteError 400 ''q must be at least 2 characters'' ''INVALID_QUERY'', w)
      else (case pg E (SearchRecipients (pgp_decrypt E (AppKey s)) (pg_collate E) q) w of
              (Inl e, w1) \<Rightarrow> (WriteError 500 ''search failed'' ''INTERNAL'', w1)
            | (Inr rows, w1) \<Rightarrow> (WriteJSON 200 (JArr (map (recipientSummary E) rows)), w1)))"

section \<open>Public keys\<close>

definition RecipientPublicKey :: "'s env \<Rightarrow> 's handler" where
  "RecipientPublicKey E r w =
     (case uuid_parse E (rqPathID r) of
        None \<Rightarrow> (WriteError 404 ''recipient not found'' ''RECIPIENT_NOT_FOUND'', w)
      | Some recipientID \<Rightarrow>
          (case pg E (ResolveRecipient recipientID) w of
             (Inl e, w1) \<Rightarrow>
               (if e = ErrNoRows
                then (WriteError 404 ''recipient not found or slot unassigned'' ''RECIPIENT_NOT_FOUND'', w1)
                else (WriteError 500 ''lookup failed'' ''INTERNAL'', w1))
           | (Inr resolved, w1) \<Rightarrow>
               (WriteJSON 200 (JObj [(''recipient_id'', JStr (uuid_string E (rrRecipientID resolved))),
                  (''public_key_pem'', JStr (rrPublicKeyPem resolved))]), w1)))"

section \<open>Probes\<close>

definition ok_body :: json where "ok_body = JObj [(''status'', JStr ''ok'')]"

text \<open>\<^verbatim>\<open>PingContext\<close> is a statement that does nothing.\<close>

definition Healthz :: "'s env \<Rightarrow> 's server \<Rightarrow> 's handler" where
  "Healthz E s r w =
     (if draining s then (WriteError 503 ''shutting down'' ''DRAINING'', w)
      else (case pg E (\<lambda>t. (Inr (), t)) w of
              (Inl e, w1) \<Rightarrow> (WriteError 503 ''postgres unreachable'' ''UNAVAILABLE'', w1)
            | (Inr _, w1) \<Rightarrow>
                (case call (r_ping E) w1 of
                   (Inl e, w2) \<Rightarrow> (WriteError 503 ''redis unreachable'' ''UNAVAILABLE'', w2)
                 | (Inr _, w2) \<Rightarrow> (WriteJSON 200 ok_body, w2))))"

definition Livez :: "'s handler" where
  "Livez r w = (WriteJSON 200 ok_body, w)"

section \<open>What a name keeps\<close>

text \<open>
  A name of two words or more is shown as one rune and the last word; the text between them, and
  the rest of the first word, have no influence on it.
\<close>

lemma maskName_words:
  assumes "strFields full = p # q # ps"
  shows "maskName full = take (rune_size p) p @ ''. '' @ last (q # ps)"
  using assms by (simp add: maskName_def)

lemma split_fields_append:
  "split_fields (rs @ [s] @ ss) acc =
     split_fields rs acc @ split_fields ss []" if "space_rune s"
  using that by (induction rs acc rule: split_fields.induct) auto

lemma rune_take: "s \<noteq> [] \<Longrightarrow> hd (runes s) = take (rune_size s) s"
  by (simp add: runes_not_Nil)

lemma maskName_first_rune:
  assumes "strFields full = p # q # ps" "strFields full' = p' # q' # ps'"
    "hd (runes p) = hd (runes p')" "last (q # ps) = last (q' # ps')"
  shows "maskName full = maskName full'"
proof -
  have ne: "p \<noteq> []" "p' \<noteq> []"
    using strFields_nonempty [of full] strFields_nonempty [of full'] assms by auto
  have "take (rune_size p) p = take (rune_size p') p'"
    using assms(3) unfolding rune_take [OF ne(1)] rune_take [OF ne(2)] .
  then show ?thesis
    by (simp only: maskName_words [OF assms(1)] maskName_words [OF assms(2)] assms(4))
qed

end
