(* ===== verification/Zero_Knowledge.thy ===== *)
theory Zero_Knowledge
  imports Admin Jobs_Facts Recipients
begin

text \<open>
  The boundary \<^verbatim>\<open>server.go\<close> promises: no reading handler lets a job's key or the place of its
  ciphertext out. Stated as noninterference: on two databases that differ only in those two
  columns of \<^verbatim>\<open>jobs\<close>, a handler answers the same and leaves the services in the same state.
\<close>

section \<open>The columns that are secret\<close>

definition redact :: "job \<Rightarrow> job" where
  "redact j = j\<lparr>jEncryptedKey := [], jBlobRef := []\<rparr>"

definition redacted :: "tables \<Rightarrow> tables" where
  "redacted t = t\<lparr>jobs := map redact (jobs t)\<rparr>"

lemma redact_sel [simp]:
  "jID (redact j) = jID j" "jSenderID (redact j) = jSenderID j" "jGuestTokenHash (redact j) = jGuestTokenHash j"
  "jStatus (redact j) = jStatus j" "jPageCount (redact j) = jPageCount j" "jCreatedAt (redact j) = jCreatedAt j"
  "jDeliveredAt (redact j) = jDeliveredAt j" "jSlotID (redact j) = jSlotID j" "jMailboxID (redact j) = jMailboxID j"
  by (simp_all add: redact_def)

lemma redacted_sel [simp]:
  "jobs (redacted t) = map redact (jobs t)" "mailboxes (redacted t) = mailboxes t"
  "mailbox_slots (redacted t) = mailbox_slots t" "buildings (redacted t) = buildings t"
  "residents (redacted t) = residents t" "senders (redacted t) = senders t"
  "refresh_tokens (redacted t) = refresh_tokens t" "audit_events (redacted t) = audit_events t"
  by (simp_all add: redacted_def)

section \<open>Queries that do not read them\<close>

text \<open>
  A query is blind when it only reads and its result survives the redaction. A handler made of
  blind queries cannot tell apart two worlds with the same redacted database.
\<close>

definition same_view :: "'s world \<Rightarrow> 's world \<Rightarrow> bool" where
  "same_view w v \<longleftrightarrow> redacted (db w) = redacted (db v) \<and> ext w = ext v"

locale blind_query =
  fixes q :: "'a stmt"
  assumes reads: "snd (q t) = t" and blind: "fst (q (redacted t)) = fst (q t)"
begin

lemma same_result:
  assumes "redacted t = redacted u"
  shows "fst (q t) = fst (q u)"
  using blind [of t] blind [of u] assms by simp

lemma pg_same_view:
  assumes "same_view w v"
  shows "fst (pg E q w) = fst (pg E q v) \<and> same_view (snd (pg E q w)) (snd (pg E q v))"
  using assms same_result [of "db w" "db v"]
  by (auto simp: pg_def same_view_def reads split: prod.splits fault.splits)

lemma pg_cases:
  assumes "same_view w v"
  obtains x w' v' where "pg E q w = (x, w')" "pg E q v = (x, v')" "same_view w' v'"
  using pg_same_view [OF assms, of E] by (metis prod.collapse)

end

lemma map_redact_filter [simp]:
  "(\<And>j. P (redact j) = P j) \<Longrightarrow> filter P (map redact js) = map redact (filter P js)"
  by (simp add: filter_map comp_def)

lemma sort_key_redact [simp]:
  "(\<And>j. f (redact j) = f j) \<Longrightarrow> sort_key f (map redact js) = map redact (sort_key f js)"
proof (induction js)
  case (Cons j js)
  have "insort_key f (redact x) (map redact ys) = map redact (insort_key f x ys)" for x ys
    by (induction ys) (simp_all add: Cons.prems)
  then show ?case using Cons by simp
qed simp

lemma find_redact: "find (\<lambda>j. jID j = i) (map redact js) = map_option redact (find (\<lambda>j. jID j = i) js)"
  by (induction js) auto

lemma count_status_redact [simp]: "count_status st (map redact js) = count_status st js"
  by (simp add: count_status_def)

interpretation GetJobForStream: blind_query "GetJobForStream i"
  by unfold_locales (simp_all add: GetJobForStream_def job_of_def find_redact split: option.splits)

interpretation GetJobsBySender: blind_query "GetJobsBySender s"
  by unfold_locales (simp_all add: GetJobsBySender_def newest_first_def take_map sender_row_def comp_def)

interpretation AdminListJobs: blind_query "AdminListJobs st off lim"
proof
  fix t
  show "snd (AdminListJobs st off lim t) = t" by simp
  have row: "admin_row (redacted t) (redact j) = admin_row t j" for j
    by (simp add: admin_row_def slot_of_def)
  have "List.map_filter (admin_row (redacted t)) (map redact js) = List.map_filter (admin_row t) js" for js
    by (induction js) (simp_all add: map_filter_simps row split: option.splits)
  then show "fst (AdminListJobs st off lim (redacted t)) = fst (AdminListJobs st off lim t)"
    by (simp add: AdminListJobs_def newest_first_def status_match_def)
qed

interpretation AdminCountJobs: blind_query "AdminCountJobs st"
  by unfold_locales (simp_all add: AdminCountJobs_def status_match_def)

interpretation AdminJobStatusCounts: blind_query AdminJobStatusCounts
  by unfold_locales (simp_all add: AdminJobStatusCounts_def comp_def)

interpretation AdminCountDeliveredSince: blind_query "AdminCountDeliveredSince since"
  by unfold_locales (simp_all add: AdminCountDeliveredSince_def)

interpretation AdminListMailboxes: blind_query "AdminListMailboxes collate"
proof
  fix t
  have "mailbox_row (redacted t) = mailbox_row t" by (rule ext) (simp add: mailbox_row_def)
  then show "fst (AdminListMailboxes collate (redacted t)) = fst (AdminListMailboxes collate t)"
    by (simp add: AdminListMailboxes_def)
qed simp

interpretation AdminListSlots: blind_query AdminListSlots
  by unfold_locales (simp_all add: AdminListSlots_def)

interpretation ResolveRecipient: blind_query "ResolveRecipient i"
  by unfold_locales (simp_all add: ResolveRecipient_def slot_of_def split: option.splits)

section \<open>Calls\<close>

lemma call_same_view:
  assumes "same_view w v"
  obtains x w' v' where "call f w = (x, w')" "call f v = (x, v')" "same_view w' v'"
  using assms by (cases "f (ext v)") (auto simp: call_def same_view_def)

lemma lookup_same_view:
  assumes "same_view w v"
  obtains x w' v' where "LookupPrinterState E m w = (x, w')" "LookupPrinterState E m v = (x, v')" "same_view w' v'"
proof (rule call_same_view [OF assms, of "r_get E (KeyPrinterState m)"])
  fix x w' v'
  assume *: "call (r_get E (KeyPrinterState m)) w = (x, w')" "call (r_get E (KeyPrinterState m)) v = (x, v')"
    "same_view w' v'"
  have "fst (LookupPrinterState E m w) = fst (LookupPrinterState E m v) \<and>
      snd (LookupPrinterState E m w) = w' \<and> snd (LookupPrinterState E m v) = v'"
    using *(1,2) by (cases x) (auto simp: LookupPrinterState_def split: option.splits)
  then show thesis using that *(3) by (metis prod.collapse)
qed

section \<open>Handlers\<close>

definition blind_handler :: "'s handler \<Rightarrow> bool" where
  "blind_handler h \<longleftrightarrow> (\<forall>r w v. same_view w v \<longrightarrow> fst (h r w) = fst (h r v) \<and> ext (snd (h r w)) = ext (snd (h r v)))"

lemma blind_handlerI:
  "(\<And>r w v. same_view w v \<Longrightarrow> fst (h r w) = fst (h r v) \<and> same_view (snd (h r w)) (snd (h r v))) \<Longrightarrow> blind_handler h"
  unfolding blind_handler_def same_view_def by blast

lemma StreamJob_blind: "blind_handler (StreamJob (E :: 's env) sok events)"
proof (rule blind_handlerI)
  fix r and w v :: "'s world"
  assume s: "same_view w v"
  show "fst (StreamJob E sok events r w) = fst (StreamJob E sok events r v) \<and>
    same_view (snd (StreamJob E sok events r w)) (snd (StreamJob E sok events r v))"
  proof (cases "uuid_parse E (rqPathID r)")
    case None
    then show ?thesis using s by (simp add: StreamJob_def)
  next
    case (Some i)
    obtain x w1 v1 where 1: "pg E (GetJobForStream i) w = (x, w1)" "pg E (GetJobForStream i) v = (x, v1)" "same_view w1 v1"
      by (rule GetJobForStream.pg_cases [OF s])
    obtain y w2 v2 where 2: "call (r_subscribe E (ChanJobStatus (uuid_string E i))) w1 = (y, w2)"
      "call (r_subscribe E (ChanJobStatus (uuid_string E i))) v1 = (y, v2)" "same_view w2 v2"
      by (rule call_same_view [OF 1(3)])
    obtain z w3 v3 where 3: "pg E (GetJobForStream i) w2 = (z, w3)" "pg E (GetJobForStream i) v2 = (z, v3)" "same_view w3 v3"
      by (rule GetJobForStream.pg_cases [OF 2(3)])
    show ?thesis
      using Some 1 2 3
      by (cases x; cases y; cases z) (auto simp: StreamJob_def Let_def split: option.splits)
  qed
qed

lemma ListMyJobs_blind: "blind_handler (ListMyJobs (E :: 's env))"
proof (rule blind_handlerI)
  fix r and w v :: "'s world"
  assume s: "same_view w v"
  show "fst (ListMyJobs E r w) = fst (ListMyJobs E r v) \<and> same_view (snd (ListMyJobs E r w)) (snd (ListMyJobs E r v))"
  proof (cases "SenderID E r")
    case (Some i)
    obtain x w1 v1 where "pg E (GetJobsBySender i) w = (x, w1)" "pg E (GetJobsBySender i) v = (x, v1)" "same_view w1 v1"
      by (rule GetJobsBySender.pg_cases [OF s])
    then show ?thesis using Some by (cases x) (auto simp: ListMyJobs_def)
  qed (use s in \<open>simp add: ListMyJobs_def\<close>)
qed

lemma AdminJobs_blind: "blind_handler (AdminJobs (E :: 's env))"
proof (rule blind_handlerI)
  fix r and w v :: "'s world"
  assume s: "same_view w v"
  let ?st = "query_get r ''status''" and ?pp = "per_page_of (query_get r ''per_page'')"
  let ?off = "offset_of (page_of (query_get r ''page'')) ?pp"
  obtain x w1 v1 where 1: "pg E (AdminListJobs ?st (int32 ?off) (int32 ?pp)) w = (x, w1)"
    "pg E (AdminListJobs ?st (int32 ?off) (int32 ?pp)) v = (x, v1)" "same_view w1 v1"
    by (rule AdminListJobs.pg_cases [OF s])
  obtain y w2 v2 where 2: "pg E (AdminCountJobs ?st) w1 = (y, w2)" "pg E (AdminCountJobs ?st) v1 = (y, v2)" "same_view w2 v2"
    by (rule AdminCountJobs.pg_cases [OF 1(3)])
  show "fst (AdminJobs E r w) = fst (AdminJobs E r v) \<and> same_view (snd (AdminJobs E r w)) (snd (AdminJobs E r v))"
    using 1 2 by (cases x; cases y) (auto simp: AdminJobs_def Let_def)
qed

lemma AdminSummary_blind: "blind_handler (AdminSummary (E :: 's env))"
proof (rule blind_handlerI)
  fix r and w v :: "'s world"
  assume s: "same_view w v"
  obtain x w1 v1 where 1: "pg E AdminJobStatusCounts w = (x, w1)" "pg E AdminJobStatusCounts v = (x, v1)" "same_view w1 v1"
    by (rule AdminJobStatusCounts.pg_cases [OF s])
  let ?since = "startOfDay (time_now E (ext w1))"
  obtain y w2 v2 where 2: "pg E (AdminCountDeliveredSince ?since) w1 = (y, w2)"
    "pg E (AdminCountDeliveredSince ?since) v1 = (y, v2)" "same_view w2 v2"
    by (rule AdminCountDeliveredSince.pg_cases [OF 1(3)])
  have "ext v1 = ext w1" using 1(3) by (simp add: same_view_def)
  then show "fst (AdminSummary E r w) = fst (AdminSummary E r v) \<and> same_view (snd (AdminSummary E r w)) (snd (AdminSummary E r v))"
    using 1 2 by (cases x; cases y) (auto simp: AdminSummary_def split: prod.splits)
qed

lemma mailbox_views_blind:
  "same_view w v \<Longrightarrow> fst (mailbox_views E sls mbs w) = fst (mailbox_views E sls mbs v) \<and>
     same_view (snd (mailbox_views E sls mbs w)) (snd (mailbox_views E sls mbs v))"
proof (induction mbs arbitrary: w v)
  case Nil
  then show ?case by simp
next
  case (Cons mb mbs)
  obtain x w1 v1 where 1: "LookupPrinterState E (uuid_string E (amMailboxID mb)) w = (x, w1)"
    "LookupPrinterState E (uuid_string E (amMailboxID mb)) v = (x, v1)" "same_view w1 v1"
    by (rule lookup_same_view [OF Cons.prems])
  from Cons.IH [OF 1(3)] obtain y w2 v2 where 2: "mailbox_views E sls mbs w1 = (y, w2)"
    "mailbox_views E sls mbs v1 = (y, v2)" "same_view w2 v2" by (metis prod.collapse)
  show ?case using 1 2 by (cases x; cases y) simp_all
qed

lemma AdminMailboxes_blind: "blind_handler (AdminMailboxes (E :: 's env))"
proof (rule blind_handlerI)
  fix r and w v :: "'s world"
  assume s: "same_view w v"
  obtain x w1 v1 where 1: "pg E (AdminListMailboxes (pg_collate E)) w = (x, w1)"
    "pg E (AdminListMailboxes (pg_collate E)) v = (x, v1)" "same_view w1 v1"
    by (rule AdminListMailboxes.pg_cases [OF s])
  obtain y w2 v2 where 2: "pg E AdminListSlots w1 = (y, w2)" "pg E AdminListSlots v1 = (y, v2)" "same_view w2 v2"
    by (rule AdminListSlots.pg_cases [OF 1(3)])
  show "fst (AdminMailboxes E r w) = fst (AdminMailboxes E r v) \<and>
    same_view (snd (AdminMailboxes E r w)) (snd (AdminMailboxes E r v))"
  proof (cases x)
    case (Inr mbs)
    show ?thesis
    proof (cases y)
      case (Inr sls)
      obtain z w3 v3 where "mailbox_views E sls mbs w2 = (z, w3)" "mailbox_views E sls mbs v2 = (z, v3)" "same_view w3 v3"
        using mailbox_views_blind [OF 2(3), of E sls mbs] by (metis prod.collapse)
      then show ?thesis using 1 2 \<open>x = Inr mbs\<close> Inr by (cases z) (simp_all add: AdminMailboxes_def)
    qed (use 1 2 Inr in \<open>simp add: AdminMailboxes_def\<close>)
  qed (use 1 in \<open>simp add: AdminMailboxes_def\<close>)
qed

lemma RecipientPublicKey_blind: "blind_handler (RecipientPublicKey (E :: 's env))"
proof (rule blind_handlerI)
  fix r and w v :: "'s world"
  assume s: "same_view w v"
  show "fst (RecipientPublicKey E r w) = fst (RecipientPublicKey E r v) \<and>
    same_view (snd (RecipientPublicKey E r w)) (snd (RecipientPublicKey E r v))"
  proof (cases "uuid_parse E (rqPathID r)")
    case (Some i)
    obtain x w1 v1 where "pg E (ResolveRecipient i) w = (x, w1)" "pg E (ResolveRecipient i) v = (x, v1)" "same_view w1 v1"
      by (rule ResolveRecipient.pg_cases [OF s])
    then show ?thesis using Some by (cases x) (auto simp: RecipientPublicKey_def)
  qed (use s in \<open>simp add: RecipientPublicKey_def\<close>)
qed

interpretation Search_query: blind_query "SearchRecipients decrypt collate q"
proof
  fix t
  have "recipient_row decrypt (redacted t) = recipient_row decrypt t"
    by (rule ext) (simp add: recipient_row_def slot_of_def cong: option.case_cong)
  then show "fst (SearchRecipients decrypt collate q (redacted t)) = fst (SearchRecipients decrypt collate q t)"
    by (simp add: SearchRecipients_def split: sum.splits)
qed simp

interpretation Ping_query: blind_query "\<lambda>t. (Inr (), t)"
  by unfold_locales simp_all

lemma SearchRecipients_blind: "blind_handler (SearchRecipients_handler (E :: 's env) s)"
proof (rule blind_handlerI)
  fix r and w v :: "'s world"
  assume sv: "same_view w v"
  let ?q = "SearchRecipients (pgp_decrypt E (AppKey s)) (pg_collate E) (query_get r ''q'')"
  obtain x w1 v1 where "pg E ?q w = (x, w1)" "pg E ?q v = (x, v1)" "same_view w1 v1"
    by (rule Search_query.pg_cases [OF sv])
  then show "fst (SearchRecipients_handler E s r w) = fst (SearchRecipients_handler E s r v) \<and>
      same_view (snd (SearchRecipients_handler E s r w)) (snd (SearchRecipients_handler E s r v))"
    using sv by (cases x) (simp_all add: SearchRecipients_handler_def Let_def)
qed

lemma Healthz_blind: "blind_handler (Healthz (E :: 's env) s)"
proof (rule blind_handlerI)
  fix r and w v :: "'s world"
  assume sv: "same_view w v"
  obtain x w1 v1 where 1: "pg E (\<lambda>t. (Inr (), t)) w = (x, w1)" "pg E (\<lambda>t. (Inr (), t)) v = (x, v1)" "same_view w1 v1"
    by (rule Ping_query.pg_cases [OF sv])
  obtain y w2 v2 where 2: "call (r_ping E) w1 = (y, w2)" "call (r_ping E) v1 = (y, v2)" "same_view w2 v2"
    by (rule call_same_view [OF 1(3)])
  show "fst (Healthz E s r w) = fst (Healthz E s r v) \<and> same_view (snd (Healthz E s r w)) (snd (Healthz E s r v))"
    using sv 1 2 by (cases x; cases y) (simp_all add: Healthz_def)
qed

lemma Livez_blind: "blind_handler Livez"
  by (simp add: blind_handler_def Livez_def same_view_def)

section \<open>Wrappers\<close>

text \<open>The authentication wrappers look at the request and the services only.\<close>

lemma blind_handlerD:
  "blind_handler h \<Longrightarrow> same_view w v \<Longrightarrow> fst (h r w) = fst (h r v) \<and> ext (snd (h r w)) = ext (snd (h r v))"
  by (simp add: blind_handler_def)

lemma wrappers_blind:
  assumes "blind_handler (next :: 's handler)"
  shows "blind_handler (optionalAuth E next)" "blind_handler (requireAuth E next)"
    "blind_handler (requireAdmin E next)" "blind_handler (nodeHeader n next)"
proof -
  note D = blind_handlerD [OF assms]
  have "fst (W E next r w) = fst (W E next r v) \<and> ext (snd (W E next r w)) = ext (snd (W E next r v))"
    if sv: "same_view w v" and W: "W = optionalAuth \<or> W = requireAuth \<or> W = requireAdmin" for W r and w v :: "'s world"
  proof (cases "cutPrefix (rqAuthorization r) ''Bearer ''")
    case None
    then show ?thesis using W D [OF sv, of r] sv
      by (auto simp: optionalAuth_def requireAuth_def requireAdmin_def same_view_def)
  next
    case (Some raw)
    have "ParseAccessToken E raw w = ParseAccessToken E raw v"
      using sv by (simp add: ParseAccessToken_def same_view_def)
    then show ?thesis using W Some D [OF sv] sv
      by (cases "ParseAccessToken E raw v")
         (auto simp: optionalAuth_def requireAuth_def requireAdmin_def same_view_def)
  qed
  then show "blind_handler (optionalAuth E next)" "blind_handler (requireAuth E next)" "blind_handler (requireAdmin E next)"
    by (simp_all add: blind_handler_def)
  show "blind_handler (nodeHeader n next)"
    unfolding blind_handler_def nodeHeader_def case_prod_beta fst_conv snd_conv
  proof (intro allI impI)
    fix r and w v :: "'s world"
    assume "same_view w v"
    from D [OF this, of r]
    show "fst (next r w)\<lparr>htHeaders := htHeaders (fst (next r w)) @ [(NodeHeader, n)]\<rparr> =
        fst (next r v)\<lparr>htHeaders := htHeaders (fst (next r v)) @ [(NodeHeader, n)]\<rparr> \<and>
        ext (snd (next r w)) = ext (snd (next r v))"
      by (simp only: simp_thms)
  qed
qed

end
