(* ===== verification/Hub.thy ===== *)
theory Hub
  imports Route_Facts
begin

text \<open>
  Package \<^verbatim>\<open>link\<close>: the cloud half of the printer link. The registry of live sockets
  (\<^verbatim>\<open>registry.go\<close>), the conversion of frames to cached state (\<^verbatim>\<open>frames.go\<close>), and the hub
  (\<^verbatim>\<open>hub.go\<close>): accepting a printer, reading its state and status frames, relaying dispatch
  payloads down its socket, closing the sockets on shutdown. Sockets are numbered; what a printer
  sends is a list of texts that ends where the socket does.
\<close>

section \<open>The registry\<close>

type_synonym conn = nat
type_synonym registry = "(string \<times> conn) list"

definition Registry_Add :: "string \<Rightarrow> conn \<Rightarrow> registry \<Rightarrow> registry" where
  "Registry_Add m c r = AList.update m c r"

definition Registry_Conns :: "registry \<Rightarrow> conn list" where
  "Registry_Conns r = map snd r"

definition Registry_Remove :: "string \<Rightarrow> conn \<Rightarrow> registry \<Rightarrow> registry" where
  "Registry_Remove m c r = (if map_of r m = Some c then AList.delete m r else r)"

lemma Registry_Add_lookup [simp]: "map_of (Registry_Add m c r) k = (if k = m then Some c else map_of r k)"
  by (simp add: Registry_Add_def update_conv')

lemma Registry_Remove_lookup [simp]:
  "map_of (Registry_Remove m c r) k = (if k = m \<and> map_of r m = Some c then None else map_of r k)"
  by (simp add: Registry_Remove_def delete_conv')

section \<open>Frames to state\<close>

definition toStoreSlots :: "slots \<Rightarrow> slots" where
  "toStoreSlots m = map (\<lambda>(i, s). (i, \<lparr>Current = Current s, Max = Max s\<rparr>)) m"

definition registerToState :: "frame \<Rightarrow> PrinterState" where
  "registerToState reg = \<lparr>psStatus = ''idle'', psSlotOccupancy = toStoreSlots (fSlotOccupancy reg)\<rparr>"

lemma toStoreSlots_id [simp]: "toStoreSlots m = m"
proof -
  have "(\<lambda>(i, s). (i, \<lparr>Current = Current s, Max = slot_state.Max s\<rparr>)) = (id :: string \<times> slot_state \<Rightarrow> _)"
    by (auto simp: fun_eq_iff)
  then show ?thesis unfolding toStoreSlots_def by (metis list.map_id)
qed

section \<open>The hub\<close>

text \<open>
  \<^verbatim>\<open>hubQueries\<close> is false where the source's \<^verbatim>\<open>Queries\<close> is nil: a status frame then dereferences
  nil, which is the result \<^term>\<open>None\<close> of \<^verbatim>\<open>onStatus\<close> and of the loop around it.
\<close>

record 's hub =
  hubQueries :: bool
  DeleteBlob :: "(string \<Rightarrow> ('s, unit res) op) option"

definition mirrorLiveness :: "'s env \<Rightarrow> 's hub \<Rightarrow> string \<Rightarrow> string \<Rightarrow> 's world \<Rightarrow> 's world" where
  "mirrorLiveness E h mailboxID status w =
     (if \<not> hubQueries h then w
      else (case uuid_parse E mailboxID of
              None \<Rightarrow> w
            | Some i \<Rightarrow> snd (qUpdateMailboxLiveness E i status w)))"

definition onState :: "'s env \<Rightarrow> 's hub \<Rightarrow> string \<Rightarrow> frame \<Rightarrow> 's world \<Rightarrow> 's world" where
  "onState E h mailboxID f w =
     (case SetPrinterState E mailboxID
             \<lparr>psStatus = fStatus f, psSlotOccupancy = toStoreSlots (fSlotOccupancy f)\<rparr> w of
        (Inl e, w1) \<Rightarrow> w1
      | (Inr _, w1) \<Rightarrow>
          (let w2 = mirrorLiveness E h mailboxID (fStatus f) w1 in
           if fStatus f = ''idle'' then snd (call (r_publish E (ChanAvailable mailboxID) (JInt 1)) w2)
           else w2))"

definition deleteDeliveredBlob :: "'s env \<Rightarrow> 's hub \<Rightarrow> uuid \<Rightarrow> string \<Rightarrow> 's world \<Rightarrow> 's world" where
  "deleteDeliveredBlob E h i blobRef w =
     (case DeleteBlob h of
        None \<Rightarrow> w
      | Some del \<Rightarrow>
          (case del blobRef w of
             (Inl e, w1) \<Rightarrow> w1
           | (Inr _, w1) \<Rightarrow>
               (let w2 = snd (qSetJobBlobDeleted E i w1) in
                snd (qInsertAuditEvent E i ''blob_deleted'' None w2))))"

definition onStatus :: "'s env \<Rightarrow> 's hub \<Rightarrow> frame \<Rightarrow> 's world \<Rightarrow> 's world option" where
  "onStatus E h f w =
     (case uuid_parse E (fJobID f) of
        None \<Rightarrow> Some w
      | Some i \<Rightarrow>
          (if \<not> hubQueries h then None
           else (case qUpdateJobStatus E i (fStatus f) w of
                   (Inl e, w1) \<Rightarrow> Some w1
                 | (Inr job, w1) \<Rightarrow>
                     (let w2 = snd (qInsertAuditEvent E i (''job_'' @ fStatus f) None w1);
                          w3 = snd (call (r_publish E (ChanJobStatus (uuid_string E i)) (jsonStatusPayload f)) w2)
                      in Some (if fStatus f = ''delivered'' then deleteDeliveredBlob E h i (ujBlobRef job) w3
                               else w3)))))"

text \<open>The loop ends at the end of the socket or at a text that is no frame.\<close>

fun readLoop :: "'s env \<Rightarrow> 's hub \<Rightarrow> string \<Rightarrow> wire list \<Rightarrow> 's world \<Rightarrow> 's world option" where
  "readLoop E h m [] w = Some w"
| "readLoop E h m (x # xs) w =
     (case (case x of None \<Rightarrow> None | Some j \<Rightarrow> frame_read j) of
        None \<Rightarrow> Some w
      | Some f \<Rightarrow>
          (if fType f = ''state'' then readLoop E h m xs (onState E h m f w)
           else if fType f = ''status'' then
             (case onStatus E h f w of None \<Rightarrow> None | Some w1 \<Rightarrow> readLoop E h m xs w1)
           else readLoop E h m xs w))"

section \<open>Accepting a printer\<close>

datatype accept_result = Rejected | Established string

text \<open>
  \<^verbatim>\<open>Accept\<close> up to its read loop: the register frame, the registry entry, the subscription (whose
  failure runs the deferred removal), the seeded cache and the mirrored liveness.
\<close>

definition accept_begin :: "'s env \<Rightarrow> 's hub \<Rightarrow> conn \<Rightarrow> wire \<Rightarrow> registry \<Rightarrow> 's world
    \<Rightarrow> accept_result \<times> registry \<times> 's world" where
  "accept_begin E h c first r w =
     (case (case first of None \<Rightarrow> None | Some j \<Rightarrow> frame_read j) of
        None \<Rightarrow> (Rejected, r, w)
      | Some reg \<Rightarrow>
          (if fType reg \<noteq> ''register'' \<or> fMailboxID reg = [] then (Rejected, r, w)
           else (let m = fMailboxID reg; r1 = Registry_Add m c r in
             (case call (r_subscribe E (ChanDispatch m)) w of
                (Inl e, w1) \<Rightarrow> (Rejected, Registry_Remove m c r1, w1)
              | (Inr _, w1) \<Rightarrow>
                  (let w2 = snd (SetPrinterState E m (registerToState reg) w1);
                       w3 = mirrorLiveness E h m ''idle'' w2
                   in (Established m, r1, w3))))))"

text \<open>What the deferred calls of \<^verbatim>\<open>Accept\<close> leave when its loop returns.\<close>

definition accept_end :: "conn \<Rightarrow> string \<Rightarrow> registry \<Rightarrow> registry" where
  "accept_end c m r = Registry_Remove m c r"

section \<open>Relaying dispatches\<close>

text \<open>
  What \<^verbatim>\<open>pumpDispatch\<close> selects: the end of its context, the end of the channel, or a message and
  whether writing it to the socket worked. The result is the payloads written, in order.
\<close>

datatype pump_event = PumpDone | PumpClosed | PumpMsg json bool

fun pumpDispatch :: "pump_event list \<Rightarrow> json list" where
  "pumpDispatch [] = []"
| "pumpDispatch (PumpDone # es) = []"
| "pumpDispatch (PumpClosed # es) = []"
| "pumpDispatch (PumpMsg p ok # es) = (if ok then p # pumpDispatch es else [])"

section \<open>Closing\<close>

datatype close_act = GoingAway conn | CloseNow conn

definition Hub_Close :: "(conn \<Rightarrow> bool) \<Rightarrow> registry \<Rightarrow> close_act list list" where
  "Hub_Close closes r = map (\<lambda>c. if closes c then [GoingAway c] else [GoingAway c, CloseNow c]) (Registry_Conns r)"

section \<open>What a frame does to the database\<close>

lemma db_mirrorLiveness: "db_steps (db w) (db (mirrorLiveness E h m st w))"
  by (simp add: mirrorLiveness_def query_steps split: option.splits)

lemma jobs_UpdateMailboxLiveness [simp]:
  "jobs (snd (UpdateMailboxLiveness now i st t)) = jobs t"
  "audit_events (snd (UpdateMailboxLiveness now i st t)) = audit_events t"
  by (simp_all add: UpdateMailboxLiveness_def)

lemma mirrorLiveness_jobs [simp]:
  "jobs (db (mirrorLiveness E h m st w)) = jobs (db w)"
  "audit_events (db (mirrorLiveness E h m st w)) = audit_events (db w)"
proof -
  have "jobs (db (snd (qUpdateMailboxLiveness E i st w))) = jobs (db w) \<and>
    audit_events (db (snd (qUpdateMailboxLiveness E i st w))) = audit_events (db w)" for i
    using pg_db [of E "UpdateMailboxLiveness (pg_now E (ext w)) i st" w]
    by (auto simp: qUpdateMailboxLiveness_def pg_at_def)
  then show "jobs (db (mirrorLiveness E h m st w)) = jobs (db w)"
    "audit_events (db (mirrorLiveness E h m st w)) = audit_events (db w)"
    by (auto simp: mirrorLiveness_def split: option.splits)
qed

lemma onState_db:
  "db_steps (db w) (db (onState E h m f w))"
  "jobs (db (onState E h m f w)) = jobs (db w)"
  "audit_events (db (onState E h m f w)) = audit_events (db w)"
proof -
  let ?st = "\<lparr>psStatus = fStatus f, psSlotOccupancy = toStoreSlots (fSlotOccupancy f)\<rparr>"
  obtain r w1 where s: "SetPrinterState E m ?st w = (r, w1)" by fastforce
  then have d: "db w1 = db w" using SetPrinterState_db [of E m ?st w] by simp
  show "db_steps (db w) (db (onState E h m f w))"
    "jobs (db (onState E h m f w)) = jobs (db w)"
    "audit_events (db (onState E h m f w)) = audit_events (db w)"
    using s d db_mirrorLiveness [of w1 E h m "fStatus f"] by (cases r, auto simp: onState_def Let_def)+
qed

text \<open>Deleting a blob is meant to leave the database alone; \<^verbatim>\<open>RemoveBlob\<close> does.\<close>

definition hub_ok :: "'s hub \<Rightarrow> bool" where
  "hub_ok h \<longleftrightarrow> hubQueries h \<and> (\<forall>del\<in>set_option (DeleteBlob h). \<forall>b w. db (snd (del b w)) = db w)"

lemma deleteDeliveredBlob_steps:
  assumes "hub_ok h"
  shows "db_steps (db w) (db (deleteDeliveredBlob E h i b w))"
proof (cases "DeleteBlob h")
  case None
  then show ?thesis by (simp add: deleteDeliveredBlob_def)
next
  case (Some del)
  obtain r w1 where r: "del b w = (r, w1)" by fastforce
  then have d: "db w1 = db w" using assms Some by (auto simp: hub_ok_def dest!: spec [of _ b] spec [of _ w])
  show ?thesis
  proof (cases r)
    case (Inl e)
    then show ?thesis using r d Some by (simp add: deleteDeliveredBlob_def)
  next
    case (Inr u)
    have "db_steps (db w1) (db (snd (qInsertAuditEvent E i ''blob_deleted'' None (snd (qSetJobBlobDeleted E i w1)))))"
      by (rule rtranclp_trans [OF query_steps(6) query_steps(2)])
    then show ?thesis using r d Some Inr by (simp add: deleteDeliveredBlob_def Let_def)
  qed
qed

lemma onStatus_Some: "hub_ok h \<Longrightarrow> \<exists>w'. onStatus E h f w = Some w'"
  by (auto simp: onStatus_def hub_ok_def Let_def split: option.splits prod.splits sum.splits)

lemma onStatus_steps:
  assumes "hub_ok h" "onStatus E h f w = Some w'"
  shows "db_steps (db w) (db w')"
proof (cases "uuid_parse E (fJobID f)")
  case None
  then show ?thesis using assms by (simp add: onStatus_def)
next
  case (Some i)
  obtain r w1 where r: "qUpdateJobStatus E i (fStatus f) w = (r, w1)" by fastforce
  have s1: "db_steps (db w) (db w1)" using query_steps(5) [of w E i "fStatus f"] r by simp
  show ?thesis
  proof (cases r)
    case (Inl e)
    then show ?thesis using assms Some r s1 by (simp add: onStatus_def hub_ok_def)
  next
    case (Inr job)
    let ?w2 = "snd (qInsertAuditEvent E i (''job_'' @ fStatus f) None w1)"
    define w3 where
      "w3 = snd (call (r_publish E (ChanJobStatus (uuid_string E i)) (jsonStatusPayload f)) ?w2)"
    have s3: "db_steps (db w) (db w3)"
      using rtranclp_trans [OF s1 query_steps(2)] by (simp add: w3_def)
    have "w' = (if fStatus f = ''delivered'' then deleteDeliveredBlob E h i (ujBlobRef job) w3 else w3)"
      using assms Some r Inr by (auto simp: onStatus_def hub_ok_def Let_def w3_def)
    then show ?thesis
      using s3 rtranclp_trans [OF s3 deleteDeliveredBlob_steps [OF assms(1)]] by simp
  qed
qed

lemma readLoop_steps:
  "hub_ok h \<Longrightarrow> \<exists>w'. readLoop E h m xs w = Some w' \<and> db_steps (db w) (db w')"
proof (induction xs arbitrary: w)
  case Nil
  then show ?case by simp
next
  case (Cons x xs)
  show ?case
  proof (cases "case x of None \<Rightarrow> None | Some j \<Rightarrow> frame_read j")
    case None
    then show ?thesis by simp
  next
    case (Some f)
    consider "fType f = ''state''" | "fType f = ''status''" | "fType f \<noteq> ''state''" "fType f \<noteq> ''status''" by blast
    then show ?thesis
    proof cases
      case 1
      with Some Cons.IH [OF Cons.prems, of "onState E h m f w"] onState_db(1) [of w E h m f]
      show ?thesis by (auto intro: rtranclp_trans)
    next
      case 2
      from onStatus_Some [OF Cons.prems] obtain w1 where w1: "onStatus E h f w = Some w1" by blast
      from Cons.IH [OF Cons.prems, of w1] onStatus_steps [OF Cons.prems w1] 2 Some w1
      show ?thesis by (auto intro: rtranclp_trans)
    next
      case 3
      with Some Cons show ?thesis by simp
    qed
  qed
qed

end
