(* ===== verification/Hub_Facts.thy ===== *)
theory Hub_Facts
  imports Hub
begin

text \<open>
  The contract of the printer link: what a status frame does and in which order, when a blob is
  deleted, and which socket the registry names when printers reconnect faster than their old
  sockets are torn down.
\<close>

section \<open>Status frames\<close>

lemma onStatus_cases:
  assumes "onStatus E h f w = Some w'" "hubQueries h"
  obtains (bad_id) "uuid_parse E (fJobID f) = None" "w' = w"
  | (failed) i e where "uuid_parse E (fJobID f) = Some i" "qUpdateJobStatus E i (fStatus f) w = (Inl e, w')"
  | (applied) i job w1 w2 w3 where "uuid_parse E (fJobID f) = Some i"
      "qUpdateJobStatus E i (fStatus f) w = (Inr job, w1)"
      "w2 = snd (qInsertAuditEvent E i (''job_'' @ fStatus f) None w1)"
      "w3 = snd (call (r_publish E (ChanJobStatus (uuid_string E i)) (jsonStatusPayload f)) w2)"
      "w' = (if fStatus f = ''delivered'' then deleteDeliveredBlob E h i (ujBlobRef job) w3 else w3)"
proof (cases "uuid_parse E (fJobID f)")
  case None
  then show thesis using assms bad_id by (simp add: onStatus_def)
next
  case (Some i)
  obtain r w1 where r: "qUpdateJobStatus E i (fStatus f) w = (r, w1)" by fastforce
  show thesis
  proof (cases r)
    case (Inl e)
    then show thesis using assms Some r failed by (simp add: onStatus_def)
  next
    case (Inr job)
    show thesis
      by (rule applied [OF Some r [unfolded Inr] refl refl])
         (use assms Some r Inr in \<open>auto simp: onStatus_def Let_def\<close>)
  qed
qed

lemma qUpdateJobStatus_InrD:
  assumes "qUpdateJobStatus E i st w = (Inr row, w')"
  obtains j where "job_of (db w) i = Some j" "ujBlobRef row = jBlobRef j"
    "db w' = set_job i (apply_status (pg_now E (ext w)) st) (db w)"
  using pg_InrD [OF assms [unfolded qUpdateJobStatus_def pg_at_def]]
  by (auto simp: UpdateJobStatus_def split: option.splits)

text \<open>No status frame touches a job other than the one it names.\<close>

lemma qUpdateJobStatus_other:
  "k \<noteq> i \<Longrightarrow> job_of (db (snd (qUpdateJobStatus E i st w))) k = job_of (db w) k"
  using pg_db [of E "UpdateJobStatus (pg_now E (ext w)) i st" w]
  by (auto simp: qUpdateJobStatus_def pg_at_def UpdateJobStatus_def split: option.splits)

lemma job_of_jobs: "jobs t = jobs u \<Longrightarrow> job_of t k = job_of u k"
  by (simp add: job_of_def)

lemma qSetJobBlobDeleted_job:
  "k \<noteq> i \<Longrightarrow> job_of (db (snd (qSetJobBlobDeleted E i w))) k = job_of (db w) k"
  "map_option jStatus (job_of (db (snd (qSetJobBlobDeleted E i w))) k) = map_option jStatus (job_of (db w) k)"
proof -
  have *: "map_option jStatus (job_of (set_job i (\<lambda>j. j\<lparr>jBlobDeletedAt := d\<rparr>) t) k) = map_option jStatus (job_of t k)" for d t
    by (cases "k = i") (simp_all add: option.map_comp comp_def)
  show "k \<noteq> i \<Longrightarrow> job_of (db (snd (qSetJobBlobDeleted E i w))) k = job_of (db w) k"
    "map_option jStatus (job_of (db (snd (qSetJobBlobDeleted E i w))) k) = map_option jStatus (job_of (db w) k)"
    using pg_db [of E "SetJobBlobDeleted (pg_now E (ext w)) i" w] *
    by (auto simp: qSetJobBlobDeleted_def pg_at_def SetJobBlobDeleted_def)
qed

lemma deleteDeliveredBlob_job:
  assumes "hub_ok h"
  shows "k \<noteq> i \<Longrightarrow> job_of (db (deleteDeliveredBlob E h i b w)) k = job_of (db w) k"
    "map_option jStatus (job_of (db (deleteDeliveredBlob E h i b w)) k) = map_option jStatus (job_of (db w) k)"
proof -
  have "(k \<noteq> i \<longrightarrow> job_of (db (deleteDeliveredBlob E h i b w)) k = job_of (db w) k) \<and>
    map_option jStatus (job_of (db (deleteDeliveredBlob E h i b w)) k) = map_option jStatus (job_of (db w) k)"
  proof (cases "DeleteBlob h")
    case (Some del)
    obtain r w1 where r: "del b w = (r, w1)" by fastforce
    then have "db w1 = db w" using assms Some by (auto simp: hub_ok_def dest!: spec [of _ b] spec [of _ w])
    then show ?thesis using r Some qSetJobBlobDeleted_job [where i = i and E = E and w = w1]
      by (cases r) (auto simp: deleteDeliveredBlob_def Let_def job_of_jobs [OF qInsertAuditEvent_jobs])
  qed (simp add: deleteDeliveredBlob_def)
  then show "k \<noteq> i \<Longrightarrow> job_of (db (deleteDeliveredBlob E h i b w)) k = job_of (db w) k"
    "map_option jStatus (job_of (db (deleteDeliveredBlob E h i b w)) k) = map_option jStatus (job_of (db w) k)"
    by simp_all
qed

lemma onStatus_jobs:
  assumes "hub_ok h" "onStatus E h f w = Some w'" "uuid_parse E (fJobID f) = Some i"
  shows "k \<noteq> i \<Longrightarrow> job_of (db w') k = job_of (db w) k"
    "job_of (db w) i = None \<Longrightarrow> job_of (db w') i = None"
proof -
  have q: "hubQueries h" using assms(1) by (simp add: hub_ok_def)
  have "(k \<noteq> i \<longrightarrow> job_of (db w') k = job_of (db w) k) \<and> (job_of (db w) i = None \<longrightarrow> job_of (db w') i = None)"
    using assms(2) q
  proof (cases rule: onStatus_cases)
    case bad_id
    then show ?thesis by simp
  next
    case (failed i' e)
    have "job_of (db w') i = None" if "job_of (db w) i = None"
    proof -
      have "db (snd (qUpdateJobStatus E i (fStatus f) w)) = db w"
        using pg_db [of E "UpdateJobStatus (pg_now E (ext w)) i (fStatus f)" w] that
        by (auto simp: qUpdateJobStatus_def pg_at_def UpdateJobStatus_def)
      then show ?thesis using failed assms(3) that by simp
    qed
    then show ?thesis using failed assms(3) qUpdateJobStatus_other [of k i E "fStatus f" w] by simp
  next
    case (applied i' job w1 w2 w3)
    then obtain j where "job_of (db w) i = Some j" using assms(3) by (metis option.inject qUpdateJobStatus_InrD)
    moreover have "job_of (db w1) k = job_of (db w) k" if "k \<noteq> i"
      using qUpdateJobStatus_other [OF that, of E "fStatus f" w] applied assms(3) by simp
    moreover have "job_of (db w3) k = job_of (db w1) k"
      using applied by (simp add: job_of_jobs [OF qInsertAuditEvent_jobs])
    ultimately show ?thesis
      using applied assms(3) deleteDeliveredBlob_job(1) [OF assms(1), of k i E "ujBlobRef job" w3] by auto
  qed
  then show "k \<noteq> i \<Longrightarrow> job_of (db w') k = job_of (db w) k"
    "job_of (db w) i = None \<Longrightarrow> job_of (db w') i = None" by simp_all
qed

text \<open>
  The contract of an applied status: the row has the reported status, and the object store is
  asked for nothing but the job's own blob, and for that only on delivery.
\<close>

lemma onStatus_applied:
  assumes "hub_ok h" "uuid_parse E (fJobID f) = Some i" "qUpdateJobStatus E i (fStatus f) w = (Inr row, w1)"
    "onStatus E h f w = Some w'"
  shows "status_of (db w') i = Some (fStatus f)" "job_of (db w) i \<noteq> None"
proof -
  have q: "hubQueries h" using assms(1) by (simp add: hub_ok_def)
  obtain j where j: "job_of (db w) i = Some j" "db w1 = set_job i (apply_status (pg_now E (ext w)) (fStatus f)) (db w)"
    using assms(3) by (rule qUpdateJobStatus_InrD)
  then have s1: "status_of (db w1) i = Some (fStatus f)" by (simp add: status_of_def)
  show "job_of (db w) i \<noteq> None" using j by simp
  show "status_of (db w') i = Some (fStatus f)"
    using assms(4) q
  proof (cases rule: onStatus_cases)
    case (applied i' job w1' w2 w3)
    then have eq: "i' = i" "w1' = w1" "job = row" using assms by simp_all
    have "status_of (db w3) i = status_of (db w1) i"
      using applied eq by (simp add: status_of_def job_of_jobs [OF qInsertAuditEvent_jobs])
    then show ?thesis
      using applied(5) eq s1 deleteDeliveredBlob_job(2) [OF assms(1), where k = i and i = i and E = E and b = "ujBlobRef row" and w = w3]
      by (auto simp: status_of_def)
  qed (use assms in auto)
qed

lemma onStatus_blob_use:
  assumes "hub_ok h" "uuid_parse E (fJobID f) = Some i" "DeleteBlob h = Some del"
    "fStatus f = ''delivered'' \<Longrightarrow> (\<forall>j. job_of (db w) i = Some j \<longrightarrow> del (jBlobRef j) = del' (jBlobRef j))"
  shows "onStatus E h f w = onStatus E (h\<lparr>DeleteBlob := Some del'\<rparr>) f w"
proof -
  have q: "hubQueries h" using assms(1) by (simp add: hub_ok_def)
  obtain r w1 where r: "qUpdateJobStatus E i (fStatus f) w = (r, w1)" by fastforce
  show ?thesis
  proof (cases r)
    case (Inl e)
    then show ?thesis using r assms(2) q by (simp add: onStatus_def)
  next
    case (Inr row)
    with r obtain j where "job_of (db w) i = Some j" "ujBlobRef row = jBlobRef j"
      by (metis qUpdateJobStatus_InrD)
    then have "deleteDeliveredBlob E h i (ujBlobRef row) v = deleteDeliveredBlob E (h\<lparr>DeleteBlob := Some del'\<rparr>) i (ujBlobRef row) v"
      if "fStatus f = ''delivered''" for v
      using assms(3,4) that by (simp add: deleteDeliveredBlob_def)
    then show ?thesis using r Inr assms(2) q by (simp add: onStatus_def Let_def)
  qed
qed

section \<open>What the link publishes\<close>

context publish_history
begin

lemma hist_delete:
  assumes "\<forall>del\<in>set_option (DeleteBlob h). \<forall>b w. hist (ext (snd (del b w))) = hist (ext w)"
  shows "hist (ext (deleteDeliveredBlob E h i b w)) = hist (ext w)"
proof (cases "DeleteBlob h")
  case (Some del)
  obtain r w1 where r: "del b w = (r, w1)" by fastforce
  then have "hist (ext w1) = hist (ext w)" using assms Some by (metis option.set_intros snd_conv)
  then show ?thesis using r Some by (cases r) (simp_all add: deleteDeliveredBlob_def Let_def)
qed (simp add: deleteDeliveredBlob_def)

text \<open>A status is published once, after the row has it, and only when the row exists.\<close>

lemma onStatus_hist:
  assumes "hubQueries h" "\<forall>del\<in>set_option (DeleteBlob h). \<forall>b w. hist (ext (snd (del b w))) = hist (ext w)"
    "uuid_parse E (fJobID f) = Some i" "onStatus E h f w = Some w'"
  shows "hist (ext w') = (case fst (qUpdateJobStatus E i (fStatus f) w) of Inl _ \<Rightarrow> hist (ext w)
     | Inr _ \<Rightarrow> hist (ext w) @ [(ChanJobStatus (uuid_string E i), jsonStatusPayload f)])"
  using assms(4,1)
proof (cases rule: onStatus_cases)
  case (failed i' e)
  then show ?thesis using assms(3) obs_queries(3) [of i "fStatus f" w] by simp
next
  case (applied i' job w1 w2 w3)
  have i: "i' = i" using applied(1) assms(3) by simp
  have "hist (ext w1) = hist (ext w)" using obs_queries(3) [of i "fStatus f" w] applied(2) i by (simp del: obs_queries)
  then have h3: "hist (ext w3) = hist (ext w) @ [(ChanJobStatus (uuid_string E i), jsonStatusPayload f)]"
    using i by (simp add: applied(3,4))
  have "hist (ext w') = hist (ext w3)"
    using hist_delete [OF assms(2)] by (simp add: applied(5))
  with h3 applied(2) i show ?thesis by simp
qed (use assms in simp)

lemma hist_mirror [simp]: "hist (ext (mirrorLiveness E h m st w)) = hist (ext w)"
  by (simp add: mirrorLiveness_def split: option.splits)

lemma onState_hist:
  "hist (ext (onState E h m f w)) = hist (ext w) \<or>
   (fStatus f = ''idle'' \<and> hist (ext (onState E h m f w)) = hist (ext w) @ [(ChanAvailable m, JInt 1)])"
proof -
  let ?st = "\<lparr>psStatus = fStatus f, psSlotOccupancy = toStoreSlots (fSlotOccupancy f)\<rparr>"
  obtain r w1 where s: "SetPrinterState E m ?st w = (r, w1)" by fastforce
  then have "hist (ext w1) = hist (ext w)" using obs_store(3) [of m ?st w] by simp
  then show ?thesis using s by (cases r) (auto simp: onState_def Let_def)
qed

end

section \<open>Printers that reconnect\<close>

text \<open>
  One node's registry under any interleaving of connections: a printer may register again before
  the teardown of its old socket has run. \<^verbatim>\<open>open\<close> are the sessions between \<^verbatim>\<open>accept_begin\<close> and
  \<^verbatim>\<open>accept_end\<close>, \<^verbatim>\<open>latest\<close> the last socket each mailbox registered.
\<close>

record node =
  nRegistry :: registry
  nOpen :: "(string \<times> conn) set"
  nLatest :: "string \<Rightarrow> conn option"

definition node0 :: node where
  "node0 = \<lparr>nRegistry = [], nOpen = {}, nLatest = (\<lambda>_. None)\<rparr>"

inductive node_step :: "'s env \<Rightarrow> 's hub \<Rightarrow> node \<Rightarrow> node \<Rightarrow> bool" for E h where
  Connect: "c \<notin> snd ` nOpen n \<Longrightarrow> accept_begin E h c first (nRegistry n) w = (Established m, r, w') \<Longrightarrow>
    node_step E h n \<lparr>nRegistry = r, nOpen = insert (m, c) (nOpen n), nLatest = (nLatest n)(m \<mapsto> c)\<rparr>"
| Refuse: "c \<notin> snd ` nOpen n \<Longrightarrow> accept_begin E h c first (nRegistry n) w = (Rejected, r, w') \<Longrightarrow>
    map_of r = map_of (nRegistry n) \<Longrightarrow> node_step E h n (n\<lparr>nRegistry := r\<rparr>)"
| RefuseAfterAdd: "c \<notin> snd ` nOpen n \<Longrightarrow> accept_begin E h c first (nRegistry n) w = (Rejected, r, w') \<Longrightarrow>
    map_of r = (map_of (nRegistry n))(m := None) \<Longrightarrow>
    node_step E h n \<lparr>nRegistry = r, nOpen = nOpen n, nLatest = (nLatest n)(m := None)\<rparr>"
| Disconnect: "(m, c) \<in> nOpen n \<Longrightarrow>
    node_step E h n \<lparr>nRegistry = accept_end c m (nRegistry n), nOpen = nOpen n - {(m, c)}, nLatest = nLatest n\<rparr>"

inductive_cases node_stepE: "node_step E h n n'"

definition registry_ok :: "node \<Rightarrow> bool" where
  "registry_ok n \<longleftrightarrow> (\<forall>m. map_of (nRegistry n) m =
     (case nLatest n m of None \<Rightarrow> None | Some c \<Rightarrow> if (m, c) \<in> nOpen n then Some c else None))"

lemma accept_begin_registry:
  assumes "accept_begin E h c first r w = (res, r', w')"
  shows "(res = Established m \<longrightarrow> map_of r' = (map_of r)(m \<mapsto> c)) \<and>
    (res = Rejected \<longrightarrow> map_of r' = map_of r \<or> (\<exists>m. map_of r' = (map_of r)(m := None)))"
  using assms
  by (auto simp: accept_begin_def Let_def fun_eq_iff split: option.splits if_splits prod.splits sum.splits)

lemma node_step_registry: "node_step E h n n' \<Longrightarrow> registry_ok n \<Longrightarrow> registry_ok n'"
proof (erule node_stepE)
  fix c first m r w w'
  assume *: "registry_ok n" "c \<notin> snd ` nOpen n"
    "accept_begin E h c first (nRegistry n) w = (Established m, r, w')"
    "n' = \<lparr>nRegistry = r, nOpen = insert (m, c) (nOpen n), nLatest = (nLatest n)(m \<mapsto> c)\<rparr>"
  then have "map_of r = (map_of (nRegistry n))(m \<mapsto> c)" using accept_begin_registry by blast
  then show "registry_ok n'"
    using *(1,2) by (auto simp: registry_ok_def *(4) image_iff split: option.splits)
next
  fix c first r w w'
  assume "registry_ok n" "map_of r = map_of (nRegistry n)" "n' = n\<lparr>nRegistry := r\<rparr>"
  then show "registry_ok n'" by (auto simp: registry_ok_def split: option.splits)
next
  fix c first m r w w'
  assume "registry_ok n" "map_of r = (map_of (nRegistry n))(m := None)"
    "n' = \<lparr>nRegistry = r, nOpen = nOpen n, nLatest = (nLatest n)(m := None)\<rparr>"
  then show "registry_ok n'" by (auto simp: registry_ok_def split: option.splits)
next
  fix m c
  assume *: "registry_ok n" "(m, c) \<in> nOpen n"
    "n' = \<lparr>nRegistry = accept_end c m (nRegistry n), nOpen = nOpen n - {(m, c)}, nLatest = nLatest n\<rparr>"
  then show "registry_ok n'"
    by (auto simp: registry_ok_def accept_end_def split: option.splits)
qed

interpretation registry_steps: invariant_steps "node_step E h" registry_ok
  by unfold_locales (rule node_step_registry)

lemma registry_ok_reach: "(node_step E h)\<^sup>*\<^sup>* node0 n \<Longrightarrow> registry_ok n"
  by (rule registry_steps.steps_keep [of _ _ node0]) (simp_all add: registry_ok_def node0_def)

end
