(* ===== verification/Turns.thy ===== *)
theory Turns
  imports Dispatcher
begin

text \<open>
  A dispatcher's turn is a sequence of handled entries between reads of the stream, which leave the
  database alone. So what every handled entry does to the database, a turn does, whenever it can be
  repeated: the locale \<open>turn_relation\<close> lifts such a relation to drains and reclaims.
\<close>

locale turn_relation =
  fixes E :: "'s env" and R :: "tables \<Rightarrow> tables \<Rightarrow> bool"
  assumes R_refl: "R t t"
    and R_trans: "R t u \<Longrightarrow> R u v \<Longrightarrow> R t v"
    and R_handle: "R (db w) (db (handle E m w))"
begin

lemma batch_related: "R (db w) (db (snd (handle_batch E ms w)))"
proof (induction ms arbitrary: w)
  case (Cons m ms)
  show ?case using R_handle [of w m] Cons [of "handle E m w"] by (auto simp: Let_def intro: R_trans)
qed (simp add: R_refl)

lemma drain_batches_related: "R (db w) (db (drain_batches E node n w))"
proof (induction n arbitrary: w)
  case (Suc n)
  obtain r w1 where r: "call (r_xreadgroup E ConsumerGroup node PendingStream 10) w = (r, w1)" by fastforce
  then have d: "db w1 = db w" by (simp add: call_eqD)
  show ?case
  proof (cases "\<exists>ss. r = Inr ss \<and> ss \<noteq> [] \<and> hd ss \<noteq> []")
    case False
    then show ?thesis using r d by (cases r) (auto simp: R_refl)
  next
    case True
    then obtain ss where ss: "r = Inr ss" "ss \<noteq> []" "hd ss \<noteq> []" by blast
    obtain b w2 where b: "handle_batch E (hd ss) w1 = (b, w2)" by fastforce
    then have "R (db w) (db w2)" using batch_related [of w1 "hd ss"] d by simp
    then show ?thesis using r ss b Suc [of w2] by (cases b) (auto intro: R_trans)
  qed
qed (simp add: R_refl)

lemma drain_related: "R (db w) (db (drain E di w))"
  by (simp add: drain_def drain_batches_related)

lemma reclaim_from_related:
  assumes "reclaim_from E node start w = Some w'"
  shows "R (db w) (db w')"
proof -
  have "E' = E \<longrightarrow> R (db w) (db w')" if "reclaim_from E' node start w = Some w'" for E'
  proof (rule reclaim_from.raw_induct [where P = "\<lambda>E' node start w w'. E' = E \<longrightarrow> R (db w) (db w')", OF _ that], intro impI)
    fix rf :: "'s env \<Rightarrow> string \<Rightarrow> string \<Rightarrow> 's world \<Rightarrow> 's world option" and E' node start w w'
    assume IH: "\<And>E' node start w w'. rf E' node start w = Some w' \<Longrightarrow> E' = E \<longrightarrow> R (db w) (db w')"
      and E': "E' = E"
      and eq: "(case call (r_xautoclaim E' PendingStream ConsumerGroup node claimMinIdle start 10) w of
          (Inl _, w1) \<Rightarrow> Some w1
        | (Inr (msgs, nxt), w1) \<Rightarrow>
            (case handle_batch E' msgs w1 of
               (stopped, w2) \<Rightarrow>
                 (if stopped then Some w2
                  else if nxt = ''0-0'' \<or> msgs = [] then Some w2
                  else rf E' node nxt w2))) = Some w'"
    obtain r w1 where r: "call (r_xautoclaim E PendingStream ConsumerGroup node claimMinIdle start 10) w = (r, w1)"
      by fastforce
    then have d: "db w1 = db w" by (simp add: call_eqD)
    show "R (db w) (db w')"
    proof (cases r)
      case (Inl e)
      then show ?thesis using eq r d E' by (simp add: R_refl)
    next
      case (Inr a)
      obtain ms nxt where a: "a = (ms, nxt)" by fastforce
      obtain b w2 where b: "handle_batch E ms w1 = (b, w2)" by fastforce
      then have s: "R (db w) (db w2)" using batch_related [of w1 ms] d by simp
      from eq r Inr a b E' have "w' = w2 \<or> rf E node nxt w2 = Some w'" by (auto split: if_splits)
      then show ?thesis using s IH R_trans by blast
    qed
  qed
  then show ?thesis using assms by blast
qed

lemma reclaim_related: "reclaim E di w = Some w' \<Longrightarrow> R (db w) (db w')"
  unfolding reclaim_def by (rule reclaim_from_related)

end

end
