(* ===== verification/Cloud_Main.thy ===== *)
theory Cloud_Main
  imports Zero_Knowledge Hub_Facts Turns
begin

text \<open>
  \<^verbatim>\<open>services/cloud/main.go\<close> and \<^verbatim>\<open>shutdown.go\<close>: the routing table with the guard in front of each
  handler, the hub as \<^verbatim>\<open>main\<close> wires it, everything that can happen to a node's world as one step
  relation, and the shutdown sequence.
\<close>

section \<open>Routes\<close>

datatype endpoint = GetHealthz | GetLivez | GetRecipients | GetPublicKey | PostUploadURL | PostJobs
  | GetJobs | GetJobStream | PostRegister | PostLogin | PostRefresh | PostLogout
  | GetAdminSummary | GetAdminJobs | GetAdminMailboxes

fun mux :: "'s env \<Rightarrow> 's server \<Rightarrow> bool \<Rightarrow> stream_event list \<Rightarrow> endpoint \<Rightarrow> 's handler" where
  "mux E s sok evs GetHealthz = Healthz E s"
| "mux E s sok evs GetLivez = Livez"
| "mux E s sok evs GetRecipients = SearchRecipients_handler E s"
| "mux E s sok evs GetPublicKey = RecipientPublicKey E"
| "mux E s sok evs PostUploadURL = optionalAuth E (UploadURL E s)"
| "mux E s sok evs PostJobs = optionalAuth E (CreateJob E)"
| "mux E s sok evs GetJobs = requireAuth E (ListMyJobs E)"
| "mux E s sok evs GetJobStream = optionalAuth E (StreamJob E sok evs)"
| "mux E s sok evs PostRegister = Register E s"
| "mux E s sok evs PostLogin = Login E s"
| "mux E s sok evs PostRefresh = Refresh E s"
| "mux E s sok evs PostLogout = requireAuth E (Logout E)"
| "mux E s sok evs GetAdminSummary = requireAdmin E (AdminSummary E)"
| "mux E s sok evs GetAdminJobs = requireAdmin E (AdminJobs E)"
| "mux E s sok evs GetAdminMailboxes = requireAdmin E (AdminMailboxes E)"

definition public_handler :: "'s env \<Rightarrow> 's server \<Rightarrow> string \<Rightarrow> bool \<Rightarrow> stream_event list \<Rightarrow> endpoint \<Rightarrow> 's handler" where
  "public_handler E s nodeID sok evs ep = nodeHeader nodeID (mux E s sok evs ep)"

definition admin_endpoint :: "endpoint \<Rightarrow> bool" where
  "admin_endpoint ep \<longleftrightarrow> ep = GetAdminSummary \<or> ep = GetAdminJobs \<or> ep = GetAdminMailboxes"

text \<open>The hub as \<^verbatim>\<open>main\<close> builds it.\<close>

definition main_hub :: "'s env \<Rightarrow> 's hub" where
  "main_hub E = \<lparr>hubQueries = True, DeleteBlob = Some (RemoveBlob E)\<rparr>"

lemma main_hub_ok [simp]: "hub_ok (main_hub E)"
  by (simp add: hub_ok_def main_hub_def)

section \<open>Every request works through the statements\<close>

lemma optionalAuth_cases: "\<exists>r'. optionalAuth E next r w = next r' w"
  by (auto simp: optionalAuth_def split: option.splits sum.splits)

lemma requireAuth_cases: "(\<exists>r'. requireAuth E next r w = next r' w) \<or> snd (requireAuth E next r w) = w"
  by (auto simp: requireAuth_def split: option.splits sum.splits)

lemma requireAdmin_cases: "(\<exists>r'. requireAdmin E next r w = next r' w) \<or> snd (requireAdmin E next r w) = w"
  by (auto simp: requireAdmin_def split: option.splits sum.splits)

lemma insert_job_stepsD: "qInsertJob E p w = (x, w') \<Longrightarrow> db_steps (db w) (db w')"
  using query_steps(1) [of w E p] by simp

lemma audit_stepsD: "qInsertAuditEvent E j a u w = (x, w') \<Longrightarrow> db_steps (db w) (db w')"
  using query_steps(2) [of w E j a u] by simp

lemma TryDispatch_stepsD: "TryDispatch E f w = (x, w') \<Longrightarrow> db_steps (db w) (db w')"
  using attempt_steps [of w E f] TryDispatch_db [of E f w] by simp

lemma ResolveRecipient_db: "pg E (ResolveRecipient i) w = (x, w1) \<Longrightarrow> db w1 = db w"
  by (rule pg_read_db [rotated], assumption) simp

lemma BlobExists_db: "BlobExists E b w = (x, w1) \<Longrightarrow> db w1 = db w"
  using minio_db(5) [of E b w] by simp

lemma job_owner_db: "job_owner E r w = (x, w1) \<Longrightarrow> db w1 = db w"
  using newOpaqueToken_db [of E w]
  by (auto simp: job_owner_def simp del: newOpaqueToken_db split: option.splits prod.splits sum.splits)

lemma CreateJob_steps: "db_steps (db w) (db (snd (CreateJob E r w)))"
  by (auto simp: CreateJob_def split: option.splits prod.splits sum.splits
      dest!: ResolveRecipient_db BlobExists_db job_owner_db insert_job_stepsD audit_stepsD TryDispatch_stepsD
      intro: rtranclp_trans)

lemma UploadURL_db: "db (snd (UploadURL E s r w)) = db w"
  using minio_db(2) [of "uploadPresigner E s" uploadTTL w]
  by (auto simp: UploadURL_def simp del: minio_db split: option.splits prod.splits sum.splits)

lemma Healthz_db: "db (snd (Healthz E s r w)) = db w"
proof -
  obtain x w1 where x: "pg E (\<lambda>t. (Inr (), t)) w = (x, w1)" by fastforce
  have "db w1 = db w" by (rule pg_read_db [OF _ x]) simp
  then show ?thesis using x by (cases x) (auto simp: Healthz_def dest: call_eqD split: prod.splits sum.splits)
qed

lemma SearchRecipients_handler_db: "db (snd (SearchRecipients_handler E s r w)) = db w"
proof -
  let ?q = "SearchRecipients (pgp_decrypt E (AppKey s)) (pg_collate E) (query_get r ''q'')"
  obtain x w1 where x: "pg E ?q w = (x, w1)" by fastforce
  have "db w1 = db w" by (rule pg_read_db [OF _ x]) simp
  then show ?thesis using x by (cases x) (auto simp: SearchRecipients_handler_def Let_def)
qed

lemma reading_db:
  "db (snd (RecipientPublicKey E r w)) = db w" "db (snd (ListMyJobs E r w)) = db w"
  "db (snd (StreamJob E sok evs r w)) = db w" "db (snd (AdminJobs E r w)) = db w"
  "db (snd (AdminSummary E r w)) = db w" "db (snd (AdminMailboxes E r w)) = db w"
proof -
  have g: "pg E (GetJobForStream i) w = (x, w') \<Longrightarrow> db w' = db w" for i x w w'
    by (rule pg_read_db [rotated], assumption) simp
  have s: "pg E (GetJobsBySender i) w = (x, w') \<Longrightarrow> db w' = db w" for i x w w'
    by (rule pg_read_db [rotated], assumption) simp
  have a: "pg E (AdminListJobs st off lim) w = (x, w') \<Longrightarrow> db w' = db w" for st off lim x w w'
    by (rule pg_read_db [rotated], assumption) simp
  have c: "pg E (AdminCountJobs st) w = (x, w') \<Longrightarrow> db w' = db w" for st x w w'
    by (rule pg_read_db [rotated], assumption) simp
  have n: "pg E AdminJobStatusCounts w = (x, w') \<Longrightarrow> db w' = db w" for x w w'
    by (rule pg_read_db [rotated], assumption) simp
  have d: "pg E (AdminCountDeliveredSince t) w = (x, w') \<Longrightarrow> db w' = db w" for t x w w'
    by (rule pg_read_db [rotated], assumption) simp
  have m: "pg E (AdminListMailboxes t) w = (x, w') \<Longrightarrow> db w' = db w" for t x w w'
    by (rule pg_read_db [rotated], assumption) simp
  have l: "pg E AdminListSlots w = (x, w') \<Longrightarrow> db w' = db w" for x w w'
    by (rule pg_read_db [rotated], assumption) simp
  have v: "db (snd (mailbox_views E sls mbs w)) = db w" for sls mbs w
  proof (induction mbs arbitrary: w)
    case (Cons mb mbs)
    obtain x w1 where x: "LookupPrinterState E (uuid_string E (amMailboxID mb)) w = (x, w1)" by fastforce
    then have "db w1 = db w" using LookupPrinterState_db [of E "uuid_string E (amMailboxID mb)" w] by simp
    then show ?case using x Cons [of w1] by (cases x) (auto split: prod.splits sum.splits)
  qed simp
  have v': "mailbox_views E sls mbs w = (x, w') \<Longrightarrow> db w' = db w" for sls mbs x w w' using v [of sls mbs w] by simp
  show "db (snd (RecipientPublicKey E r w)) = db w"
    by (auto simp: RecipientPublicKey_def dest!: ResolveRecipient_db split: option.splits prod.splits sum.splits)
  show "db (snd (ListMyJobs E r w)) = db w"
    by (auto simp: ListMyJobs_def dest!: s split: option.splits prod.splits sum.splits)
  show "db (snd (StreamJob E sok evs r w)) = db w"
    by (auto simp: StreamJob_def Let_def dest!: g call_eqD split: option.splits prod.splits sum.splits)
  show "db (snd (AdminJobs E r w)) = db w"
    by (auto simp: AdminJobs_def Let_def dest!: a c split: prod.splits sum.splits)
  show "db (snd (AdminSummary E r w)) = db w"
    by (auto simp: AdminSummary_def dest!: n d split: prod.splits sum.splits)
  show "db (snd (AdminMailboxes E r w)) = db w"
    by (auto simp: AdminMailboxes_def dest!: m l v' split: prod.splits sum.splits)
qed

lemma guard_steps:
  assumes "\<And>r. db_steps (db w) (db (snd (next r w)))"
  shows "db_steps (db w) (db (snd (optionalAuth E next r w)))" "db_steps (db w) (db (snd (requireAuth E next r w)))"
    "db_steps (db w) (db (snd (requireAdmin E next r w)))"
proof -
  show "db_steps (db w) (db (snd (optionalAuth E next r w)))"
    using assms optionalAuth_cases [of E "next" r w] by metis
  show "db_steps (db w) (db (snd (requireAuth E next r w)))"
    using assms requireAuth_cases [of E "next" r w] by (metis rtranclp.rtrancl_refl)
  show "db_steps (db w) (db (snd (requireAdmin E next r w)))"
    using assms requireAdmin_cases [of E "next" r w] by (metis rtranclp.rtrancl_refl)
qed

lemma mux_steps: "db_steps (db w) (db (snd (mux E s sok evs ep r w)))"
  by (cases ep) (simp_all add: guard_steps CreateJob_steps UploadURL_db Healthz_db Livez_def reading_db
      SearchRecipients_handler_db Register_steps Login_steps Refresh_steps Logout_steps)

lemma public_handler_steps: "db_steps (db w) (db (snd (public_handler E s nodeID sok evs ep r w)))"
  using mux_steps [of w E s sok evs ep r]
  by (cases "mux E s sok evs ep r w") (simp add: public_handler_def nodeHeader_def)

text \<open>No reading endpoint can tell apart two databases that differ in keys and blob references only.\<close>

definition reading_endpoint :: "endpoint \<Rightarrow> bool" where
  "reading_endpoint ep \<longleftrightarrow> ep \<in> {GetHealthz, GetLivez, GetRecipients, GetPublicKey, GetJobs, GetJobStream,
     GetAdminSummary, GetAdminJobs, GetAdminMailboxes}"

lemma public_handler_blind:
  assumes "reading_endpoint ep"
  shows "blind_handler (public_handler E s n sok evs ep)"
proof -
  have "blind_handler (mux E s sok evs ep)"
    using assms Healthz_blind Livez_blind SearchRecipients_blind RecipientPublicKey_blind
      wrappers_blind [OF ListMyJobs_blind] wrappers_blind [OF StreamJob_blind]
      wrappers_blind [OF AdminJobs_blind] wrappers_blind [OF AdminSummary_blind]
      wrappers_blind [OF AdminMailboxes_blind]
    by (auto simp: reading_endpoint_def simp del: split_paired_All)
  from wrappers_blind(4) [OF this, of n] show ?thesis by (simp add: public_handler_def [abs_def] fun_eq_iff)
qed

section \<open>The dispatcher works through the statements\<close>

lemma ack_db [simp]: "db (ack E i w) = db w"
  by (simp add: ack_def)

lemma handle_steps: "db_steps (db w) (db (handle E m w))"
proof -
  have "db_steps (db w) (db w1)" if "Retry E f w = (x, w1)" for f x w1
    using attempt_steps [of w E f] Retry_db [of E f w] that by simp
  then show ?thesis
    by (auto simp: handle_def split: prod.splits sum.splits)
qed

interpretation db_turns: turn_relation E db_steps for E
  by unfold_locales (auto intro: handle_steps)

lemma deleteConsumer_db: "db (snd (deleteConsumerIfDrained E name w)) = db w"
  by (auto simp: deleteConsumerIfDrained_def dest!: call_eqD
      split: prod.splits sum.splits go_error.splits if_splits)

lemma RemoveConsumer_db: "db (snd (RemoveConsumer E di w)) = db w"
  using deleteConsumer_db [of E "NodeID di" w] by (auto simp: RemoveConsumer_def split: prod.splits sum.splits)

lemma reap_db: "db (ReapStaleConsumers E di w) = db w"
proof -
  have *: "db (reap_each E di cs w) = db w" for cs w
    by (induction cs arbitrary: w) (simp_all add: deleteConsumer_db)
  show ?thesis by (auto simp: ReapStaleConsumers_def * dest!: call_eqD split: prod.splits sum.splits)
qed

section \<open>Everything that can happen\<close>

inductive world_step :: "'s env \<Rightarrow> 's server \<Rightarrow> 's world \<Rightarrow> 's world \<Rightarrow> bool" for E s where
  Request: "world_step E s w (snd (public_handler E s nodeID sok evs ep r w))"
| LinkFrames: "readLoop E (main_hub E) m xs w = Some w' \<Longrightarrow> world_step E s w w'"
| Register: "accept_begin E (main_hub E) c first reg w = (res, reg', w') \<Longrightarrow> world_step E s w w'"
| Drain: "world_step E s w (drain E di w)"
| Reclaim: "reclaim E di w = Some w' \<Longrightarrow> world_step E s w w'"
| Reap: "world_step E s w (ReapStaleConsumers E di w)"
| Leave: "world_step E s w (snd (RemoveConsumer E di w))"
| Services: "world_step E s w (w\<lparr>ext := x\<rparr>)"

lemma accept_begin_steps: "db_steps (db w) (db (snd (snd (accept_begin E h c first r w))))"
proof -
  have m: "db_steps (db w1) (db (mirrorLiveness E h mb st w2))" if "db w2 = db w1" for w1 w2 mb st
    using db_mirrorLiveness [of w2 E h mb st] that by simp
  have s: "db (snd (SetPrinterState E mb st w1)) = db w1" for mb st w1 by simp
  show ?thesis
    by (auto simp: accept_begin_def Let_def dest!: call_eqD intro!: m split: option.splits prod.splits sum.splits)
qed

lemma world_step_db: "world_step E s w w' \<Longrightarrow> db_steps (db w) (db w')"
proof (induction rule: world_step.induct)
  case (LinkFrames m xs w w')
  then show ?case using readLoop_steps [OF main_hub_ok [of E], where E = E and m = m and xs = xs and w = w] by auto
next
  case (Register c first reg w res reg' w')
  then show ?case using accept_begin_steps [of w E "main_hub E" c first reg] by simp
qed (simp_all add: public_handler_steps db_turns.drain_related db_turns.reclaim_related reap_db RemoveConsumer_db)

interpretation world_mono: monotone_steps "world_step E s" "\<lambda>w w'. db_le (db w) (db w')"
  by unfold_locales (auto intro: db_mono.le_refl db_mono.le_trans db_mono.steps_le [OF world_step_db])

interpretation world_schema: invariant_steps "world_step E s" "\<lambda>w. schema_ok (db w)"
  by unfold_locales (rule db_schema.steps_keep [OF world_step_db])

section \<open>Shutdown\<close>

type_synonym 'p step = "string \<times> ('p \<Rightarrow> unit res \<times> 'p)"

text \<open>The log of \<^verbatim>\<open>runShutdown\<close>: each step's name and whether it failed.\<close>

fun runShutdown :: "'p step list \<Rightarrow> 'p \<Rightarrow> (string \<times> bool) list \<times> 'p" where
  "runShutdown [] p = ([], p)"
| "runShutdown ((name, run) # steps) p =
     (case run p of
        (Inl _, p1) \<Rightarrow> (case runShutdown steps p1 of (l, p2) \<Rightarrow> ((name, True) # l, p2))
      | (Inr _, p1) \<Rightarrow> (case runShutdown steps p1 of (l, p2) \<Rightarrow> ((name, False) # l, p2)))"

record 's process =
  prWorld :: "'s world"
  prDraining :: bool
  prStopDispatcher :: bool
  prSockets :: "close_act list list"
  prPublicDown :: bool
  prInternalDown :: bool

definition waitFor :: "bool \<Rightarrow> unit res" where
  "waitFor done_first = (if done_first then Inr () else Inl (Err ''context deadline exceeded''))"

definition main_steps :: "'s env \<Rightarrow> Dispatcher \<Rightarrow> bool \<Rightarrow> registry \<Rightarrow> (conn \<Rightarrow> bool) \<Rightarrow> unit res
    \<Rightarrow> unit res option \<Rightarrow> 's process step list" where
  "main_steps E di loop_returns reg closes public_shutdown internal_shutdown =
     [(''signal-drain'', \<lambda>p. (Inr (), p\<lparr>prDraining := True\<rparr>)),
      (''dispatcher-loop'', \<lambda>p. (waitFor loop_returns, p\<lparr>prStopDispatcher := True\<rparr>)),
      (''consumer-group'', \<lambda>p. case RemoveConsumer E di (prWorld p) of (r, w) \<Rightarrow> (r, p\<lparr>prWorld := w\<rparr>)),
      (''printer-sockets'', \<lambda>p. (Inr (), p\<lparr>prSockets := Hub_Close closes reg\<rparr>)),
      (''public-listener'', \<lambda>p. (public_shutdown, p\<lparr>prPublicDown := True\<rparr>)),
      (''internal-listener'', \<lambda>p. case internal_shutdown of None \<Rightarrow> (Inr (), p)
         | Some r \<Rightarrow> (r, p\<lparr>prInternalDown := True\<rparr>))]"

lemma runShutdown_all:
  "map fst (fst (runShutdown steps p)) = map fst steps"
  "snd (runShutdown steps p) = foldl (\<lambda>q s. snd (snd s q)) p steps"
  by (induction steps p rule: runShutdown.induct) (auto split: prod.splits sum.splits)

lemma main_shutdown:
  assumes "runShutdown (main_steps E di lr reg closes pub internal) p = (log, p')"
  shows "map fst log = [''signal-drain'', ''dispatcher-loop'', ''consumer-group'', ''printer-sockets'',
      ''public-listener'', ''internal-listener'']"
    "prDraining p'" "prStopDispatcher p'" "prPublicDown p'" "internal \<noteq> None \<Longrightarrow> prInternalDown p'"
    "prSockets p' = Hub_Close closes reg" "prWorld p' = snd (RemoveConsumer E di (prWorld p))"
proof -
  have p': "p' = foldl (\<lambda>q s. snd (snd s q)) p (main_steps E di lr reg closes pub internal)"
    using runShutdown_all(2) [of "main_steps E di lr reg closes pub internal" p] assms by simp
  have l: "map fst log = map fst (main_steps E di lr reg closes pub internal)"
    using runShutdown_all(1) [of "main_steps E di lr reg closes pub internal" p] assms by simp
  show "map fst log = [''signal-drain'', ''dispatcher-loop'', ''consumer-group'', ''printer-sockets'',
      ''public-listener'', ''internal-listener'']" by (simp add: l main_steps_def)
  show "prDraining p'" "prStopDispatcher p'" "prPublicDown p'" "internal \<noteq> None \<Longrightarrow> prInternalDown p'"
    "prSockets p' = Hub_Close closes reg" "prWorld p' = snd (RemoveConsumer E di (prWorld p))"
    by (auto simp: p' main_steps_def split: prod.splits option.splits)
qed

end
