(* ===== verification/Claim_System.thy ===== *)
theory Claim_System
  imports Route_Facts
begin

text \<open>
  Several nodes dispatching one job at the same time. A node's attempt (\<^verbatim>\<open>claimJob\<close> and
  \<^verbatim>\<open>attemptDispatch\<close> of \<^verbatim>\<open>route.go\<close>) is cut at every statement it sends to Postgres and at its
  PUBLISH; the steps of all nodes interleave freely, any of them may fail or its node may crash,
  and the printer's status updates come in between. The database effects are the statements of
  \<^verbatim>\<open>Tables\<close> themselves. Printers report on a job only after some frame for it reached one.
\<close>

section \<open>States and steps\<close>

datatype phase = Idle | Locked | Marked | Claimed | Reverting

record claim_state =
  cDb :: tables
  cLock :: "nat option"
  cPhase :: "nat \<Rightarrow> phase"
  cSent :: nat

definition goto :: "nat \<Rightarrow> phase \<Rightarrow> claim_state \<Rightarrow> claim_state" where
  "goto n p s = s\<lparr>cPhase := (cPhase s)(n := p)\<rparr>"

definition report :: "string \<Rightarrow> bool" where
  "report st \<longleftrightarrow> st = ''printing'' \<or> st = ''delivered'' \<or> st = ''failed''"

text \<open>With \<^verbatim>\<open>lossy\<close>, the reply of a PUBLISH that reached the printer may be lost.\<close>

inductive claim_step :: "bool \<Rightarrow> uuid \<Rightarrow> claim_state \<Rightarrow> claim_state \<Rightarrow> bool" for lossy i where
  Lock: "cPhase s n = Idle \<Longrightarrow> fst (LockJobForDispatch (\<lambda>_. cLock s \<noteq> None) i (cDb s)) = Inr j \<Longrightarrow>
    claim_step lossy i s (goto n Locked (s\<lparr>cLock := Some n\<rparr>))"
| Refused: "cPhase s n = Idle \<Longrightarrow> fst (LockJobForDispatch (\<lambda>_. cLock s \<noteq> None) i (cDb s)) = Inl e \<Longrightarrow>
    claim_step lossy i s s"
| Mark: "cPhase s n = Locked \<Longrightarrow> claim_step lossy i s (goto n Marked s)"
| Rollback: "cPhase s n = Locked \<or> cPhase s n = Marked \<Longrightarrow>
    claim_step lossy i s (goto n Idle (s\<lparr>cLock := None\<rparr>))"
| Commit: "cPhase s n = Marked \<Longrightarrow>
    claim_step lossy i s (goto n Claimed (s\<lparr>cLock := None, cDb := snd (MarkJobDispatching i (cDb s))\<rparr>))"
| CommitUnanswered: "cPhase s n = Marked \<Longrightarrow>
    claim_step lossy i s (goto n Idle (s\<lparr>cLock := None, cDb := snd (MarkJobDispatching i (cDb s))\<rparr>))"
| Deliver: "cPhase s n = Claimed \<Longrightarrow> claim_step lossy i s (goto n Idle (s\<lparr>cSent := cSent s + 1\<rparr>))"
| NoReceiver: "cPhase s n = Claimed \<Longrightarrow> claim_step lossy i s (goto n Reverting s)"
| DeliverUnanswered: "lossy \<Longrightarrow> cPhase s n = Claimed \<Longrightarrow>
    claim_step lossy i s (goto n Reverting (s\<lparr>cSent := cSent s + 1\<rparr>))"
| Revert: "cPhase s n = Reverting \<Longrightarrow> cLock s = None \<Longrightarrow>
    claim_step lossy i s (goto n Idle (s\<lparr>cDb := snd (RequeueJob i (cDb s))\<rparr>))"
| RevertFailed: "cPhase s n = Reverting \<Longrightarrow> claim_step lossy i s (goto n Idle s)"
| Crash: "cPhase s n = Claimed \<Longrightarrow> claim_step lossy i s (goto n Idle s)"
| Report: "0 < cSent s \<Longrightarrow> cLock s = None \<Longrightarrow> report st \<Longrightarrow>
    claim_step lossy i s (s\<lparr>cDb := snd (UpdateJobStatus now i st (cDb s))\<rparr>)"
| Elsewhere: "status_of t i = status_of (cDb s) i \<Longrightarrow> claim_step lossy i s (s\<lparr>cDb := t\<rparr>)"

inductive_cases claim_stepE: "claim_step lossy i s s'"

inductive_simps claim_step_simps: "claim_step lossy i s s'"

definition claim_start :: "uuid \<Rightarrow> claim_state \<Rightarrow> bool" where
  "claim_start i s \<longleftrightarrow> cLock s = None \<and> (\<forall>n. cPhase s n = Idle) \<and> cSent s = 0"

lemma goto_sel [simp]:
  "cDb (goto n p s) = cDb s" "cLock (goto n p s) = cLock s" "cSent (goto n p s) = cSent s"
  "cPhase (goto n p s) k = (if k = n then p else cPhase s k)"
  by (simp_all add: goto_def)

lemma status_of_update [simp]:
  "status_of (snd (UpdateJobStatus now i st t)) i = map_option (\<lambda>_. st) (status_of t i)"
  by (auto simp: UpdateJobStatus_def status_of_def option.map_comp comp_def split: option.splits)

section \<open>Mutual exclusion\<close>

definition owns :: "claim_state \<Rightarrow> nat \<Rightarrow> bool" where
  "owns s n \<longleftrightarrow> cPhase s n = Claimed \<or> cPhase s n = Reverting"

text \<open>
  The lock is held by exactly the node inside its transaction, over a claimable row; at most one
  node owns the job, and then the row is not claimable; a delivered job is not claimable and has
  no owner.
\<close>

definition claim_inv :: "uuid \<Rightarrow> claim_state \<Rightarrow> bool" where
  "claim_inv i s \<longleftrightarrow>
     (\<forall>n. (cPhase s n = Locked \<or> cPhase s n = Marked) \<longleftrightarrow> cLock s = Some n) \<and>
     (cLock s \<noteq> None \<longrightarrow> claimable_in (cDb s) i) \<and>
     (\<forall>n m. owns s n \<longrightarrow> owns s m \<longrightarrow> n = m) \<and>
     (\<forall>n. owns s n \<longrightarrow> \<not> claimable_in (cDb s) i)"

definition once_inv :: "uuid \<Rightarrow> claim_state \<Rightarrow> bool" where
  "once_inv i s \<longleftrightarrow> cSent s \<le> 1 \<and> (0 < cSent s \<longrightarrow> \<not> claimable_in (cDb s) i \<and> (\<forall>n. \<not> owns s n))"

lemma claimable_mark: "claimable_in (mark i st t) i \<longleftrightarrow> claimable st \<and> status_of t i \<noteq> None"
  by (auto simp: claimable_in_def split: option.splits)

lemma claimable_report: "report st \<Longrightarrow> \<not> claimable_in (snd (UpdateJobStatus now i st t)) i"
  by (auto simp: claimable_in_def report_def claimable_def split: option.splits)

lemma Lock_InrD: "fst (LockJobForDispatch l i t) = Inr j \<Longrightarrow> claimable_in t i \<and> \<not> l i"
  by (auto simp: LockJob_cases split: if_splits)

lemma claim_inv_step: "claim_step lossy i s s' \<Longrightarrow> claim_inv i s \<Longrightarrow> claim_inv i s'"
proof (induction rule: claim_step.induct)
  case (Lock s n j)
  from Lock_InrD [OF Lock(2)] have "claimable_in (cDb s) i" "cLock s = None" by auto
  with Lock show ?case by (auto simp: claim_inv_def owns_def)
next
  case (Commit s n)
  then have "cLock s = Some n" by (auto simp: claim_inv_def)
  with Commit show ?case by (auto simp: claim_inv_def owns_def claimable_mark)
next
  case (CommitUnanswered s n)
  then have "cLock s = Some n" by (auto simp: claim_inv_def)
  with CommitUnanswered show ?case by (auto simp: claim_inv_def owns_def claimable_mark)
next
  case (Rollback s n)
  then have "cLock s = Some n" by (auto simp: claim_inv_def)
  with Rollback show ?case by (auto simp: claim_inv_def owns_def)
next
  case (Revert s n)
  then show ?case by (auto simp: claim_inv_def owns_def)
next
  case (Report s st now)
  then show ?case by (auto simp: claim_inv_def owns_def claimable_report)
next
  case (Elsewhere t s)
  then show ?case using claimable_status [OF Elsewhere(1)] by (simp add: claim_inv_def owns_def)
qed (auto simp: claim_inv_def owns_def split: if_splits)

interpretation claim_exclusion: invariant_steps "claim_step lossy i" "claim_inv i"
  by unfold_locales (rule claim_inv_step)

lemma claim_start_inv: "claim_start i s \<Longrightarrow> claim_inv i s"
  by (auto simp: claim_start_def claim_inv_def owns_def)

section \<open>At most one delivery\<close>

lemma once_inv_step:
  "claim_step lossy i s s' \<Longrightarrow> \<not> lossy \<Longrightarrow> claim_inv i s \<and> once_inv i s \<Longrightarrow> claim_inv i s' \<and> once_inv i s'"
proof (rule conjI)
  assume step: "claim_step lossy i s s'" and l: "\<not> lossy" and inv: "claim_inv i s \<and> once_inv i s"
  show "claim_inv i s'" using claim_inv_step [OF step] inv by blast
  from step l inv show "once_inv i s'"
  proof (induction rule: claim_step.induct)
    case (Lock s n j)
    with Lock_InrD [OF Lock(2)] show ?case by (auto simp: once_inv_def owns_def)
  next
    case (Commit s n)
    then have "claimable_in (cDb s) i" by (auto simp: claim_inv_def)
    with Commit show ?case by (auto simp: once_inv_def owns_def claimable_mark)
  next
    case (CommitUnanswered s n)
    then have "claimable_in (cDb s) i" by (auto simp: claim_inv_def)
    with CommitUnanswered show ?case by (auto simp: once_inv_def owns_def claimable_mark)
  next
    case (Deliver s n)
    then have "owns s n" by (simp add: owns_def)
    with Deliver have "cSent s = 0" "\<not> claimable_in (cDb s) i" "\<forall>m. owns s m \<longrightarrow> m = n"
      by (auto simp: once_inv_def claim_inv_def)
    then show ?case by (auto simp: once_inv_def owns_def)
  next
    case (Revert s n)
    then have "owns s n" by (simp add: owns_def)
    with Revert show ?case by (auto simp: once_inv_def)
  next
    case (Report s st now)
    then show ?case by (auto simp: once_inv_def owns_def claimable_report)
  next
    case (Elsewhere t s)
    then show ?case using claimable_status [OF Elsewhere(1)] by (simp add: once_inv_def owns_def)
  qed (auto simp: once_inv_def owns_def split: if_splits)
qed

interpretation claim_once: invariant_steps "claim_step False i" "\<lambda>s. claim_inv i s \<and> once_inv i s"
  by unfold_locales (erule once_inv_step; simp)

lemma once_reach: "(claim_step False i)\<^sup>*\<^sup>* s s' \<Longrightarrow> claim_start i s \<Longrightarrow> cSent s' \<le> 1"
  using claim_once.steps_keep [of i s s'] claim_start_inv [of i s]
  by (auto simp: once_inv_def claim_start_def)

section \<open>The code takes these steps\<close>

text \<open>A claim that succeeds in \<^verbatim>\<open>claimJob\<close> is the path Lock, Mark, Commit.\<close>

lemma claimJob_path:
  assumes "claimJob E js w = (Inr claimed, w')" "uuid_parse E js = Some i"
    "cDb s = db w" "cLock s = None" "cPhase s n = Idle"
  shows "(claim_step lossy i)\<^sup>*\<^sup>* s (goto n Claimed (s\<lparr>cDb := db w'\<rparr>))"
proof -
  from claimJob_InrD [OF assms(1,2)] have c: "claimable_in (db w) i" "db w' = mark i dispatching (db w)" by simp_all
  let ?s1 = "goto n Locked (s\<lparr>cLock := Some n\<rparr>)"
  let ?s2 = "goto n Marked ?s1"
  have "fst (LockJobForDispatch (\<lambda>_. cLock s \<noteq> None) i (cDb s)) = Inr (the (job_of (cDb s) i))"
    using c assms by (simp add: LockJob_cases)
  then have 1: "claim_step lossy i s ?s1" using assms(5) by (rule claim_step.Lock [rotated])
  have 2: "claim_step lossy i ?s1 ?s2" by (rule claim_step.Mark) simp
  have 3: "claim_step lossy i ?s2 (goto n Claimed (?s2\<lparr>cLock := None, cDb := snd (MarkJobDispatching i (cDb ?s2))\<rparr>))"
    by (rule claim_step.Commit) simp
  have "goto n Claimed (?s2\<lparr>cLock := None, cDb := snd (MarkJobDispatching i (cDb ?s2))\<rparr>) = goto n Claimed (s\<lparr>cDb := db w'\<rparr>)"
    using assms c by (simp add: goto_def)
  with 1 2 3 show ?thesis by (metis converse_rtranclp_into_rtranclp rtranclp.rtrancl_refl)
qed

text \<open>The end of an attempt, from the claim on: delivered, or given up and reverted or not.\<close>

lemma deliver_path:
  assumes "cPhase t n = Claimed" "status_of d i = status_of (cDb t) i"
  shows "(claim_step lossy i)\<^sup>*\<^sup>* t (goto n Idle (t\<lparr>cDb := d, cSent := Suc (cSent t)\<rparr>))"
proof -
  let ?u = "goto n Idle (t\<lparr>cSent := cSent t + 1\<rparr>)"
  have 1: "claim_step lossy i t ?u" using assms(1) by (rule claim_step.Deliver)
  have 2: "claim_step lossy i ?u (?u\<lparr>cDb := d\<rparr>)" by (rule claim_step.Elsewhere) (simp add: assms(2))
  have "?u\<lparr>cDb := d\<rparr> = goto n Idle (t\<lparr>cDb := d, cSent := Suc (cSent t)\<rparr>)" by (simp add: goto_def)
  with 1 2 show ?thesis by (metis converse_rtranclp_into_rtranclp rtranclp.rtrancl_refl)
qed

lemma revert_path:
  assumes "cPhase t n = Reverting" "cLock t = None" "d = cDb t \<or> d = mark i ''queued'' (cDb t)"
  shows "claim_step lossy i t (goto n Idle (t\<lparr>cDb := d\<rparr>))"
  using assms(3)
proof
  assume "d = cDb t"
  then have "goto n Idle (t\<lparr>cDb := d\<rparr>) = goto n Idle t" by simp
  then show ?thesis using claim_step.RevertFailed [OF assms(1), of lossy i] by simp
next
  assume "d = mark i ''queued'' (cDb t)"
  then show ?thesis using claim_step.Revert [OF assms(1,2), of lossy i] by simp
qed

lemma give_up_path:
  assumes "cPhase t n = Claimed" "cLock t = None" "d = cDb t \<or> d = mark i ''queued'' (cDb t)"
    and k: "k = cSent t \<or> lossy \<and> k = Suc (cSent t)"
  shows "(claim_step lossy i)\<^sup>*\<^sup>* t (goto n Idle (t\<lparr>cDb := d, cSent := k\<rparr>))"
proof -
  let ?u = "goto n Reverting (t\<lparr>cSent := k\<rparr>)"
  have 1: "claim_step lossy i t ?u"
    using k claim_step.NoReceiver [OF assms(1), of lossy i] claim_step.DeliverUnanswered [of lossy t n i] assms(1)
    by auto
  have 2: "claim_step lossy i ?u (goto n Idle (?u\<lparr>cDb := d\<rparr>))"
    by (rule revert_path) (use assms in auto)
  have "goto n Idle (?u\<lparr>cDb := d\<rparr>) = goto n Idle (t\<lparr>cDb := d, cSent := k\<rparr>)" by (simp add: goto_def)
  with 1 2 show ?thesis by (metis converse_rtranclp_into_rtranclp rtranclp.rtrancl_refl)
qed

text \<open>A claim whose COMMIT was not answered may have happened all the same.\<close>

lemma unanswered_path:
  assumes "claimable_in (cDb s) i" "cLock s = None" "cPhase s n = Idle"
  shows "(claim_step lossy i)\<^sup>*\<^sup>* s (s\<lparr>cDb := mark i dispatching (cDb s)\<rparr>)"
proof -
  let ?s1 = "goto n Locked (s\<lparr>cLock := Some n\<rparr>)"
  let ?s2 = "goto n Marked ?s1"
  have "fst (LockJobForDispatch (\<lambda>_. cLock s \<noteq> None) i (cDb s)) = Inr (the (job_of (cDb s) i))"
    using assms by (simp add: LockJob_cases)
  then have 1: "claim_step lossy i s ?s1" using assms(3) by (rule claim_step.Lock [rotated])
  have 2: "claim_step lossy i ?s1 ?s2" by (rule claim_step.Mark) simp
  have 3: "claim_step lossy i ?s2 (goto n Idle (?s2\<lparr>cLock := None, cDb := snd (MarkJobDispatching i (cDb ?s2))\<rparr>))"
    by (rule claim_step.CommitUnanswered) simp
  have "goto n Idle (?s2\<lparr>cLock := None, cDb := snd (MarkJobDispatching i (cDb ?s2))\<rparr>) =
      s\<lparr>cDb := mark i dispatching (cDb s)\<rparr>"
    using assms by (simp add: goto_def fun_upd_idem)
  moreover have "(claim_step lossy i)\<^sup>*\<^sup>* s (goto n Idle (?s2\<lparr>cLock := None, cDb := snd (MarkJobDispatching i (cDb ?s2))\<rparr>))"
    by (intro converse_rtranclp_into_rtranclp [where r = "claim_step lossy i", OF 1]
          converse_rtranclp_into_rtranclp [where r = "claim_step lossy i", OF 2] r_into_rtranclp [where r = "claim_step lossy i"] 3)
  ultimately show ?thesis by (simp only:)
qed

text \<open>
  The number of dispatch frames that reached a printer, as an observation of the services: an
  answered PUBLISH with receivers reached one; an unanswered one may have, when replies get lost.
\<close>

locale deliveries = observed E dl
  for E :: "'s env" and dl :: "'s \<Rightarrow> nat" +
  fixes lossy :: bool
  assumes publish_answered: "r_publish E (ChanDispatch m) p s = (Inr k, s') \<Longrightarrow>
      dl s' = (if k = 0 then dl s else Suc (dl s))"
    and publish_failed: "r_publish E (ChanDispatch m) p s = (Inl e, s') \<Longrightarrow>
      dl s' = dl s \<or> lossy \<and> dl s' = Suc (dl s)"
begin

lemma presign_dl: "PresignedReadURL E b ttl w = (p, w') \<Longrightarrow> dl (ext w') = dl (ext w)"
  using obs_minio(1) [of b ttl w] by simp

lemma revert_dl: "revert E js w = (r, w') \<Longrightarrow> dl (ext w') = dl (ext w)"
  using obs_revert [of js w] by simp

lemma after_claim_path:
  assumes "after_claim E f w = (r, w')" "uuid_parse E (rfJobID f) = Some i"
    and t: "cDb t = db w" "cLock t = None" "cPhase t n = Claimed"
  shows "dl (ext w) \<le> dl (ext w') \<and> (claim_step lossy i)\<^sup>*\<^sup>* t
    (goto n Idle (t\<lparr>cDb := db w', cSent := cSent t + (dl (ext w') - dl (ext w))\<rparr>))"
proof -
  have give_up: ?thesis
    if "db w' = db w \<or> db w' = mark i ''queued'' (db w)"
      "dl (ext w') = dl (ext w) \<or> lossy \<and> dl (ext w') = Suc (dl (ext w))"
    using that by (auto intro!: give_up_path simp: t)
  obtain p w3 where p: "PresignedReadURL E (rfBlobRef f) presignTTL w = (p, w3)" by fastforce
  have d3: "db w3 = db w" using p by (metis minio_db(3) snd_conv)
  have l3: "dl (ext w3) = dl (ext w)" by (rule presign_dl [OF p])
  show ?thesis
  proof (cases p)
    case (Inl e)
    then have "w' = snd (revert E (rfJobID f) w3)" using assms(1) p by (auto simp: after_claim_def)
    then show ?thesis using revert_db [OF assms(2), of w3] d3 l3 by (intro give_up) auto
  next
    case (Inr url)
    obtain q w4 where q: "call (r_publish E (ChanDispatch (rfMailboxID f)) (dispatch_frame f url)) w3 = (q, w4)"
      by fastforce
    note q' = call_eqD [OF q]
    then have d4: "db w4 = db w" using d3 by simp
    show ?thesis
    proof (cases q)
      case (Inl e)
      then have "w' = snd (revert E (rfJobID f) w4)" using assms(1) p q \<open>p = Inr url\<close> by (auto simp: after_claim_def)
      moreover have "dl (ext w4) = dl (ext w) \<or> lossy \<and> dl (ext w4) = Suc (dl (ext w))"
        using q' Inl publish_failed l3 by metis
      ultimately show ?thesis using revert_db [OF assms(2), of w4] d4 by (intro give_up) auto
    next
      case (Inr k)
      have l4: "dl (ext w4) = (if k = 0 then dl (ext w) else Suc (dl (ext w)))"
        using q' Inr publish_answered l3 by metis
      show ?thesis
      proof (cases "k = 0")
        case True
        then have "w' = snd (revert E (rfJobID f) w4)"
          using assms(1) p q \<open>p = Inr url\<close> Inr by (auto simp: after_claim_def split: prod.splits sum.splits)
        then show ?thesis using revert_db [OF assms(2), of w4] d4 l4 True by (intro give_up) auto
      next
        case False
        then have w': "w' = snd (qInsertAuditEvent E i ''job_dispatched'' None w4)"
          using assms(1,2) p q \<open>p = Inr url\<close> Inr by (auto simp: after_claim_def)
        have "status_of (db w') i = status_of (cDb t) i"
          using d4 t(1) by (simp add: w' status_of_def job_of_def)
        from deliver_path [OF t(3) this, of lossy] show ?thesis using l4 False by (simp add: w')
      qed
    qed
  qed
qed

text \<open>
  An attempt of the code is a path of the protocol: it ends idle, with the database and the
  number of deliveries it left.
\<close>

lemma attempt_path:
  assumes "attemptDispatch E f w = (r, w')" "uuid_parse E (rfJobID f) = Some i"
    and s: "cDb s = db w" "cLock s = None" "cPhase s n = Idle"
  shows "dl (ext w) \<le> dl (ext w') \<and> (claim_step lossy i)\<^sup>*\<^sup>* s
    (s\<lparr>cDb := db w', cSent := cSent s + (dl (ext w') - dl (ext w))\<rparr>)"
proof -
  obtain b w1 where e: "eligible E (rfMailboxID f) (rfSlotID f) w = (b, w1)" by fastforce
  then have h1: "dl (ext w1) = dl (ext w)" "db w1 = db w"
    using obs_eligible eligible_db by (metis snd_conv)+
  obtain c w2 where c: "claimJob E (rfJobID f) w1 = (c, w2)" by fastforce
  note h2 = obs_claimJob [OF c]
  consider "\<not> b" | "b" "c = Inr claimed" | "b" "c \<noteq> Inr claimed" by blast
  then show ?thesis
  proof cases
    case 1
    then have "w' = w1" using assms(1) e by (simp add: attemptDispatch_alt)
    moreover have "s\<lparr>cDb := db w\<rparr> = s" by (simp flip: s(1))
    ultimately show ?thesis using h1 by simp
  next
    case 2
    let ?t = "goto n Claimed (s\<lparr>cDb := db w2\<rparr>)"
    have a: "after_claim E f w2 = (r, w')" using assms(1) e c 2 by (simp add: attemptDispatch_alt)
    have "cDb s = db w1" using s h1 by simp
    from claimJob_path [OF c [unfolded 2(2)] assms(2) this s(2,3)]
    have p1: "(claim_step lossy i)\<^sup>*\<^sup>* s ?t" .
    from after_claim_path [OF a assms(2), of ?t n] s
    have p2: "dl (ext w2) \<le> dl (ext w')" "(claim_step lossy i)\<^sup>*\<^sup>* ?t
      (goto n Idle (?t\<lparr>cDb := db w', cSent := cSent ?t + (dl (ext w') - dl (ext w2))\<rparr>))" by (simp_all del: add_diff_assoc)
    have "goto n Idle (?t\<lparr>cDb := db w', cSent := cSent ?t + (dl (ext w') - dl (ext w2))\<rparr>) =
        s\<lparr>cDb := db w', cSent := cSent s + (dl (ext w') - dl (ext w2))\<rparr>"
      using s(3) by (simp add: goto_def fun_upd_idem)
    then show ?thesis using rtranclp_trans [OF p1 p2(2)] p2(1) h1 h2 by simp
  next
    case 3
    then have w': "w' = w2" using assms(1) e c
      by (auto simp: attemptDispatch_alt split: sum.splits claimOutcome.splits)
    have "db w2 = db w \<or> claimable_in (db w) i \<and> db w2 = mark i dispatching (db w)"
      using claimJob_InrD [OF _ assms(2), of w1 _ w2] claimJob_InlD [of E "rfJobID f" w1 _ w2] c h1 3 assms(2)
      by (cases c; cases "projr c") auto
    moreover have "s\<lparr>cDb := db w\<rparr> = s" by (simp flip: s(1))
    ultimately have "(claim_step lossy i)\<^sup>*\<^sup>* s (s\<lparr>cDb := db w2\<rparr>)"
      using unanswered_path [of s i n lossy] s by (metis rtranclp.rtrancl_refl)
    then show ?thesis using w' h1 h2 by simp
  qed
qed

end

section \<open>A row that stays behind\<close>

text \<open>
  A row left \<^verbatim>\<open>dispatching\<close> with no owner and no delivery (a crash after the commit, a failed
  revert) is never claimed again: no step of the protocol leads out of that situation.
\<close>

definition stranded :: "uuid \<Rightarrow> claim_state \<Rightarrow> bool" where
  "stranded i s \<longleftrightarrow> status_of (cDb s) i = Some dispatching \<and> cLock s = None \<and> (\<forall>n. cPhase s n = Idle) \<and> cSent s = 0"

lemma stranded_step: "claim_step lossy i s s' \<Longrightarrow> stranded i s \<Longrightarrow> stranded i s'"
proof (induction rule: claim_step.induct)
  case (Lock s n j)
  from Lock_InrD [OF Lock(2)] Lock(3) show ?case by (simp add: stranded_def claimable_in_def)
qed (auto simp: stranded_def)

interpretation claim_stranded: invariant_steps "claim_step lossy i" "stranded i"
  by unfold_locales (rule stranded_step)

end
