(* ===== verification/Progress.thy ===== *)
theory Progress
  imports Dispatcher_Facts Turns
begin

text \<open>
  What a dispatcher achieves while the services answer: a drain dispatches every new entry whose
  printer can take it, and a sweep also every pending entry that has been idle for long enough. The
  locales state the conditions: \<^verbatim>\<open>calm_attempts\<close> a set of states in which no call of an attempt fails,
  which those calls do not leave, and in which they change neither the cached printer states nor who
  listens on which channel; \<^verbatim>\<open>calm_service\<close> the same of reading and acknowledging entries; \<^verbatim>\<open>calm_scan\<close> of
  XAUTOCLAIM, with what a scan claims.
\<close>

section \<open>Services that answer\<close>

definition undisturbed :: "'s env \<Rightarrow> ('s \<Rightarrow> bool) \<Rightarrow> ('s \<Rightarrow> string \<Rightarrow> nat) \<Rightarrow> 's \<Rightarrow> 's \<Rightarrow> bool" where
  "undisturbed E up listeners s s' \<longleftrightarrow>
     up s' \<and> (\<forall>k. fst (r_get E k s') = fst (r_get E k s)) \<and> listeners s' = listeners s"

locale calm_attempts =
  fixes E :: "'s env" and up :: "'s \<Rightarrow> bool" and listeners :: "'s \<Rightarrow> string \<Rightarrow> nat"
  assumes up_fault: "up s \<Longrightarrow> fst (pg_fault E s) = NoFault"
    and up_unlocked: "up s \<Longrightarrow> \<not> pg_row_locked E j' s"
    and up_presign: "up s \<Longrightarrow> \<exists>u. fst (m_presign_get E b k ttl s) = Inr u"
    and up_publish: "up s \<Longrightarrow> fst (r_publish E ch j s) = Inr (listeners s ch)"
    and calm_fault: "up s \<Longrightarrow> undisturbed E up listeners s (snd (pg_fault E s))"
    and calm_uuid: "up s \<Longrightarrow> undisturbed E up listeners s (snd (pg_uuid E s))"
    and calm_get: "up s \<Longrightarrow> undisturbed E up listeners s (snd (r_get E k s))"
    and calm_presign: "up s \<Longrightarrow> undisturbed E up listeners s (snd (m_presign_get E b k ttl s))"
    and calm_publish: "up s \<Longrightarrow> undisturbed E up listeners s (snd (r_publish E ch j s))"

locale calm_service = stream_service E pel backlog + calm_attempts E up listeners
  for E :: "'s env" and pel :: "'s \<Rightarrow> pel" and backlog :: "'s \<Rightarrow> xmessage list"
    and up :: "'s \<Rightarrow> bool" and listeners :: "'s \<Rightarrow> string \<Rightarrow> nat" +
  assumes up_ctx: "up s \<Longrightarrow> \<not> ctx_err E s"
    and up_ack: "up s \<Longrightarrow> \<exists>u. fst (r_xack E PendingStream ConsumerGroup i s) = Inr u"
    and up_read: "up s \<Longrightarrow> 0 < n \<Longrightarrow> r_xreadgroup E ConsumerGroup c PendingStream n s = (Inl e, s') \<Longrightarrow> backlog s = []"
    and calm_read: "up s \<Longrightarrow> undisturbed E up listeners s (snd (r_xreadgroup E ConsumerGroup c PendingStream n s))"
    and calm_ack: "up s \<Longrightarrow> undisturbed E up listeners s (snd (r_xack E PendingStream ConsumerGroup i s))"

section \<open>What a turn does to the status of a job\<close>

text \<open>A claimable job may be handed out or stay claimable; any other status is left alone.\<close>

definition handed_out :: "tables \<Rightarrow> tables \<Rightarrow> bool" where
  "handed_out t u \<longleftrightarrow> (\<forall>i. status_of u i = status_of t i \<or>
     claimable_in t i \<and> (claimable_in u i \<or> status_of u i = Some dispatching))"

lemma dispatching_closed: "status_of t i = Some dispatching \<Longrightarrow> \<not> claimable_in t i"
  by (simp add: claimable_in_def claimable_def)

lemma handed_out_refl: "handed_out t t"
  by (simp add: handed_out_def)

lemma handed_out_trans:
  assumes "handed_out t u" "handed_out u v"
  shows "handed_out t v"
  unfolding handed_out_def
proof
  fix i
  have 1: "status_of u i = status_of t i \<or> claimable_in t i \<and> (claimable_in u i \<or> status_of u i = Some dispatching)"
    and 2: "status_of v i = status_of u i \<or> claimable_in u i \<and> (claimable_in v i \<or> status_of v i = Some dispatching)"
    using assms unfolding handed_out_def by blast+
  show "status_of v i = status_of t i \<or> claimable_in t i \<and> (claimable_in v i \<or> status_of v i = Some dispatching)"
    using 1 2 claimable_status [of u i t] claimable_status [of v i u] dispatching_closed [of u i] by auto
qed

lemma handed_out_closed: "handed_out t u \<Longrightarrow> claimable_in u i \<Longrightarrow> claimable_in t i"
  unfolding handed_out_def using claimable_status [of u i t] by blast

lemma handed_out_attempt: "handed_out (db w) (db (snd (attemptDispatch E f w)))"
proof (cases "uuid_parse E (rfJobID f)")
  case None
  then show ?thesis using attempt_no_uuid [OF None, of w] by (simp add: handed_out_refl)
next
  case (Some i)
  let ?u = "db (snd (attemptDispatch E f w))"
  have "status_of ?u k = status_of (db w) k" if "k \<noteq> i" for k
    using attempt_other_jobs [OF Some that, of w] by (simp add: status_of_def)
  moreover have "status_of ?u i = status_of (db w) i \<or>
      claimable_in (db w) i \<and> (claimable_in ?u i \<or> status_of ?u i = Some dispatching)"
    using attempt_outcomes [OF prod.collapse [symmetric] Some, of w] status_of_marked
    by (auto simp: jobs_marked_def claimable_in_def claimable_def)
  ultimately show ?thesis unfolding handed_out_def by metis
qed

lemma handed_out_handle: "handed_out (db w) (db (handle E m w))"
proof -
  have r: "handed_out (db w) (db w1)" if "Retry E f w = (x, w1)" for f x w1
    using handed_out_attempt [of w E f] Retry_db [of E f w] that by simp
  have a: "db (ack E k u) = db u" for k u by (simp add: ack_def)
  show ?thesis
    by (auto simp: handle_def a handed_out_refl dest: r split: prod.splits sum.splits if_splits)
qed

interpretation handout_turns: turn_relation E handed_out for E
  by unfold_locales (auto intro: handed_out_refl handed_out_trans handed_out_handle)

lemma handle_closed: "claimable_in (db (handle E m w)) i \<Longrightarrow> claimable_in (db w) i"
  by (rule handed_out_closed [OF handed_out_handle])

context calm_attempts
begin

abbreviation calm :: "'s world \<Rightarrow> 's world \<Rightarrow> bool" where
  "calm w w' \<equiv> undisturbed E up listeners (ext w) (ext w')"

lemma calm_refl: "up s \<Longrightarrow> undisturbed E up listeners s s"
  by (simp add: undisturbed_def)

lemma calm_trans: "undisturbed E up listeners s t \<Longrightarrow> undisturbed E up listeners t u \<Longrightarrow> undisturbed E up listeners s u"
  by (simp add: undisturbed_def)

lemma calm_up: "undisturbed E up listeners s t \<Longrightarrow> up t"
  by (simp add: undisturbed_def)

lemma calm_call: "call f w = (x, w') \<Longrightarrow> undisturbed E up listeners (ext w) (snd (f (ext w))) \<Longrightarrow> calm w w'"
  by (auto dest: call_eqD)

lemma calm_pg: "up (ext w) \<Longrightarrow> pg E q w = (x, w') \<Longrightarrow> x = fst (q (db w)) \<and> db w' = snd (q (db w)) \<and> calm w w'"
  using up_fault [of "ext w"] calm_fault [of "ext w"]
  by (auto simp: pg_def split: prod.splits fault.splits)

lemma calm_tx:
  "up (ext w) \<Longrightarrow> BeginTx E w = (u, w') \<Longrightarrow> u = Inr () \<and> db w' = db w \<and> calm w w'"
  "up (ext w) \<Longrightarrow> tx_exec E q t w = (v, w') \<Longrightarrow> v = q t \<and> db w' = db w \<and> calm w w'"
  "up (ext w) \<Longrightarrow> CommitTx E t w = (u, w') \<Longrightarrow> u = Inr () \<and> db w' = t \<and> calm w w'"
  using up_fault [of "ext w"] calm_fault [of "ext w"]
  by (auto simp: BeginTx_def tx_exec_def CommitTx_def dest!: call_eqD split: prod.splits fault.splits)

lemma calm_audit: "up (ext w) \<Longrightarrow> calm w (snd (qInsertAuditEvent E j a u w))"
proof -
  assume up: "up (ext w)"
  obtain i w1 where i: "call (pg_uuid E) w = (i, w1)" by fastforce
  from calm_call [OF i calm_uuid [OF up]] have c: "calm w w1" .
  obtain x w2 where "pg E (InsertAuditEvent i (pg_now E (ext w1)) j a u) w1 = (x, w2)" by fastforce
  with calm_pg [OF calm_up [OF c] this] c i show ?thesis
    by (auto simp: qInsertAuditEvent_def pg_gen_def intro: calm_trans)
qed

section \<open>One attempt\<close>

text \<open>The printer of a job can take it: it is idle with room, and a node holds its socket.\<close>

definition ready :: "'s world \<Rightarrow> JobRef \<Rightarrow> bool" where
  "ready w f \<longleftrightarrow> fst (eligible E (rfMailboxID f) (rfSlotID f) w) \<and> listeners (ext w) (ChanDispatch (rfMailboxID f)) \<noteq> 0"

lemma eligible_get:
  "fst (r_get E (KeyPrinterState m) (ext w)) = fst (r_get E (KeyPrinterState m) (ext v)) \<Longrightarrow>
   fst (eligible E m sl w) = fst (eligible E m sl v)"
  by (cases "r_get E (KeyPrinterState m) (ext w)"; cases "r_get E (KeyPrinterState m) (ext v)")
    (auto simp: eligible_def GetPrinterState_def LookupPrinterState_def call_def split: sum.splits option.splits if_splits)

lemma ready_calm: "calm w w' \<Longrightarrow> ready w' f = ready w f"
  using eligible_get [of "rfMailboxID f" w' w "rfSlotID f"] by (simp add: ready_def undisturbed_def)

lemma calm_eligible: "up (ext w) \<Longrightarrow> eligible E m sl w = (b, w') \<Longrightarrow> calm w w'"
proof -
  assume up: "up (ext w)" and e: "eligible E m sl w = (b, w')"
  obtain x w1 where x: "call (r_get E (KeyPrinterState m)) w = (x, w1)" by fastforce
  have "w' = w1"
    using e x by (auto simp: eligible_def GetPrinterState_def LookupPrinterState_def
        split: prod.splits sum.splits option.splits if_splits)
  with calm_call [OF x calm_get [OF up]] show "calm w w'" by simp
qed

lemma calm_claimJob:
  assumes "up (ext w)" "claimJob E j w = (r, w')" "uuid_parse E j = Some i"
  shows "calm w w' \<and> r = Inr (if claimable_in (db w) i then claimed else claimSettled)"
proof -
  obtain x1 w1 where b: "BeginTx E w = (x1, w1)" by fastforce
  note b' = calm_tx(1) [OF assms(1) b]
  let ?q = "LockJobForDispatch (\<lambda>i. pg_row_locked E i (ext w1)) i"
  obtain v t w2 where l: "tx_exec E ?q (db w1) w1 = ((v, t), w2)" by (metis prod.collapse)
  note l' = calm_tx(2) [OF calm_up [OF conjunct2 [OF conjunct2 [OF b']]] l]
  have un: "\<not> pg_row_locked E i (ext w1)" using up_unlocked b' calm_up by blast
  show ?thesis
  proof (cases "claimable_in (db w) i")
    case False
    then have v: "v = Inl ErrNoRows" using l' b' by (auto simp: LockJob_cases)
    have "calm w w2" using b' l' calm_trans by metis
    then show ?thesis using assms(2,3) b conjunct1 [OF b'] l v False by (simp add: claimJob_def)
  next
    case True
    then obtain jb where v: "v = Inr jb" using l' b' un by (auto simp: LockJob_cases split: if_splits)
    have t: "t = db w" using l' b' v by (auto simp: LockJob_cases split: if_splits)
    obtain y t' w3 where m: "tx_exec E (MarkJobDispatching i) t w2 = ((y, t'), w3)" by (metis prod.collapse)
    have up2: "up (ext w2)" using l' calm_up by blast
    note m' = calm_tx(2) [OF up2 m]
    then have y: "y = Inr ()" by (simp add: MarkJobDispatching_def split: prod.splits)
    obtain z w4 where c: "CommitTx E t' w3 = (z, w4)" by fastforce
    have up3: "up (ext w3)" using m' calm_up by blast
    note c' = calm_tx(3) [OF up3 c]
    have "calm w w4" using b' l' m' c' calm_trans by metis
    then show ?thesis using assms(2,3) b conjunct1 [OF b'] l v m y c conjunct1 [OF c'] True by (simp add: claimJob_def)
  qed
qed

lemma calm_after_claim:
  assumes "up (ext w)" "after_claim E f w = (r, w')" "uuid_parse E (rfJobID f) = Some i"
  shows "calm w w' \<and> r = Inr (if listeners (ext w) (ChanDispatch (rfMailboxID f)) = 0 then blocked else dispatching)"
proof -
  obtain x w1 where p: "PresignedReadURL E (rfBlobRef f) presignTTL w = (x, w1)" by fastforce
  then have p': "call (m_presign_get E bucket (rfBlobRef f) presignTTL) w = (x, w1)" by (simp add: PresignedReadURL_def)
  obtain url where x: "x = Inr url" using up_presign [OF assms(1), of bucket "rfBlobRef f" presignTTL] call_eqD [OF p'] by auto
  have c1: "calm w w1" by (rule calm_call [OF p' calm_presign [OF assms(1)]])
  note up1 = calm_up [OF c1]
  obtain y w2 where q: "call (r_publish E (ChanDispatch (rfMailboxID f)) (dispatch_frame f url)) w1 = (y, w2)" by fastforce
  have y: "y = Inr (listeners (ext w) (ChanDispatch (rfMailboxID f)))"
    using up_publish [OF up1, of "ChanDispatch (rfMailboxID f)" "dispatch_frame f url"] call_eqD [OF q] c1
    by (simp add: undisturbed_def)
  have c2: "calm w w2" by (rule calm_trans [OF c1 calm_call [OF q calm_publish [OF up1]]])
  show ?thesis
  proof (cases "listeners (ext w) (ChanDispatch (rfMailboxID f)) = 0")
    case False
    then show ?thesis using assms(2,3) p x q y calm_trans [OF c2 calm_audit [OF calm_up [OF c2]]]
      by (auto simp: after_claim_def)
  next
    case True
    obtain z w3 where z: "pg E (RequeueJob i) w2 = (z, w3)" by fastforce
    note z' = calm_pg [OF calm_up [OF c2] z]
    then have "z = Inr ()" by (simp add: RequeueJob_def)
    then show ?thesis using assms(2,3) p x q y True z calm_trans [OF c2 conjunct2 [OF conjunct2 [OF z']]]
      by (simp add: after_claim_def revert_def)
  qed
qed

lemma calm_attempt:
  assumes "up (ext w)" "attemptDispatch E f w = (r, w')" "uuid_parse E (rfJobID f) = Some i"
  shows "calm w w' \<and> (ready w f \<longrightarrow> (r = Inr dispatching \<or> r = Inr settled) \<and> \<not> claimable_in (db w') i)"
proof -
  obtain b w1 where e: "eligible E (rfMailboxID f) (rfSlotID f) w = (b, w1)" by fastforce
  have c1: "calm w w1" by (rule calm_eligible [OF assms(1) e])
  show ?thesis
  proof (cases b)
    case False
    then show ?thesis using assms(2) e c1 by (simp add: attemptDispatch_alt ready_def)
  next
    case True
    obtain oc w2 where k: "claimJob E (rfJobID f) w1 = (oc, w2)" by fastforce
    note k' = calm_claimJob [OF calm_up [OF c1] k assms(3)]
    then have c2: "calm w w2" using c1 calm_trans by blast
    show ?thesis
    proof (cases "claimable_in (db w1) i")
      case False
      then have r: "r = Inr settled" "w' = w2" using assms(2) e True k k' by (simp_all add: attemptDispatch_alt)
      have "db w2 = db w1" using claimJob_InrD [of E "rfJobID f" w1 _ w2 i] k k' False assms(3) by auto
      then show ?thesis using r c2 False by simp
    next
      case claimable: True
      then have a: "after_claim E f w2 = (r, w')" using assms(2) e True k k' by (simp add: attemptDispatch_alt)
      note a' = calm_after_claim [OF calm_up [OF c2] a assms(3)]
      have "\<not> claimable_in (db w') i" if "r = Inr dispatching"
        using attempt_outcomes [OF assms(2,3)] claimable_marked that by auto
      then show ?thesis using a' c2 calm_trans by (auto simp: ready_def undisturbed_def)
    qed
  qed
qed

lemma calm_attempt_any: "up (ext w) \<Longrightarrow> attemptDispatch E f w = (r, w') \<Longrightarrow> calm w w'"
proof (cases "uuid_parse E (rfJobID f)")
  case None
  assume up: "up (ext w)" and a: "attemptDispatch E f w = (r, w')"
  obtain b w1 where e: "eligible E (rfMailboxID f) (rfSlotID f) w = (b, w1)" by fastforce
  with None a have "w' = w1" by (cases b) (simp_all add: attemptDispatch_alt claimJob_def)
  then show "calm w w'" using calm_eligible [OF up e] by simp
qed (use calm_attempt in blast)

end

section \<open>One entry\<close>

context calm_service
begin

lemma ack_done: "up (ext w) \<Longrightarrow> calm w (ack E i w) \<and> pel (ext (ack E i w)) i = None"
proof -
  assume up: "up (ext w)"
  obtain r w1 where r: "call (r_xack E PendingStream ConsumerGroup i) w = (r, w1)" by fastforce
  have "\<nexists>e. r = Inl e" using up_ack [OF up, of i] call_eqD [OF r] by auto
  then have "pel (ext w1) i = None" using call_eqD [OF r] xack [of i "ext w" r "ext w1"] by auto
  with calm_call [OF r calm_ack [OF up]] r show ?thesis by (simp add: ack_def)
qed

lemma calm_handle: "up (ext w) \<Longrightarrow> calm w (handle E m w)"
proof (cases rule: handle_cases [of m w])
  case (malformed e)
  then show "up (ext w) \<Longrightarrow> ?thesis" using ack_done by simp
next
  case (left f r w1)
  then show "up (ext w) \<Longrightarrow> ?thesis"
    by (auto simp: Retry_def dest: calm_attempt_any split: prod.splits sum.splits)
next
  case (acked f w1)
  assume up: "up (ext w)"
  have "calm w w1" using acked(2) calm_attempt_any [OF up]
    by (auto simp: Retry_def split: prod.splits sum.splits)
  with ack_done [OF calm_up [OF this], of "xID m"] acked(3) show ?thesis by (auto intro: calm_trans)
qed

lemma handle_ready:
  assumes "up (ext w)" "JobRefFromValues (xValues m) = Inr f" "uuid_parse E (rfJobID f) = Some i" "ready w f"
  shows "\<not> claimable_in (db (handle E m w)) i \<and> pel (ext (handle E m w)) (xID m) = None"
proof -
  obtain r w1 where a: "attemptDispatch E f w = (r, w1)" by fastforce
  note a' = calm_attempt [OF assms(1) a assms(3)]
  then have "Retry E f w = (Inr True, w1)" using a assms(4) by (auto simp: Retry_def)
  then have "handle E m w = ack E (xID m) w1" using assms(2) by (simp add: handle_def)
  with a' assms(4) ack_done [of w1 "xID m"] calm_up show ?thesis by (auto simp: ack_stream)
qed

section \<open>Batches and drains\<close>

definition gone :: "'s world \<Rightarrow> xmessage \<Rightarrow> bool" where
  "gone w m \<longleftrightarrow> (\<forall>f i. JobRefFromValues (xValues m) = Inr f \<longrightarrow> uuid_parse E (rfJobID f) = Some i \<longrightarrow>
     \<not> claimable_in (db w) i) \<and> pel (ext w) (xID m) = None"

lemma handle_gone: "gone w m \<Longrightarrow> gone (handle E m' w) m"
  using handle_stream(2) [of "xID m" m' w] handle_stream(3) [of m' w]
  by (cases "xID m = xID m'") (auto simp: gone_def dest: handle_closed)

lemma calm_batch:
  assumes "up (ext w)" "handle_batch E ms w = (b, w')"
  shows "\<not> b \<and> calm w w' \<and> (\<forall>m. gone w m \<longrightarrow> gone w' m) \<and>
    (\<forall>m\<in>set ms. \<forall>f i. JobRefFromValues (xValues m) = Inr f \<longrightarrow> uuid_parse E (rfJobID f) = Some i \<longrightarrow> ready w f \<longrightarrow> gone w' m)"
  using assms
proof (induction ms arbitrary: w)
  case Nil
  then show ?case by (simp add: calm_refl)
next
  case (Cons m ms)
  let ?w1 = "handle E m w"
  have c: "calm w ?w1" by (rule calm_handle [OF Cons.prems(1)])
  then have h: "handle_batch E ms ?w1 = (b, w')" using Cons.prems(2) up_ctx [OF calm_up [OF c]] by (simp add: Let_def)
  note IH = Cons.IH [OF calm_up [OF c] h]
  have g: "gone w' m" if "JobRefFromValues (xValues m) = Inr f" "uuid_parse E (rfJobID f) = Some i" "ready w f" for f i
  proof -
    have "gone ?w1 m" using handle_ready [OF Cons.prems(1) that] that(1,2) by (simp add: gone_def)
    with IH show ?thesis by blast
  qed
  then show ?case using IH c calm_trans handle_gone ready_calm [OF c] by auto
qed

lemma drain_batches_ready:
  assumes "up (ext w)" "sound w"
  shows "\<forall>m. gone w m \<and> xID m \<notin> xID ` set (backlog (ext w)) \<longrightarrow> gone (drain_batches E n k w) m"
    "\<forall>m\<in>set (take (10 * k) (backlog (ext w))). \<forall>f i. JobRefFromValues (xValues m) = Inr f \<longrightarrow>
       uuid_parse E (rfJobID f) = Some i \<longrightarrow> ready w f \<longrightarrow> gone (drain_batches E n k w) m"
proof -
  have "(\<forall>m. gone w m \<and> xID m \<notin> xID ` set (backlog (ext w)) \<longrightarrow> gone (drain_batches E n k w) m) \<and>
    (\<forall>m\<in>set (take (10 * k) (backlog (ext w))). \<forall>f i. JobRefFromValues (xValues m) = Inr f \<longrightarrow>
       uuid_parse E (rfJobID f) = Some i \<longrightarrow> ready w f \<longrightarrow> gone (drain_batches E n k w) m)"
    using assms
  proof (induction k arbitrary: w)
    case (Suc k)
    let ?bl = "backlog (ext w)"
    obtain r w1 where r: "call (r_xreadgroup E ConsumerGroup n PendingStream 10) w = (r, w1)" by fastforce
    note st = xread_state [OF r Suc.prems(2)] and x = call_eqD [OF r]
    have c1: "calm w w1" by (rule calm_call [OF r calm_read [OF Suc.prems(1)]])
    show ?case
    proof (cases "\<exists>ss. r = Inr ss \<and> ss \<noteq> [] \<and> hd ss \<noteq> []")
      case False
      have "?bl = []"
      proof (cases r)
        case (Inl e)
        with up_read [OF Suc.prems(1), of 10 n e "ext w1"] x show ?thesis by simp
      next
        case (Inr ss)
        with False x xread [of n 10 "ext w" ss "ext w1"] show ?thesis by (cases ?bl) auto
      qed
      moreover have "drain_batches E n (Suc k) w = w1" using False r by (cases r) auto
      moreover have "gone w1 m" if "gone w m" "backlog (ext w) = []" for m
      proof -
        have "pel (ext w1) = pel (ext w)"
          using x xread [of n 10 "ext w" _ "ext w1"] xread_err [of n 10 "ext w" _ "ext w1"] that(2)
          by (cases r) (auto simp: delivered_def)
        with that(1) st show ?thesis by (simp add: gone_def)
      qed
      ultimately show ?thesis by simp
    next
      case True
      then obtain ss where ss: "r = Inr ss" "ss \<noteq> []" "hd ss \<noteq> []" by blast
      with st have hd: "hd ss = take 10 ?bl" by auto
      have bl: "backlog (ext w1) = drop 10 ?bl" and p: "pel (ext w1) = delivered n (take 10 ?bl) (pel (ext w))"
        using x ss(1) xread by blast+
      obtain b w2 where b: "handle_batch E (hd ss) w1 = (b, w2)" by fastforce
      note B = calm_batch [OF calm_up [OF c1] b]
      have bc: "sound w2" "backlog (ext w2) = drop 10 ?bl"
        using batch_conserves [OF _ _ b] st ss bl by auto
      have c2: "calm w w2" using c1 B calm_trans by blast
      have eq: "drain_batches E n (Suc k) w = drain_batches E n k w2" using r ss b B by auto
      note IH = Suc.IH [OF calm_up [OF c2] bc(1)]
      have dist: "distinct (map xID (take 10 ?bl @ drop 10 ?bl))" using Suc.prems(2) by (simp add: sound_def)
      have later: "gone (drain_batches E n k w2) m" if "gone w2 m" "xID m \<notin> xID ` set (drop 10 ?bl)" for m
        using IH that bc(2) by simp
      have old: "gone (drain_batches E n k w2) m" if "gone w m" "xID m \<notin> xID ` set ?bl" for m
      proof -
        have "xID m \<notin> xID ` set (take 10 ?bl)" using that(2) set_take_subset [of 10 ?bl] by blast
        then have "gone w1 m" using that(1) st p by (simp add: gone_def delivered_other)
        moreover have "xID m \<notin> xID ` set (drop 10 ?bl)" using that(2) set_drop_subset [of 10 ?bl] by blast
        ultimately show ?thesis using B later by blast
      qed
      have new: "gone (drain_batches E n k w2) m"
        if m: "m \<in> set (take (10 * Suc k) ?bl)" "JobRefFromValues (xValues m) = Inr f" "uuid_parse E (rfJobID f) = Some i" "ready w f" for m f i
      proof -
        have "take (10 * Suc k) ?bl = take 10 ?bl @ take (10 * k) (drop 10 ?bl)" by (metis mult_Suc_right take_add)
        then consider "m \<in> set (take 10 ?bl)" | "m \<in> set (take (10 * k) (drop 10 ?bl))" using m(1) by auto
        then show ?thesis
        proof cases
          case 1
          have "gone w2 m" using B hd 1 m(2-4) ready_calm [OF c1] by auto
          moreover have "xID m \<notin> xID ` set (drop 10 ?bl)" using dist 1 by (auto simp del: append_take_drop_id)
          ultimately show ?thesis by (rule later)
        next
          case 2
          then show ?thesis using IH bc(2) m(2-4) ready_calm [OF c2] by auto
        qed
      qed
      from old new show ?thesis unfolding eq by blast
    qed
  qed simp
  then show "\<forall>m. gone w m \<and> xID m \<notin> xID ` set (backlog (ext w)) \<longrightarrow> gone (drain_batches E n k w) m"
    "\<forall>m\<in>set (take (10 * k) (backlog (ext w))). \<forall>f i. JobRefFromValues (xValues m) = Inr f \<longrightarrow>
       uuid_parse E (rfJobID f) = Some i \<longrightarrow> ready w f \<longrightarrow> gone (drain_batches E n k w) m" by blast+
qed

lemma drain_ready:
  assumes "up (ext w)" "sound w" "m \<in> set (take 200 (backlog (ext w)))" "JobRefFromValues (xValues m) = Inr f"
    "uuid_parse E (rfJobID f) = Some i" "ready w f"
  shows "status_of (db (drain E di w)) i = (if claimable_in (db w) i then Some dispatching else status_of (db w) i)"
    "pel (ext (drain E di w)) (xID m) = None"
proof -
  have g: "gone (drain E di w) m"
    using drain_batches_ready(2) [OF assms(1,2), of maxDrainBatches "NodeID di"] assms(3-6)
    by (simp add: drain_def maxDrainBatches_def)
  then have "\<not> claimable_in (db (drain E di w)) i" using assms(4,5) by (simp add: gone_def)
  then show "status_of (db (drain E di w)) i = (if claimable_in (db w) i then Some dispatching else status_of (db w) i)"
    using handout_turns.drain_related [of w E di] claimable_status [of "db (drain E di w)" i "db w"]
    unfolding handed_out_def by auto
  show "pel (ext (drain E di w)) (xID m) = None" using g by (simp add: gone_def)
qed

end

section \<open>Sweeps\<close>

text \<open>
  \<^verbatim>\<open>due s start\<close> are the ids a scan from \<^verbatim>\<open>start\<close> would claim: pending, idle for long enough, not before
  \<^verbatim>\<open>start\<close>. XAUTOCLAIM claims each of them or leaves it ahead of the cursor it returns; it scans ten
  entries for each one it may claim, so an empty page means that none is left when no more are pending.
\<close>

locale calm_scan = calm_service E pel backlog up listeners
  for E :: "'s env" and pel :: "'s \<Rightarrow> pel" and backlog :: "'s \<Rightarrow> xmessage list"
    and up :: "'s \<Rightarrow> bool" and listeners :: "'s \<Rightarrow> string \<Rightarrow> nat" +
  fixes due :: "'s \<Rightarrow> string \<Rightarrow> string set"
  assumes up_scan: "up s \<Longrightarrow> \<exists>p. fst (r_xautoclaim E PendingStream ConsumerGroup c claimMinIdle start 10 s) = Inr p"
    and calm_scanned: "up s \<Longrightarrow> undisturbed E up listeners s (snd (r_xautoclaim E PendingStream ConsumerGroup c claimMinIdle start 10 s))"
    and scan_due: "r_xautoclaim E PendingStream ConsumerGroup c claimMinIdle start 10 s = (Inr (ms, nxt), s') \<Longrightarrow>
      due s start \<subseteq> xID ` set ms \<union> (if nxt = ''0-0'' then {} else due s' nxt)"
    and scan_small: "r_xautoclaim E PendingStream ConsumerGroup c claimMinIdle start 10 s = (Inr ([], nxt), s') \<Longrightarrow>
      finite (dom (pel s)) \<Longrightarrow> card (dom (pel s)) \<le> 100 \<Longrightarrow> due s start = {}"
    and due_fault: "due s start \<subseteq> due (snd (pg_fault E s)) start"
    and due_uuid: "due s start \<subseteq> due (snd (pg_uuid E s)) start"
    and due_get: "due s start \<subseteq> due (snd (r_get E k s)) start"
    and due_presign: "due s start \<subseteq> due (snd (m_presign_get E b k ttl s)) start"
    and due_publish: "due s start \<subseteq> due (snd (r_publish E ch j s)) start"
    and due_ack: "due s start - {i} \<subseteq> due (snd (r_xack E PendingStream ConsumerGroup i s)) start"

text \<open>States in which one id is due are as calm: an attempt leaves every id due that was.\<close>

sublocale calm_scan \<subseteq> pending: calm_attempts E "\<lambda>s. up s \<and> i \<in> due s start" listeners for i start
proof unfold_locales
  show "undisturbed E (\<lambda>s. up s \<and> i \<in> due s start) listeners s (snd (pg_fault E s))"
    if "up s \<and> i \<in> due s start" for s
    using that calm_fault [of s] due_fault [of s start] by (auto simp: undisturbed_def)
  show "undisturbed E (\<lambda>s. up s \<and> i \<in> due s start) listeners s (snd (pg_uuid E s))"
    if "up s \<and> i \<in> due s start" for s
    using that calm_uuid [of s] due_uuid [of s start] by (auto simp: undisturbed_def)
  show "undisturbed E (\<lambda>s. up s \<and> i \<in> due s start) listeners s (snd (r_get E k s))"
    if "up s \<and> i \<in> due s start" for s k
    using that calm_get [of s k] due_get [of s start k] by (auto simp: undisturbed_def)
  show "undisturbed E (\<lambda>s. up s \<and> i \<in> due s start) listeners s (snd (m_presign_get E b k ttl s))"
    if "up s \<and> i \<in> due s start" for s b k ttl
    using that calm_presign [of s b k ttl] due_presign [of s start b k ttl] by (auto simp: undisturbed_def)
  show "undisturbed E (\<lambda>s. up s \<and> i \<in> due s start) listeners s (snd (r_publish E ch j s))"
    if "up s \<and> i \<in> due s start" for s ch j
    using that calm_publish [of s ch j] due_publish [of s start ch j] by (auto simp: undisturbed_def)
qed (auto simp: up_fault up_unlocked up_presign up_publish)

context calm_scan
begin

lemma due_attempt:
  "up (ext w) \<Longrightarrow> attemptDispatch E f w = (r, w') \<Longrightarrow> due (ext w) start \<subseteq> due (ext w') start"
  using pending.calm_attempt_any [of w _ start f r w'] by (auto simp: undisturbed_def)

lemma due_handle: "up (ext w) \<Longrightarrow> due (ext w) start - {xID m} \<subseteq> due (ext (handle E m w)) start"
proof (cases rule: handle_cases [of m w])
  case (malformed e)
  then show ?thesis using due_ack [of "ext w" start "xID m"] by (simp add: ack_def call_def split_beta)
next
  case (left f r w1)
  assume "up (ext w)"
  with left due_attempt [of w f _ w1 start] show ?thesis
    by (auto simp: Retry_def split: prod.splits sum.splits if_splits)
next
  case (acked f w1)
  assume up: "up (ext w)"
  have "due (ext w) start \<subseteq> due (ext w1) start" using acked(2) due_attempt [OF up, of f _ w1 start]
    by (auto simp: Retry_def split: prod.splits sum.splits if_splits)
  with due_ack [of "ext w1" start "xID m"] acked(3) show ?thesis by (auto simp: ack_def call_def split_beta)
qed

lemma due_batch:
  assumes "up (ext w)" "handle_batch E ms w = (b, w')" "i \<notin> xID ` set ms" "i \<in> due (ext w) start"
  shows "i \<in> due (ext w') start \<and> pel (ext w') i = pel (ext w) i"
  using assms
proof (induction ms arbitrary: w)
  case (Cons m ms)
  let ?w1 = "handle E m w"
  have c: "up (ext ?w1)" by (rule calm_up [OF calm_handle [OF Cons.prems(1)]])
  have h: "handle_batch E ms ?w1 = (b, w')" using Cons.prems(2) up_ctx [OF c] by (simp add: Let_def)
  have "i \<in> due (ext ?w1) start" using due_handle [OF Cons.prems(1), of start m] Cons.prems(3,4) by auto
  with Cons.IH [OF c h] Cons.prems(3) handle_stream(2) [of i m w] show ?case by auto
qed simp

text \<open>An entry that a scan from \<^verbatim>\<open>start\<close> finds, whose printer can take its job.\<close>

definition waiting :: "'s world \<Rightarrow> string \<Rightarrow> xmessage \<Rightarrow> bool" where
  "waiting w start m \<longleftrightarrow> xID m \<in> due (ext w) start \<and> (\<exists>c. pel (ext w) (xID m) = Some (c, xValues m)) \<and>
     (\<exists>f i. JobRefFromValues (xValues m) = Inr f \<and> uuid_parse E (rfJobID f) = Some i \<and> ready w f)"

definition reclaims :: "string \<Rightarrow> 's world \<Rightarrow> 's world \<Rightarrow> bool" where
  "reclaims start w w' \<longleftrightarrow> calm w w' \<and> (\<forall>m. gone w m \<longrightarrow> gone w' m) \<and> (\<forall>m. waiting w start m \<longrightarrow> gone w' m)"

text \<open>One page: what it claimed is dealt with, what it did not is still waiting at the new cursor.\<close>

lemma page_reclaims:
  assumes "up (ext w)" "call (r_xautoclaim E PendingStream ConsumerGroup n claimMinIdle start 10) w = (Inr (ms, nxt), w1)"
    "handle_batch E ms w1 = (b, w2)"
  shows "\<not> b \<and> calm w w2 \<and> dom (pel (ext w2)) \<subseteq> dom (pel (ext w)) \<and> (\<forall>m. gone w m \<longrightarrow> gone w2 m) \<and>
    (\<forall>m. waiting w start m \<longrightarrow> gone w2 m \<or> nxt \<noteq> ''0-0'' \<and> waiting w2 nxt m)"
proof -
  note x = call_eqD [OF assms(2)]
  then have p: "pel (ext w1) = reassigned n (xID ` set ms) (pel (ext w))"
    and ms: "\<forall>m\<in>set ms. \<exists>c'. pel (ext w) (xID m) = Some (c', xValues m)"
    using xautoclaim by blast+
  have vals: "map_option snd (pel (ext w1) i) = map_option snd (pel (ext w) i)" for i
    by (simp add: p reassigned_values)
  have c1: "calm w w1" by (rule calm_call [OF assms(2) calm_scanned [OF assms(1)]])
  note up1 = calm_up [OF c1]
  note B = calm_batch [OF up1 assms(3)]
  have c2: "calm w w2" using c1 B calm_trans by blast
  have "dom (pel (ext w1)) = dom (pel (ext w))" using p by (auto simp: reassigned_def dom_def)
  then have d: "dom (pel (ext w2)) \<subseteq> dom (pel (ext w))" using batch_dom [OF assms(3)] by blast
  have old: "gone w2 m" if "gone w m" for m
  proof -
    have "pel (ext w1) (xID m) = None" using that vals [of "xID m"] by (auto simp: gone_def)
    then have "gone w1 m" using that x by (simp add: gone_def)
    with B show ?thesis by blast
  qed
  have new: "gone w2 m \<or> nxt \<noteq> ''0-0'' \<and> waiting w2 nxt m" if w: "waiting w start m" for m
  proof (cases "xID m \<in> xID ` set ms")
    case True
    then obtain m' where m': "m' \<in> set ms" "xID m' = xID m" by auto
    with ms w have "xValues m' = xValues m" by (fastforce simp: waiting_def)
    with m' have "m \<in> set ms" by (metis (full_types) xmessage.equality old.unit.exhaust)
    with w B ready_calm [OF c1] show ?thesis by (auto simp: waiting_def)
  next
    case False
    with w scan_due [of n start "ext w" ms nxt "ext w1"] x
    have n: "nxt \<noteq> ''0-0''" "xID m \<in> due (ext w1) nxt" by (auto simp: waiting_def split: if_splits)
    note D = due_batch [OF up1 assms(3) False n(2)]
    have "\<exists>c. pel (ext w2) (xID m) = Some (c, xValues m)"
      using w False D by (auto simp: waiting_def p reassigned_def)
    with n D w ready_calm [OF c2] show ?thesis by (auto simp: waiting_def)
  qed
  from B c2 d old new show ?thesis by blast
qed

lemma reclaims_step:
  assumes "calm w w1" "\<forall>m. gone w m \<longrightarrow> gone w1 m" "\<forall>m. waiting w start m \<longrightarrow> gone w1 m \<or> waiting w1 nxt m"
    "reclaims nxt w1 w2"
  shows "reclaims start w w2"
  using assms calm_trans [of "ext w" "ext w1" "ext w2"] unfolding reclaims_def by blast

lemma reclaim_from_reclaims:
  assumes "reclaim_from E node start w = Some w'" "up (ext w)" "finite (dom (pel (ext w)))" "card (dom (pel (ext w))) \<le> 100"
  shows "reclaims start w w'"
proof -
  define P where "P = (\<lambda>E' (node :: string) start w w'. E' = E \<longrightarrow> up (ext w) \<longrightarrow> finite (dom (pel (ext w))) \<longrightarrow>
     card (dom (pel (ext w))) \<le> 100 \<longrightarrow> reclaims start w w')"
  have "P E node start w w'"
  proof (rule reclaim_from.raw_induct [where P = P, OF _ assms(1)])
    fix rf :: "'s env \<Rightarrow> string \<Rightarrow> string \<Rightarrow> 's world \<Rightarrow> 's world option" and E' node start w w'
    assume IH: "\<And>E node start w w'. rf E node start w = Some w' \<Longrightarrow> P E node start w w'"
      and eq: "(case call (r_xautoclaim E' PendingStream ConsumerGroup node claimMinIdle start 10) w of
        (Inl _, w1) \<Rightarrow> Some w1
      | (Inr (msgs, nxt), w1) \<Rightarrow>
          (case handle_batch E' msgs w1 of
             (stopped, w2) \<Rightarrow>
               (if stopped then Some w2
                else if nxt = ''0-0'' \<or> msgs = [] then Some w2
                else rf E' node nxt w2))) = Some w'"
    show "P E' node start w w'"
      unfolding P_def
    proof (intro impI)
      assume E: "E' = E" and up: "up (ext w)" and fin: "finite (dom (pel (ext w)))" "card (dom (pel (ext w))) \<le> 100"
      obtain r w1 where r: "call (r_xautoclaim E PendingStream ConsumerGroup node claimMinIdle start 10) w = (r, w1)"
        by fastforce
      obtain ms nxt where ms: "r = Inr (ms, nxt)" using up_scan [OF up] call_eqD [OF r] by (metis fst_conv surj_pair)
      obtain b w2 where b: "handle_batch E ms w1 = (b, w2)" by fastforce
      note page = page_reclaims [OF up r [unfolded ms] b]
      from eq r E ms b page have w': "if nxt = ''0-0'' \<or> ms = [] then w' = w2 else rf E node nxt w2 = Some w'"
        by (auto split: if_splits)
      show "reclaims start w w'"
      proof (cases "nxt = ''0-0'' \<or> ms = []")
        case True
        have "ms = [] \<Longrightarrow> due (ext w) start = {}"
          using scan_small [OF _ fin] call_eqD [OF r] ms by blast
        with True w' page show ?thesis by (auto simp: reclaims_def waiting_def)
      next
        case False
        then have "P E node nxt w2 w'" using w' IH by simp
        moreover have "finite (dom (pel (ext w2)))" "card (dom (pel (ext w2))) \<le> 100"
          using page fin finite_subset card_mono [of "dom (pel (ext w))" "dom (pel (ext w2))"] by auto
        ultimately have "reclaims nxt w2 w'" using calm_up [of "ext w" "ext w2"] page by (simp add: P_def)
        with page show ?thesis by (intro reclaims_step [of w w2 start nxt w']) blast+
      qed
    qed
  qed
  with assms show ?thesis by (simp add: P_def)
qed

text \<open>A turn of the loop that sweeps: it reclaims, drains and reaps.\<close>

lemma sweep_ready:
  assumes "run_loop E di [SweepTick] w = Some w'" "up (ext w)" "sound w" "finite (dom (pel (ext w)))"
    "card (dom (pel (ext w))) \<le> 100" "m \<in> set (take 200 (backlog (ext w))) \<or> waiting w ''0-0'' m"
    "JobRefFromValues (xValues m) = Inr f" "uuid_parse E (rfJobID f) = Some i" "ready w f"
  shows "status_of (db w') i = (if claimable_in (db w) i then Some dispatching else status_of (db w) i)"
    "pel (ext w') (xID m) = None"
proof -
  obtain w1 where r: "reclaim E di w = Some w1" and w': "w' = ReapStaleConsumers E di (drain E di w1)"
    using assms(1) by (auto split: option.splits)
  note R = reclaim_from_reclaims [OF r [unfolded reclaim_def] assms(2,4,5)]
  then have c: "calm w w1" by (simp add: reclaims_def)
  note keep = reclaim_from_facts [OF r [unfolded reclaim_def] assms(3)]
  have g: "gone (drain E di w1) m"
    using assms(6)
  proof
    assume "m \<in> set (take 200 (backlog (ext w)))"
    then have "m \<in> set (take (10 * maxDrainBatches) (backlog (ext w1)))" using keep by (simp add: maxDrainBatches_def)
    with drain_batches_ready(2) [of w1 maxDrainBatches "NodeID di"] calm_up [OF c] keep assms(7-9) ready_calm [OF c]
    show ?thesis unfolding drain_def by blast
  next
    assume m: "waiting w ''0-0'' m"
    then have "gone w1 m" using R by (simp add: reclaims_def)
    moreover have "xID m \<notin> xID ` set (backlog (ext w1))"
      using m assms(3) keep by (auto simp: waiting_def sound_def)
    ultimately show ?thesis
      using drain_batches_ready(1) [of w1 "NodeID di" maxDrainBatches] calm_up [OF c] keep by (simp add: drain_def)
  qed
  note reap = ReapStaleConsumers_keeps [of di "drain E di w1"]
  have "\<not> claimable_in (db w') i" using g assms(7,8) reap w' by (simp add: gone_def)
  then show "status_of (db w') i = (if claimable_in (db w) i then Some dispatching else status_of (db w) i)"
    using handed_out_trans [OF handout_turns.reclaim_related [OF r] handout_turns.drain_related [of w1 E di]]
      claimable_status [of "db w'" i "db w"] reap w' unfolding handed_out_def by auto
  show "pel (ext w') (xID m) = None" using g reap w' by (simp add: gone_def)
qed

lemma turn_ready:
  assumes "stream_cursor E pel backlog ahead" "up (ext w)"
    "distinct (map xID (backlog (ext w)))" "\<forall>m\<in>set (backlog (ext w)). pel (ext w) (xID m) = None"
    "ev = Available \<and> m \<in> set (take 200 (backlog (ext w))) \<or>
     ev = SweepTick \<and> finite (dom (pel (ext w))) \<and> card (dom (pel (ext w))) \<le> 100 \<and>
       (m \<in> set (take 200 (backlog (ext w))) \<or>
        (\<exists>c. pel (ext w) (xID m) = Some (c, xValues m)) \<and> xID m \<in> due (ext w) ''0-0'')"
    "JobRefFromValues (xValues m) = Inr f" "uuid_parse E (rfJobID f) = Some i"
    "fst (eligible E (rfMailboxID f) (rfSlotID f) w)" "listeners (ext w) (ChanDispatch (rfMailboxID f)) \<noteq> 0"
  shows "\<exists>w'. run_loop E di [ev] w = Some w' \<and> pel (ext w') (xID m) = None \<and>
    status_of (db w') i = (if claimable_in (db w) i then Some dispatching else status_of (db w) i)"
proof -
  have s: "sound w" using assms(3,4) by (simp add: sound_def)
  have r: "ready w f" using assms(8,9) by (simp add: ready_def)
  from stream_cursor.run_loop_ends [OF assms(1) s] obtain w' where w': "run_loop E di [ev] w = Some w'" by blast
  from assms(5) show ?thesis
  proof (elim disjE conjE)
    assume "ev = Available" "m \<in> set (take 200 (backlog (ext w)))"
    with drain_ready [OF assms(2) s _ assms(6,7) r] show ?thesis by simp
  next
    assume "ev = SweepTick" "finite (dom (pel (ext w)))" "card (dom (pel (ext w))) \<le> 100" "m \<in> set (take 200 (backlog (ext w)))"
    with sweep_ready [OF _ assms(2) s _ _ _ assms(6,7) r] w' show ?thesis by blast
  next
    assume ev: "ev = SweepTick" "finite (dom (pel (ext w)))" "card (dom (pel (ext w))) \<le> 100"
      and m: "xID m \<in> due (ext w) ''0-0''" "\<exists>c. pel (ext w) (xID m) = Some (c, xValues m)"
    then have "waiting w ''0-0'' m" using assms(6,7) r unfolding waiting_def by blast
    with sweep_ready [OF _ assms(2) s ev(2,3) _ assms(6,7) r] w' ev(1) show ?thesis by blast
  qed
qed

end

end
