(* ===== verification/Ref_Env.thy ===== *)
theory Ref_Env
  imports Cloud_Main Claim_System Progress
begin

text \<open>
  A reference environment: an in-memory Redis (keys with deadlines, publish/subscribe, one stream
  with its consumer group), an object store and the other services, all computable. It satisfies
  every law the development states about the services, so no theorem under those laws is empty,
  and concrete runs of the handlers are evaluated on it.
\<close>

section \<open>State\<close>

record pending_entry =
  peID :: string
  peOwner :: string
  peValues :: xvalues
  peSince :: int

record ref_state =
  rfClock :: int
  rfKeys :: "(string \<times> json \<times> int) list"
  rfSubs :: "string list"
  rfPublished :: "(string \<times> json) list"
  rfDelivered :: nat
  rfBacklog :: "xmessage list"
  rfPending :: "pending_entry list"
  rfConsumers :: "string list"
  rfBlobs :: "string list"
  rfCounter :: nat
  rfLongest :: nat

definition ref0 :: ref_state where
  "ref0 = \<lparr>rfClock = 0, rfKeys = [], rfSubs = [], rfPublished = [], rfDelivered = 0, rfBacklog = [], rfPending = [],
     rfConsumers = [], rfBlobs = [], rfCounter = 0, rfLongest = 0\<rparr>"

definition bump_counter :: "ref_state \<Rightarrow> ref_state" where
  "bump_counter s = s\<lparr>rfCounter := Suc (rfCounter s)\<rparr>"

section \<open>Keys and channels\<close>

definition ref_entry :: "ref_state \<Rightarrow> string \<Rightarrow> (json \<times> int) option" where
  "ref_entry s k = map_of (rfKeys s) k"

definition ref_get :: "string \<Rightarrow> ref_state \<Rightarrow> wire res \<times> ref_state" where
  "ref_get k s = (case ref_entry s k of
     None \<Rightarrow> (Inl RedisNil, s) | Some (v, d) \<Rightarrow> (if rfClock s < d then Inr (Some v) else Inl RedisNil, s))"

definition ref_set :: "string \<Rightarrow> json \<Rightarrow> int \<Rightarrow> ref_state \<Rightarrow> unit res \<times> ref_state" where
  "ref_set k v ttl s = (Inr (), s\<lparr>rfKeys := (k, v, rfClock s + ttl) # rfKeys s\<rparr>)"

definition ref_publish :: "string \<Rightarrow> json \<Rightarrow> ref_state \<Rightarrow> nat res \<times> ref_state" where
  "ref_publish c v s = (Inr (count_list (rfSubs s) c), s\<lparr>rfPublished := rfPublished s @ [(c, v)],
     rfDelivered := (if count_list (rfSubs s) c = 0 then rfDelivered s else Suc (rfDelivered s))\<rparr>)"

section \<open>The stream\<close>

definition ref_pel :: "ref_state \<Rightarrow> pel" where
  "ref_pel s = map_of (map (\<lambda>e. (peID e, (peOwner e, peValues e))) (rfPending s))"

fun longest :: "string list \<Rightarrow> nat" where
  "longest [] = 0"
| "longest (x # xs) = (let n = longest xs in if length x \<le> n then n else length x)"

lemma longest: "x \<in> set xs \<Longrightarrow> length x \<le> longest xs"
  by (induction xs) (auto simp: Let_def)

text \<open>A new id is longer than those stored and than \<^verbatim>\<open>rfLongest\<close>, the longest that was removed.\<close>

definition fresh_id :: "ref_state \<Rightarrow> string" where
  "fresh_id s = replicate (Suc (longest (map xID (rfBacklog s) @ map peID (rfPending s)) + rfLongest s)) (CHR ''1'')"

definition ref_xadd :: "string \<Rightarrow> xvalues \<Rightarrow> ref_state \<Rightarrow> string res \<times> ref_state" where
  "ref_xadd st vs s =
     (if st = PendingStream
      then (Inr (fresh_id s), s\<lparr>rfBacklog := rfBacklog s @ [\<lparr>xID = fresh_id s, xValues = vs\<rparr>]\<rparr>)
      else (Inl (Err ''ERR no such stream''), s))"

definition ref_xgroup_create :: "string \<Rightarrow> string \<Rightarrow> string \<Rightarrow> ref_state \<Rightarrow> unit res \<times> ref_state" where
  "ref_xgroup_create st g from s = (Inl (Err ''BUSYGROUP Consumer Group name already exists''), s)"

definition ref_xreadgroup :: "string \<Rightarrow> string \<Rightarrow> string \<Rightarrow> nat \<Rightarrow> ref_state \<Rightarrow> xmessage list list res \<times> ref_state" where
  "ref_xreadgroup g c st n s =
     (if g \<noteq> ConsumerGroup \<or> st \<noteq> PendingStream then (Inl (Err ''NOGROUP''), s)
      else (let ms = take n (rfBacklog s) in
        if ms = [] then (Inl RedisNil, s\<lparr>rfConsumers := List.insert c (rfConsumers s)\<rparr>)
        else (Inr [ms], s\<lparr>rfBacklog := drop n (rfBacklog s),
          rfPending := map (\<lambda>m. \<lparr>peID = xID m, peOwner = c, peValues = xValues m, peSince = rfClock s\<rparr>) ms @ rfPending s,
          rfConsumers := List.insert c (rfConsumers s)\<rparr>)))"

definition ref_xack :: "string \<Rightarrow> string \<Rightarrow> string \<Rightarrow> ref_state \<Rightarrow> unit res \<times> ref_state" where
  "ref_xack st g i s = (Inr (), s\<lparr>rfPending := filter (\<lambda>e. peID e \<noteq> i) (rfPending s),
     rfLongest := (if length i \<le> rfLongest s then rfLongest s else length i)\<rparr>)"

text \<open>The ids from the start of a scan on, in order.\<close>

definition scan_ids :: "string \<Rightarrow> ref_state \<Rightarrow> string list" where
  "scan_ids start s = filter (\<lambda>i. start \<le> i) (sort (remdups (map peID (rfPending s))))"

definition claim_values :: "ref_state \<Rightarrow> string list \<Rightarrow> xmessage list" where
  "claim_values s ids = List.map_filter (\<lambda>i. map_option (\<lambda>(c, v). \<lparr>xID = i, xValues = v\<rparr>) (ref_pel s i)) ids"

definition idle_since :: "ref_state \<Rightarrow> int \<Rightarrow> string \<Rightarrow> bool" where
  "idle_since s idle i = list_ex (\<lambda>e. peID e = i \<and> idle \<le> rfClock s - peSince e) (rfPending s)"

text \<open>A scan claims at most \<^verbatim>\<open>n\<close> idle ids and looks at ten times as many; what is left is where the next one starts.\<close>

fun scan :: "(string \<Rightarrow> bool) \<Rightarrow> nat \<Rightarrow> nat \<Rightarrow> string list \<Rightarrow> string list \<times> string list" where
  "scan P 0 n ids = ([], ids)"
| "scan P (Suc a) n [] = ([], [])"
| "scan P (Suc a) n (i # ids) =
     (if n = 0 then ([], i # ids)
      else if P i then (case scan P a (n - 1) ids of (cl, rest) \<Rightarrow> (i # cl, rest))
      else scan P a n ids)"

definition ref_xautoclaim :: "string \<Rightarrow> string \<Rightarrow> string \<Rightarrow> int \<Rightarrow> string \<Rightarrow> nat \<Rightarrow> ref_state
    \<Rightarrow> (xmessage list \<times> string) res \<times> ref_state" where
  "ref_xautoclaim st g c idle start n s =
     (if n = 0 then (Inl (Err ''ERR COUNT must be > 0''), s)
      else (case scan (idle_since s idle) (10 * n) n (scan_ids start s) of (claimed_ids, rest) \<Rightarrow>
              let nxt = (case rest of [] \<Rightarrow> ''0-0'' | i # _ \<Rightarrow> i)
              in (Inr (claim_values s claimed_ids, nxt), s\<lparr>rfPending :=
                  map (\<lambda>e. if peID e \<in> set claimed_ids then e\<lparr>peOwner := c, peSince := rfClock s\<rparr> else e) (rfPending s)\<rparr>)))"

definition ref_xpending :: "string \<Rightarrow> string \<Rightarrow> string \<Rightarrow> nat \<Rightarrow> ref_state \<Rightarrow> string list res \<times> ref_state" where
  "ref_xpending st g c n s = (Inr (take n (map peID (filter (\<lambda>e. peOwner e = c) (rfPending s)))), s)"

definition ref_delconsumer :: "string \<Rightarrow> string \<Rightarrow> string \<Rightarrow> ref_state \<Rightarrow> unit res \<times> ref_state" where
  "ref_delconsumer st g c s = (Inr (), s\<lparr>rfConsumers := filter (\<lambda>x. x \<noteq> c) (rfConsumers s),
     rfPending := filter (\<lambda>e. map_option fst (ref_pel s (peID e)) \<noteq> Some c) (rfPending s),
     rfLongest := longest (map peID (rfPending s)) + rfLongest s\<rparr>)"

definition ref_consumers :: "string \<Rightarrow> string \<Rightarrow> ref_state \<Rightarrow> consumer_info list res \<times> ref_state" where
  "ref_consumers st g s = (Inr (map (\<lambda>c. \<lparr>ciName = c,
     ciPending = length (filter (\<lambda>e. peOwner e = c) (rfPending s)), ciIdle = rfClock s\<rparr>) (rfConsumers s)), s)"

section \<open>Identifiers, tokens and the rest\<close>

definition hex_digit :: "int \<Rightarrow> char" where
  "hex_digit n = (if n < 10 then char_of (48 + n) else char_of (87 + n))"

fun hex_string :: "nat \<Rightarrow> int \<Rightarrow> string" where
  "hex_string 0 n = []"
| "hex_string (Suc k) n = hex_string k (n div 16) @ [hex_digit (n mod 16)]"

definition ref_uuid_string :: "uuid \<Rightarrow> string" where
  "ref_uuid_string u = (let h = hex_string 32 (uint u) in
     take 8 h @ ''-'' @ take 4 (drop 8 h) @ ''-'' @ take 4 (drop 12 h) @ ''-'' @ take 4 (drop 16 h) @ ''-'' @ drop 20 h)"

definition hex_value :: "char \<Rightarrow> int option" where
  "hex_value c = (let n = of_char c :: int in
     if 48 \<le> n \<and> n \<le> 57 then Some (n - 48)
     else if 97 \<le> n \<and> n \<le> 102 then Some (n - 87)
     else if 65 \<le> n \<and> n \<le> 70 then Some (n - 55) else None)"

fun hex_read :: "int \<Rightarrow> string \<Rightarrow> int option" where
  "hex_read acc [] = Some acc"
| "hex_read acc (c # cs) = (case hex_value c of None \<Rightarrow> None | Some n \<Rightarrow> hex_read (acc * 16 + n) cs)"

definition ref_uuid_parse :: "string \<Rightarrow> uuid option" where
  "ref_uuid_parse t =
     (if length t = 36 \<and> t ! 8 = CHR ''-'' \<and> t ! 13 = CHR ''-'' \<and> t ! 18 = CHR ''-'' \<and> t ! 23 = CHR ''-''
      then map_option word_of_int (hex_read 0 (filter (\<lambda>c. c \<noteq> CHR ''-'') t)) else None)"

text \<open>A uuid reads back from the text it is written as.\<close>

lemma hex_digit_values: "\<forall>n\<in>set [0..15]. hex_value (hex_digit n) = Some n \<and> hex_digit n \<noteq> CHR ''-''"
  by code_simp

lemma hex_digit_ok: "0 \<le> n \<Longrightarrow> n < 16 \<Longrightarrow> hex_value (hex_digit n) = Some n \<and> hex_digit n \<noteq> CHR ''-''"
  using hex_digit_values by (simp del: set_upto add: set_upto)

lemma hex_string_length [simp]: "length (hex_string k n) = k"
  by (induction k arbitrary: n) simp_all

lemma hex_string_digits: "c \<in> set (hex_string k n) \<Longrightarrow> c \<noteq> CHR ''-''"
proof (induction k arbitrary: n)
  case (Suc k)
  then show ?case using hex_digit_ok [of "n mod 16"] by auto
qed simp

lemma hex_read_append: "hex_read acc (cs @ [c]) = (case hex_read acc cs of None \<Rightarrow> None | Some a \<Rightarrow> map_option (\<lambda>n. a * 16 + n) (hex_value c))"
  by (induction cs arbitrary: acc) (auto split: option.splits)

lemma hex_read_string: "hex_read 0 (hex_string k n) = Some (n mod 16 ^ k)"
proof (induction k arbitrary: n)
  case (Suc k)
  have "hex_value (hex_digit (n mod 16)) = Some (n mod 16)" using hex_digit_ok by simp
  moreover have "n div 16 mod 16 ^ k * 16 + n mod 16 = n mod 16 ^ Suc k"
    using zmod_zmult2_eq [of "16 ^ k" n 16] by simp
  ultimately show ?case using Suc [of "n div 16"] by (simp add: hex_read_append)
qed simp

lemma dash_free: "(\<And>c. c \<in> set h \<Longrightarrow> c \<noteq> CHR ''-'') \<Longrightarrow> length h = 32 \<Longrightarrow>
    filter (\<lambda>c. c \<noteq> CHR ''-'') (take 8 h @ ''-'' @ take 4 (drop 8 h) @ ''-'' @ take 4 (drop 12 h) @ ''-'' @ take 4 (drop 16 h) @ ''-'' @ drop 20 h) = h"
proof -
  assume c: "\<And>c. c \<in> set h \<Longrightarrow> c \<noteq> CHR ''-''" and "length h = 32"
  have f: "set g \<subseteq> set h \<Longrightarrow> filter (\<lambda>c. c \<noteq> CHR ''-'') g = g" for g
    using c by (auto intro!: filter_True)
  have "h = take 8 h @ take 4 (drop 8 h) @ take 4 (drop 12 h) @ take 4 (drop 16 h) @ drop 20 h"
    using append_take_drop_id [of 8 h] append_take_drop_id [of 4 "drop 8 h"] append_take_drop_id [of 4 "drop 12 h"]
      append_take_drop_id [of 4 "drop 16 h"] by simp
  have s: "set (take 8 h) \<subseteq> set h" "set (take 4 (drop 8 h)) \<subseteq> set h" "set (take 4 (drop 12 h)) \<subseteq> set h"
    "set (take 4 (drop 16 h)) \<subseteq> set h" "set (drop 20 h) \<subseteq> set h"
    by (auto dest: in_set_takeD in_set_dropD)
  show ?thesis using f [OF s(1)] f [OF s(2)] f [OF s(3)] f [OF s(4)] f [OF s(5)] \<open>h = _\<close> by simp
qed

lemma ref_uuid_roundtrip: "ref_uuid_parse (ref_uuid_string u) = Some u"
proof -
  let ?h = "hex_string 32 (uint u)"
  have "filter (\<lambda>c. c \<noteq> CHR ''-'') (ref_uuid_string u) = ?h"
    using dash_free [of ?h] hex_string_digits by (simp add: ref_uuid_string_def Let_def)
  moreover have "uint u mod 16 ^ 32 = uint u" using uint_lt2p [of u] by (simp add: mod_pos_pos_trivial)
  ultimately show ?thesis
    by (simp add: ref_uuid_parse_def hex_read_string) (simp add: ref_uuid_string_def Let_def nth_append)
qed

definition ref_rand :: "nat \<Rightarrow> ref_state \<Rightarrow> bytes res \<times> ref_state" where
  "ref_rand n s = (Inr (replicate n (of_nat (rfCounter s))), bump_counter s)"

definition ref_uuid :: "ref_state \<Rightarrow> uuid \<times> ref_state" where
  "ref_uuid s = (of_nat (Suc (rfCounter s)), bump_counter s)"

definition ref_jwt_parse :: "string list \<Rightarrow> string \<Rightarrow> ref_state \<Rightarrow> access_claims res" where
  "ref_jwt_parse algs raw s =
     (let role = takeWhile (\<lambda>c. c \<noteq> CHR ''.'') raw; rest = dropWhile (\<lambda>c. c \<noteq> CHR ''.'') raw in
      if algs = [''RS256''] \<and> rest \<noteq> []
      then Inr \<lparr>acSubject = tl rest, acRole = role, acExpiresAt = rfClock s + 1, acIssuedAt = rfClock s\<rparr>
      else Inl (Err ''token is malformed''))"

definition ref_env :: "ref_state env" where
  "ref_env = \<lparr>
     uuid_parse = ref_uuid_parse, uuid_string = ref_uuid_string, uuid_new = ref_uuid,
     time_now = rfClock, ctx_err = (\<lambda>_. False), rand_read = ref_rand,
     pg_fault = (\<lambda>s. (NoFault, s)), pg_now = rfClock, pg_uuid = ref_uuid,
     pg_row_locked = (\<lambda>_ _. False),
     pgp_decrypt = (\<lambda>k b. Some (map (\<lambda>x. char_of (unat x)) b)), pgp_encrypt = (\<lambda>k t s. (map of_char t, s)),
     pg_collate = (\<lambda>t. t), r_ping = (\<lambda>s. (Inr (), s)), r_get = ref_get, r_set = ref_set,
     r_publish = ref_publish, r_subscribe = (\<lambda>c s. (Inr (), s\<lparr>rfSubs := c # rfSubs s\<rparr>)),
     r_xadd = ref_xadd, r_xgroup_create = ref_xgroup_create, r_xreadgroup = ref_xreadgroup,
     r_xack = ref_xack, r_xautoclaim = ref_xautoclaim, r_xpending = ref_xpending,
     r_xgroup_delconsumer = ref_delconsumer, r_xinfo_consumers = ref_consumers,
     m_presign_put = (\<lambda>b k ttl s. (Inr (''put:'' @ b @ ''/'' @ k), s)),
     m_presign_get = (\<lambda>b k ttl s. (Inr (''get:'' @ b @ ''/'' @ k), s)),
     m_stat = (\<lambda>b k s. (if k \<in> set (rfBlobs s) then Inr () else Inl (Err ''NoSuchKey''), s)),
     m_error_code = err_text,
     m_remove = (\<lambda>b k s. (Inr (), s\<lparr>rfBlobs := filter (\<lambda>x. x \<noteq> k) (rfBlobs s)\<rparr>)),
     m_bucket_exists = (\<lambda>b s. (Inr True, s)), m_make_bucket = (\<lambda>b s. (Inr (), s)),
     sha256 = rev, bcrypt_compare = (\<lambda>h p. h = CHR ''$'' # p),
     bcrypt_generate = (\<lambda>p s. (Inr (CHR ''$'' # p), s)),
     jwt_sign = (\<lambda>c. Inr (acRole c @ ''.'' @ acSubject c)), jwt_parse = ref_jwt_parse,
     mail_parse = (\<lambda>a. if CHR ''@'' \<in> set a then Some a else None)\<rparr>"

section \<open>It satisfies the laws\<close>

lemma counter_sel [simp]:
  "rfPublished (bump_counter s) = rfPublished s" "rfDelivered (bump_counter s) = rfDelivered s" "rfBacklog (bump_counter s) = rfBacklog s"
  "rfPending (bump_counter s) = rfPending s"
  by (simp_all add: bump_counter_def)

interpretation ref_publish: publish_history ref_env rfPublished
  by unfold_locales
     (simp_all add: ref_env_def ref_uuid_def ref_rand_def ref_get_def ref_set_def ref_publish_def split: option.splits)

interpretation ref_deliveries: deliveries ref_env rfDelivered False
  by unfold_locales
     (simp_all add: ref_env_def ref_uuid_def ref_rand_def ref_get_def ref_set_def ref_publish_def split: option.splits)

definition ref_up :: "ref_state \<Rightarrow> bool" where
  "ref_up s \<longleftrightarrow> 0 \<le> rfClock s"

interpretation ref_answers: answering ref_env ref_up
  by unfold_locales (simp_all add: ref_up_def ref_env_def ref_uuid_def ref_rand_def bump_counter_def ref_get_def ref_set_def
      ref_publish_def split: option.splits)

text \<open>The same environment on a network that loses every reply of PUBLISH.\<close>

definition lossy_env :: "ref_state env" where
  "lossy_env = ref_env\<lparr>r_publish := (\<lambda>c v s. (Inl (Err ''read: connection reset by peer''), snd (ref_publish c v s)))\<rparr>"

interpretation lossy_deliveries: deliveries lossy_env rfDelivered True
  by unfold_locales
     (simp_all add: lossy_env_def ref_env_def ref_uuid_def ref_rand_def ref_get_def ref_set_def ref_publish_def split: option.splits)

interpretation ref_kv: kv_service ref_env ref_entry rfClock
  by unfold_locales (auto simp: ref_env_def ref_get_def ref_set_def ref_entry_def split: option.splits prod.splits if_splits)

definition ref_issued :: "ref_state \<Rightarrow> string set" where
  "ref_issued s = xID ` set (rfBacklog s) \<union> peID ` set (rfPending s) \<union> {i. length i \<le> rfLongest s}"

lemma fresh_id_unissued: "fresh_id s \<notin> ref_issued s"
proof -
  have "length i < length (fresh_id s)" if "i \<in> ref_issued s" for i
  proof (cases "length i \<le> rfLongest s")
    case True
    then show ?thesis by (simp add: fresh_id_def)
  next
    case False
    with that have "i \<in> set (map xID (rfBacklog s) @ map peID (rfPending s))" by (auto simp: ref_issued_def)
    from longest [OF this] show ?thesis by (simp add: fresh_id_def)
  qed
  then show ?thesis by blast
qed

lemma fresh_id_new: "i \<in> xID ` set (rfBacklog s) \<union> peID ` set (rfPending s) \<Longrightarrow> i \<noteq> fresh_id s"
  using fresh_id_unissued [of s] by (auto simp: ref_issued_def)

lemma ref_pel_None: "i \<notin> peID ` set (rfPending s) \<Longrightarrow> ref_pel s i = None"
  by (simp add: ref_pel_def map_of_eq_None_iff image_comp comp_def)

lemma ref_pel_dom: "dom (ref_pel s) = peID ` set (rfPending s)"
  by (auto simp: ref_pel_def dom_map_of_conv_image_fst image_image)

lemma map_of_filter_key:
  "map_of (map (\<lambda>e. (k e, v e)) (filter (\<lambda>e. P (k e)) es)) =
     (\<lambda>i. if P i then map_of (map (\<lambda>e. (k e, v e)) es) i else None)"
  by (induction es) (auto simp: fun_eq_iff)

lemma ref_xack_pel: "ref_pel (snd (ref_xack st g i s)) = (ref_pel s)(i := None)"
  by (auto simp: ref_xack_def ref_pel_def fun_eq_iff map_of_filter_key [where P = "\<lambda>x. x \<noteq> i"])

lemma ref_del_pel: "ref_pel (snd (ref_delconsumer st g c s)) = disowned c (ref_pel s)"
proof -
  define P where "P = (\<lambda>x. map_option fst (ref_pel s x) \<noteq> Some c)"
  have "ref_pel (snd (ref_delconsumer st g c s)) =
      map_of (map (\<lambda>e. (peID e, (peOwner e, peValues e))) (filter (\<lambda>e. P (peID e)) (rfPending s)))"
  proof -
    have "rfPending (snd (ref_delconsumer st g c s)) = filter (\<lambda>e. P (peID e)) (rfPending s)"
      by (simp add: ref_delconsumer_def P_def)
    then show ?thesis unfolding ref_pel_def [of "snd (ref_delconsumer st g c s)"] by (rule arg_cong)
  qed
  also have "\<dots> = (\<lambda>i. if P i then ref_pel s i else None)"
    unfolding ref_pel_def by (rule map_of_filter_key)
  finally show ?thesis by (auto simp: P_def disowned_def fun_eq_iff split: option.splits)
qed

lemma ref_claim_pel:
  "ref_pel (s\<lparr>rfPending := map (\<lambda>e. if peID e \<in> S then e\<lparr>peOwner := c, peSince := t\<rparr> else e) (rfPending s)\<rparr>) =
     reassigned c S (ref_pel s)"
proof
  fix i
  have "map_of (map (\<lambda>e. (peID e, peOwner e, peValues e)) (map (\<lambda>e. if peID e \<in> S then e\<lparr>peOwner := c, peSince := t\<rparr> else e) es)) i =
     (if i \<in> S then map_option (\<lambda>(_, v). (c, v)) (map_of (map (\<lambda>e. (peID e, peOwner e, peValues e)) es) i)
      else map_of (map (\<lambda>e. (peID e, peOwner e, peValues e)) es) i)" for es
    by (induction es) auto
  from this [of "rfPending s"]
  show "ref_pel (s\<lparr>rfPending := map (\<lambda>e. if peID e \<in> S then e\<lparr>peOwner := c, peSince := t\<rparr> else e) (rfPending s)\<rparr>) i =
     reassigned c S (ref_pel s) i"
    by (simp add: ref_pel_def reassigned_def comp_def)
qed

lemma ref_read_pel:
  "map_of (map (\<lambda>e. (peID e, peOwner e, peValues e))
     (map (\<lambda>m. \<lparr>peID = xID m, peOwner = c, peValues = xValues m, peSince = t\<rparr>) ms @ es)) =
   delivered c ms (map_of (map (\<lambda>e. (peID e, peOwner e, peValues e)) es))"
  by (simp add: delivered_def comp_def map_add_def fun_eq_iff split: option.splits)

lemma claim_values_pel:
  "m \<in> set (claim_values s ids) \<Longrightarrow> xID m \<in> set ids \<and> (\<exists>c. ref_pel s (xID m) = Some (c, xValues m))"
  by (auto simp: claim_values_def map_filter_def)

lemma claim_values_ids:
  "set ids \<subseteq> peID ` set (rfPending s) \<Longrightarrow> xID ` set (claim_values s ids) = set ids"
proof -
  assume "set ids \<subseteq> peID ` set (rfPending s)"
  then have "\<forall>i\<in>set ids. \<exists>c v. ref_pel s i = Some (c, v)" using ref_pel_dom [of s] by fast
  then show ?thesis by (force simp: claim_values_def map_filter_def image_iff)
qed

lemma scan_ids_set: "set (scan_ids start s) = {i \<in> dom (ref_pel s). start \<le> i}"
  by (auto simp: scan_ids_def ref_pel_dom)

lemma claimed_subset:
  "set (filter P (take n (scan_ids start s))) \<subseteq> peID ` set (rfPending s)"
  using set_take_subset [of n "scan_ids start s"] by (auto simp: scan_ids_def)

lemma scan_split:
  "scan P a n ids = (cl, rest) \<Longrightarrow> \<exists>j. cl = filter P (take j ids) \<and> rest = drop j ids \<and> (0 < a \<and> 0 < n \<and> ids \<noteq> [] \<longrightarrow> 0 < j)"
proof (induction P a n ids arbitrary: cl rest rule: scan.induct)
  case (3 P a n i ids)
  show ?case
  proof (cases "n = 0")
    case True
    with 3 show ?thesis by (auto intro: exI [of _ 0])
  next
    case n: False
    show ?thesis
    proof (cases "P i")
      case True
      obtain cl' where c: "scan P a (n - 1) ids = (cl', rest)" "cl = i # cl'"
        using "3.prems" n True by (auto split: prod.splits)
      from "3.IH"(1) [OF n True c(1)] c(2) True show ?thesis by (auto intro: exI [of _ "Suc j" for j])
    next
      case False
      then have "scan P a n ids = (cl, rest)" using "3.prems" n by simp
      from "3.IH"(2) [OF n False this] False show ?thesis by (auto intro: exI [of _ "Suc j" for j])
    qed
  qed
qed (auto intro: exI [of _ 0])

lemma scan_nothing: "scan P a n ids = ([], rest) \<Longrightarrow> 0 < n \<Longrightarrow> length ids \<le> a \<Longrightarrow> rest = []"
  by (induction P a n ids rule: scan.induct) (auto split: if_splits prod.splits)

lemma ref_xautoclaim_cases:
  assumes "ref_xautoclaim st g c idle start n s = (r, s')"
  obtains (zero) "n = 0" "r = Inl (Err ''ERR COUNT must be > 0'')" "s' = s"
  | (scanned) cl rest where "n \<noteq> 0" "scan (idle_since s idle) (10 * n) n (scan_ids start s) = (cl, rest)"
    "r = Inr (claim_values s cl, case rest of [] \<Rightarrow> ''0-0'' | i # _ \<Rightarrow> i)"
    "s' = s\<lparr>rfPending := map (\<lambda>e. if peID e \<in> set cl then e\<lparr>peOwner := c, peSince := rfClock s\<rparr> else e) (rfPending s)\<rparr>"
proof (cases "n = 0")
  case True
  with assms zero show ?thesis by (simp add: ref_xautoclaim_def)
next
  case False
  obtain cl rest where "scan (idle_since s idle) (10 * n) n (scan_ids start s) = (cl, rest)" by fastforce
  with False assms show ?thesis by (intro scanned [of cl rest]) (simp_all add: ref_xautoclaim_def Let_def)
qed

lemma ref_xautoclaim_scan:
  assumes "ref_xautoclaim st g c idle start n s = (Inr (ms, nxt), s')"
  obtains j where "ms = claim_values s (filter (idle_since s idle) (take j (scan_ids start s)))"
    "nxt = (case drop j (scan_ids start s) of [] \<Rightarrow> ''0-0'' | i # _ \<Rightarrow> i)" "scan_ids start s \<noteq> [] \<longrightarrow> 0 < j"
    "s' = s\<lparr>rfPending := map (\<lambda>e. if peID e \<in> set (filter (idle_since s idle) (take j (scan_ids start s)))
       then e\<lparr>peOwner := c, peSince := rfClock s\<rparr> else e) (rfPending s)\<rparr>"
    "filter (idle_since s idle) (take j (scan_ids start s)) = [] \<longrightarrow> length (scan_ids start s) \<le> 10 * n \<longrightarrow> drop j (scan_ids start s) = []"
  using assms
proof (cases rule: ref_xautoclaim_cases)
  case (scanned cl rest)
  from scan_split [OF scanned(2)] obtain j where j: "cl = filter (idle_since s idle) (take j (scan_ids start s))"
    "rest = drop j (scan_ids start s)" "0 < 10 * n \<and> 0 < n \<and> scan_ids start s \<noteq> [] \<longrightarrow> 0 < j" by blast
  have e: "cl = [] \<longrightarrow> length (scan_ids start s) \<le> 10 * n \<longrightarrow> rest = []" using scan_nothing scanned(1,2) by blast
  show ?thesis
  proof (rule that [of j])
    show "ms = claim_values s (filter (idle_since s idle) (take j (scan_ids start s)))"
      "nxt = (case drop j (scan_ids start s) of [] \<Rightarrow> ''0-0'' | i # _ \<Rightarrow> i)"
      using scanned(3) unfolding j(1,2) by blast+
    show "scan_ids start s \<noteq> [] \<longrightarrow> 0 < j" using j(3) scanned(1) by auto
  qed (use scanned(4) e in \<open>unfold j(1,2)\<close>)
qed simp

lemma ref_xautoclaim_Inr:
  assumes "ref_xautoclaim st g c idle start n s = (Inr (ms, nxt), s')"
  shows "(\<forall>m\<in>set ms. \<exists>c'. ref_pel s (xID m) = Some (c', xValues m))"
    "ref_pel s' = reassigned c (xID ` set ms) (ref_pel s)" "rfBacklog s' = rfBacklog s"
proof -
  obtain j where
    ms: "ms = claim_values s (filter (idle_since s idle) (take j (scan_ids start s)))" and
    nx: "nxt = (case drop j (scan_ids start s) of [] \<Rightarrow> ''0-0'' | i # _ \<Rightarrow> i)" and
    j0: "(scan_ids start s) \<noteq> [] \<longrightarrow> 0 < j" and
    s': "s' = s\<lparr>rfPending := map (\<lambda>e. if peID e \<in> set (filter (idle_since s idle) (take j (scan_ids start s)))
       then e\<lparr>peOwner := c, peSince := rfClock s\<rparr> else e) (rfPending s)\<rparr>" and
    small: "filter (idle_since s idle) (take j (scan_ids start s)) = [] \<longrightarrow> length (scan_ids start s) \<le> 10 * n \<longrightarrow> drop j (scan_ids start s) = []"
    by (rule ref_xautoclaim_scan [OF assms])
  show "(\<forall>m\<in>set ms. \<exists>c'. ref_pel s (xID m) = Some (c', xValues m))" using claim_values_pel ms by blast
  show "ref_pel s' = reassigned c (xID ` set ms) (ref_pel s)"
    unfolding s' ref_claim_pel ms claim_values_ids [OF claimed_subset] ..
  show "rfBacklog s' = rfBacklog s" by (simp add: s')
qed

lemma ref_xautoclaim_Inl: "ref_xautoclaim st g c idle start n s = (Inl e, s') \<Longrightarrow> s' = s"
  by (elim ref_xautoclaim_cases) simp_all

lemma reassigned_empty [simp]: "reassigned c {} p = p"
  by (simp add: reassigned_def)

lemma ref_xread:
  assumes "ref_xreadgroup ConsumerGroup c PendingStream n s = (r, s')"
  shows "ref_pel s' = delivered c (take n (rfBacklog s)) (ref_pel s)" "rfBacklog s' = drop n (rfBacklog s)"
    "r = Inr ss \<Longrightarrow> ss = [take n (rfBacklog s)]"
proof -
  have d: "delivered c [] p = p" for p by (simp add: delivered_def)
  have n: "take n (rfBacklog s) = [] \<Longrightarrow> drop n (rfBacklog s) = rfBacklog s" by (cases n) auto
  show "ref_pel s' = delivered c (take n (rfBacklog s)) (ref_pel s)" "rfBacklog s' = drop n (rfBacklog s)"
    "r = Inr ss \<Longrightarrow> ss = [take n (rfBacklog s)]"
    using assms n unfolding ref_xreadgroup_def Let_def
    by (auto simp: ref_pel_def d ref_read_pel simp del: map_append split: if_splits)
qed

lemma ref_xpending_one:
  assumes "ref_xpending st g c 1 s = (rp, s')" "rp = Inr [] \<or> rp = Inl RedisNil"
  shows "ref_pel s i \<noteq> Some (c, v)"
proof
  assume "ref_pel s i = Some (c, v)"
  then obtain e where "e \<in> set (rfPending s)" "peOwner e = c"
    by (auto simp: ref_pel_def dest!: map_of_SomeD)
  then have "filter (\<lambda>e. peOwner e = c) (rfPending s) \<noteq> []" by (auto simp: filter_empty_conv)
  then show False using assms by (cases "filter (\<lambda>e. peOwner e = c) (rfPending s)") (auto simp: ref_xpending_def)
qed

interpretation ref_stream: stream_service ref_env ref_pel rfBacklog
proof unfold_locales
  fix s s' c n e ss
  assume "r_xreadgroup ref_env ConsumerGroup c PendingStream n s = (Inl e, s')"
  then have "ref_xreadgroup ConsumerGroup c PendingStream n s = (Inl e, s')" by (simp add: ref_env_def)
  from ref_xread [OF this]
  show "(ref_pel s' = ref_pel s \<and> rfBacklog s' = rfBacklog s) \<or>
      (ref_pel s' = delivered c (take n (rfBacklog s)) (ref_pel s) \<and> rfBacklog s' = drop n (rfBacklog s))" by blast
next
  fix s s' c n ss
  assume "r_xreadgroup ref_env ConsumerGroup c PendingStream n s = (Inr ss, s')"
  then have "ref_xreadgroup ConsumerGroup c PendingStream n s = (Inr ss, s')" by (simp add: ref_env_def)
  from ref_xread [OF this]
  show "(ss = [take n (rfBacklog s)] \<or> ss = [] \<and> take n (rfBacklog s) = []) \<and>
      ref_pel s' = delivered c (take n (rfBacklog s)) (ref_pel s) \<and> rfBacklog s' = drop n (rfBacklog s)" by blast
next
  fix s s' c idle start n ms nxt
  assume "r_xautoclaim ref_env PendingStream ConsumerGroup c idle start n s = (Inr (ms, nxt), s')"
  then have "ref_xautoclaim PendingStream ConsumerGroup c idle start n s = (Inr (ms, nxt), s')" by (simp add: ref_env_def)
  from ref_xautoclaim_Inr [OF this]
  show "(\<forall>m\<in>set ms. \<exists>c'. ref_pel s (xID m) = Some (c', xValues m)) \<and>
      ref_pel s' = reassigned c (xID ` set ms) (ref_pel s) \<and> rfBacklog s' = rfBacklog s" by blast
next
  fix s s' c idle start n e
  assume "r_xautoclaim ref_env PendingStream ConsumerGroup c idle start n s = (Inl e, s')"
  then have "s' = s" by (simp add: ref_env_def ref_xautoclaim_Inl)
  then show "(\<exists>S. ref_pel s' = reassigned c S (ref_pel s)) \<and> rfBacklog s' = rfBacklog s"
    by (auto intro: exI [of _ "{}"])
next
  fix s s' i r
  assume "r_xack ref_env PendingStream ConsumerGroup i s = (r, s')"
  then have "s' = snd (ref_xack PendingStream ConsumerGroup i s)" by (simp add: ref_env_def)
  then show "(ref_pel s' = (ref_pel s)(i := None) \<or> ref_pel s' = ref_pel s \<and> (\<exists>e. r = Inl e)) \<and> rfBacklog s' = rfBacklog s"
    using ref_xack_pel by (simp add: ref_xack_def)
next
  fix s s' c r
  assume "r_xgroup_delconsumer ref_env PendingStream ConsumerGroup c s = (r, s')"
  then have "s' = snd (ref_delconsumer PendingStream ConsumerGroup c s)" by (simp add: ref_env_def)
  then show "(ref_pel s' = disowned c (ref_pel s) \<or> ref_pel s' = ref_pel s) \<and> rfBacklog s' = rfBacklog s"
    using ref_del_pel by (simp add: ref_delconsumer_def)
next
  fix s s' c rp
  assume a: "r_xpending ref_env PendingStream ConsumerGroup c 1 s = (rp, s')"
  then have p: "ref_xpending PendingStream ConsumerGroup c 1 s = (rp, s')" by (simp add: ref_env_def)
  then have "s' = s" by (simp add: ref_xpending_def)
  then show "ref_pel s' = ref_pel s \<and> rfBacklog s' = rfBacklog s \<and>
      (rp = Inr [] \<or> rp = Inl RedisNil \<longrightarrow> (\<forall>i v. ref_pel s i \<noteq> Some (c, v)))"
    using ref_xpending_one [OF p] by blast
next
  fix s s' vs i
  assume "r_xadd ref_env PendingStream vs s = (Inr i, s')"
  then have i: "i = fresh_id s" and s': "s' = s\<lparr>rfBacklog := rfBacklog s @ [\<lparr>xID = fresh_id s, xValues = vs\<rparr>]\<rparr>"
    by (auto simp: ref_env_def ref_xadd_def)
  have "i \<notin> xID ` set (rfBacklog s)" "i \<notin> peID ` set (rfPending s)" using fresh_id_new [of i s] i by blast+
  then show "ref_pel s' = ref_pel s \<and> rfBacklog s' = rfBacklog s @ [\<lparr>xID = i, xValues = vs\<rparr>] \<and>
      ref_pel s i = None \<and> i \<notin> xID ` set (rfBacklog s)"
    by (simp add: s' i [symmetric] ref_pel_None) (simp add: ref_pel_def)
next
  fix s s' vs e
  assume "r_xadd ref_env PendingStream vs s = (Inl e, s')"
  then have False by (simp add: ref_env_def ref_xadd_def)
  then show "ref_pel s' = ref_pel s \<and> (rfBacklog s' = rfBacklog s \<or>
      (\<exists>i. rfBacklog s' = rfBacklog s @ [\<lparr>xID = i, xValues = vs\<rparr>] \<and> ref_pel s i = None \<and> i \<notin> xID ` set (rfBacklog s)))" ..
qed (auto simp: ref_env_def ref_pel_def ref_uuid_def ref_rand_def ref_get_def ref_set_def ref_publish_def
      ref_consumers_def split: option.splits)

interpretation ref_ids: stream_ids ref_env ref_pel rfBacklog ref_issued
proof unfold_locales
  fix vs s r s'
  assume "r_xadd ref_env PendingStream vs s = (r, s')"
  then have "s' = s\<lparr>rfBacklog := rfBacklog s @ [\<lparr>xID = fresh_id s, xValues = vs\<rparr>]\<rparr>"
    by (auto simp: ref_env_def ref_xadd_def)
  then show "ref_issued s \<subseteq> ref_issued s' \<and> (\<forall>m\<in>set (rfBacklog s') - set (rfBacklog s). xID m \<notin> ref_issued s)"
    using fresh_id_unissued [of s] by (auto simp: ref_issued_def)
next
  fix c n s rr s'
  assume "r_xreadgroup ref_env ConsumerGroup c PendingStream n s = (rr, s')"
  then have r: "ref_xreadgroup ConsumerGroup c PendingStream n s = (rr, s')" by (simp add: ref_env_def)
  have "rfLongest s' = rfLongest s \<and> (rfBacklog s' = rfBacklog s \<and> rfPending s' = rfPending s \<or>
      rfBacklog s' = drop n (rfBacklog s) \<and> rfPending s' = map (\<lambda>m. \<lparr>peID = xID m, peOwner = c, peValues = xValues m, peSince = rfClock s\<rparr>) (take n (rfBacklog s)) @ rfPending s)"
    using r unfolding ref_xreadgroup_def Let_def by (auto split: if_splits)
  moreover have "xID ` set (rfBacklog s) = xID ` set (take n (rfBacklog s)) \<union> xID ` set (drop n (rfBacklog s))"
    by (metis append_take_drop_id image_Un set_append)
  ultimately show "ref_issued s \<subseteq> ref_issued s'" by (force simp: ref_issued_def image_Un image_image)
next
  fix i s ra s'
  assume "r_xack ref_env PendingStream ConsumerGroup i s = (ra, s')"
  then show "ref_issued s \<subseteq> ref_issued s'"
    by (auto simp: ref_env_def ref_xack_def ref_issued_def image_iff split: if_splits)
next
  fix c idle start n s rc s'
  assume "r_xautoclaim ref_env PendingStream ConsumerGroup c idle start n s = (rc, s')"
  then have r: "ref_xautoclaim PendingStream ConsumerGroup c idle start n s = (rc, s')" by (simp add: ref_env_def)
  have ids: "peID (if P then e\<lparr>peOwner := c, peSince := rfClock s\<rparr> else e) = peID e" for P e by simp
  have "map peID (map (\<lambda>e. if peID e \<in> S then e\<lparr>peOwner := c, peSince := rfClock s\<rparr> else e) es) = map peID es" for S es
    using ids by simp
  with r have "map peID (rfPending s') = map peID (rfPending s) \<and> rfBacklog s' = rfBacklog s \<and> rfLongest s' = rfLongest s"
    by (cases rule: ref_xautoclaim_cases) simp_all
  then have "peID ` set (rfPending s') = peID ` set (rfPending s)" "rfBacklog s' = rfBacklog s" "rfLongest s' = rfLongest s"
    by (metis set_map, simp_all)
  then show "ref_issued s \<subseteq> ref_issued s'" by (simp add: ref_issued_def)
next
  fix c s rd s'
  assume "r_xgroup_delconsumer ref_env PendingStream ConsumerGroup c s = (rd, s')"
  then have s': "s' = snd (ref_delconsumer PendingStream ConsumerGroup c s)" by (simp add: ref_env_def)
  have "length i \<le> longest (map peID (rfPending s)) + rfLongest s" if "i \<in> peID ` set (rfPending s)" for i
    using longest [of i "map peID (rfPending s)"] that by auto
  then show "ref_issued s \<subseteq> ref_issued s'" by (auto simp: s' ref_delconsumer_def ref_issued_def)
qed (auto simp: ref_env_def ref_issued_def ref_pel_dom ref_uuid_def bump_counter_def ref_rand_def ref_get_def ref_set_def
      ref_publish_def ref_xpending_def ref_consumers_def split: option.splits)

text \<open>None of its services ever fails.\<close>

interpretation ref_calm: calm_service ref_env ref_pel rfBacklog "\<lambda>_. True" "\<lambda>s. count_list (rfSubs s)"
proof unfold_locales
  fix c n s e s'
  assume "0 < (n :: nat)" "r_xreadgroup ref_env ConsumerGroup c PendingStream n s = (Inl e, s')"
  then show "rfBacklog s = []" by (auto simp: ref_env_def ref_xreadgroup_def Let_def split: if_splits)
next
  fix c n s
  have "rfKeys s' = rfKeys s \<and> rfClock s' = rfClock s \<and> rfSubs s' = rfSubs s"
    if "ref_xreadgroup ConsumerGroup c PendingStream n s = (r, s')" for r s'
    using that unfolding ref_xreadgroup_def Let_def by (auto split: if_splits)
  from this [OF prod.collapse [symmetric]]
  show "undisturbed ref_env (\<lambda>_. True) (\<lambda>s. count_list (rfSubs s)) s (snd (r_xreadgroup ref_env ConsumerGroup c PendingStream n s))"
    by (simp add: undisturbed_def ref_env_def ref_get_def ref_entry_def split: option.splits)
qed (auto simp: undisturbed_def ref_env_def ref_get_def ref_entry_def ref_publish_def ref_xack_def ref_uuid_def
      bump_counter_def split: option.splits)

interpretation ref_attempts: calm_attempts ref_env "\<lambda>_. True" "\<lambda>s. count_list (rfSubs s)"
  by unfold_locales

text \<open>The cursor: how many pending ids are not before it.\<close>

definition ref_ahead :: "ref_state \<Rightarrow> string \<Rightarrow> nat" where
  "ref_ahead s start = card {i \<in> dom (ref_pel s). start \<le> i}"

lemma finite_ref_pel: "finite {i \<in> dom (ref_pel s). start \<le> i}"
  by (simp add: ref_pel_dom)

lemma ref_cursor_moves:
  assumes "ref_xautoclaim st g c idle start k s = (Inr (ms, nxt), s')" "nxt \<noteq> ''0-0''"
  shows "ref_ahead s' nxt < ref_ahead s start"
proof -
  have dom: "dom (ref_pel s') = dom (ref_pel s)"
    unfolding ref_xautoclaim_Inr(2) [OF assms(1)] by (auto simp: reassigned_def dom_def)
  let ?ids = "scan_ids start s"
  obtain n where
    ms: "ms = claim_values s (filter (idle_since s idle) (take n ?ids))" and
    nx: "nxt = (case drop n ?ids of [] \<Rightarrow> ''0-0'' | i # _ \<Rightarrow> i)" and
    n0: "?ids \<noteq> [] \<longrightarrow> 0 < n" and
    s': "s' = s\<lparr>rfPending := map (\<lambda>e. if peID e \<in> set (filter (idle_since s idle) (take n ?ids))
       then e\<lparr>peOwner := c, peSince := rfClock s\<rparr> else e) (rfPending s)\<rparr>" and
    small: "filter (idle_since s idle) (take n ?ids) = [] \<longrightarrow> length ?ids \<le> 10 * k \<longrightarrow> drop n ?ids = []"
    by (rule ref_xautoclaim_scan [OF assms(1)])
  obtain rest where d: "drop n ?ids = nxt # rest" using nx assms(2) by (cases "drop n ?ids") auto
  then have n: "n \<noteq> 0" using n0 by auto
  have ss: "sorted ?ids \<and> distinct ?ids" by (simp add: scan_ids_def sorted_wrt_filter distinct_filter)
  have len: "n < length ?ids" using d by (metis drop_all list.distinct(1) not_less)
  then have nth: "?ids ! n = nxt" using d by (metis hd_drop_conv_nth list.sel(1))
  have "?ids ! 0 \<le> ?ids ! n" using ss len by (intro sorted_nth_mono) auto
  moreover have "?ids ! 0 \<noteq> ?ids ! n" using nth_eq_iff_index_eq [OF conjunct2 [OF ss], of 0 n] len n by linarith
  ultimately have "?ids ! 0 < nxt" unfolding nth by (rule le_neq_trans)
  have m: "?ids ! 0 \<in> {i \<in> dom (ref_pel s). start \<le> i}" "nxt \<in> {i \<in> dom (ref_pel s). start \<le> i}"
    unfolding scan_ids_set [symmetric] using len nth by (auto intro: nth_mem simp del: nth_mem)
  have "{i \<in> dom (ref_pel s). nxt \<le> i} \<subseteq> {i \<in> dom (ref_pel s). start \<le> i}"
    using m(2) by (auto intro: order_trans)
  moreover have "?ids ! 0 \<notin> {i \<in> dom (ref_pel s). nxt \<le> i}" using \<open>?ids ! 0 < nxt\<close> by (simp add: not_le)
  ultimately have "{i \<in> dom (ref_pel s). nxt \<le> i} \<subset> {i \<in> dom (ref_pel s). start \<le> i}"
    using m(1) by blast
  then show ?thesis unfolding ref_ahead_def dom by (rule psubset_card_mono [OF finite_ref_pel])
qed

interpretation ref_cursor: stream_cursor ref_env ref_pel rfBacklog ref_ahead
proof unfold_locales
  fix c idle start n s ms nxt s'
  assume "r_xautoclaim ref_env PendingStream ConsumerGroup c idle start n s = (Inr (ms, nxt), s')" "nxt \<noteq> ''0-0''"
  then show "ref_ahead s' nxt < ref_ahead s start" by (intro ref_cursor_moves) (simp_all add: ref_env_def)
next
  fix s' s :: ref_state and start
  assume "dom (ref_pel s') \<subseteq> dom (ref_pel s)"
  then show "ref_ahead s' start \<le> ref_ahead s start"
    unfolding ref_ahead_def by (intro card_mono finite_ref_pel) auto
qed

text \<open>An id that has been idle for a minute is found by every scan from an id that Redis may hand back.\<close>

definition ref_due :: "ref_state \<Rightarrow> string \<Rightarrow> string set" where
  "ref_due s start = (if ''0-0'' \<le> start then set (filter (idle_since s claimMinIdle) (scan_ids start s)) else {})"

lemma ref_due_pending:
  "rfPending s' = rfPending s \<Longrightarrow> rfClock s' = rfClock s \<Longrightarrow> ref_due s' start = ref_due s start"
  by (simp add: ref_due_def scan_ids_def idle_since_def cong: if_cong)

lemma ref_due_ack: "ref_due s start - {i} \<subseteq> ref_due (snd (ref_xack st g i s)) start"
  by (auto simp: ref_due_def scan_ids_def idle_since_def ref_xack_def list_ex_iff)

lemma ref_scan_due:
  assumes "ref_xautoclaim st g c claimMinIdle start n s = (Inr (ms, nxt), s')"
  shows "ref_due s start \<subseteq> xID ` set ms \<union> (if nxt = ''0-0'' then {} else ref_due s' nxt)"
proof
  fix i assume i: "i \<in> ref_due s start"
  let ?ids = "scan_ids start s" and ?P = "idle_since s claimMinIdle"
  from i have st: "''0-0'' \<le> start" "i \<in> set ?ids" "?P i" by (auto simp: ref_due_def split: if_splits)
  obtain j where
    ms: "ms = claim_values s (filter (?P) (take j ?ids))" and
    nx: "nxt = (case drop j ?ids of [] \<Rightarrow> ''0-0'' | i # _ \<Rightarrow> i)" and
    j0: "?ids \<noteq> [] \<longrightarrow> 0 < j" and
    s': "s' = s\<lparr>rfPending := map (\<lambda>e. if peID e \<in> set (filter (?P) (take j ?ids))
       then e\<lparr>peOwner := c, peSince := rfClock s\<rparr> else e) (rfPending s)\<rparr>" and
    small: "filter (?P) (take j ?ids) = [] \<longrightarrow> length ?ids \<le> 10 * n \<longrightarrow> drop j ?ids = []"
    by (rule ref_xautoclaim_scan [OF assms])
  have ids: "xID ` set ms = set (filter ?P (take j ?ids))" unfolding ms by (rule claim_values_ids [OF claimed_subset])
  show "i \<in> xID ` set ms \<union> (if nxt = ''0-0'' then {} else ref_due s' nxt)"
  proof (cases "i \<in> set (take j ?ids)")
    case True
    with st ids show ?thesis by simp
  next
    case False
    then have d: "i \<in> set (drop j ?ids)" using st(2) by (metis Un_iff append_take_drop_id set_append)
    then obtain r where r: "drop j ?ids = nxt # r" using nx by (cases "drop j ?ids") auto
    have ss: "sorted ?ids" "distinct ?ids" by (simp_all add: scan_ids_def sorted_wrt_filter distinct_filter)
    have "sorted (drop j ?ids)" using ss(1) sorted_wrt_drop by blast
    with d r have le: "nxt \<le> i" by auto
    have len: "j < length ?ids" using r by (metis drop_all list.distinct(1) not_less)
    have "?ids ! j = nxt" using r len by (metis hd_drop_conv_nth list.sel(1))
    moreover have "?ids ! 0 \<le> ?ids ! j" using ss len by (intro sorted_nth_mono) auto
    moreover have "?ids ! 0 \<noteq> ?ids ! j" using nth_eq_iff_index_eq [OF ss(2), of 0 j] len j0 by (metis gr_implies_not_zero length_0_conv not_gr_zero)
    moreover have "?ids ! 0 \<in> {k \<in> dom (ref_pel s). start \<le> k}" unfolding scan_ids_set [symmetric]
    by (rule nth_mem) (rule le_less_trans [OF le0 len])
    ultimately have lt: "start < nxt" by auto
    with st(1) have z: "''0-0'' < nxt" by (rule order_le_less_trans)
    from st(3) obtain e where e: "e \<in> set (rfPending s)" "peID e = i" "claimMinIdle \<le> rfClock s - peSince e"
      by (auto simp: idle_since_def list_ex_iff)
    have "e \<in> set (rfPending s')" unfolding s' using e(1,2) False by (auto intro!: image_eqI [of _ _ e])
    moreover have "rfClock s' = rfClock s" by (simp add: s')
    ultimately have "i \<in> set (scan_ids nxt s')" "idle_since s' claimMinIdle i"
      using e(2,3) le by (auto simp: scan_ids_def idle_since_def list_ex_iff)
    then show ?thesis using z by (auto simp: ref_due_def)
  qed
qed

lemma ref_scan_small:
  assumes "ref_xautoclaim st g c claimMinIdle start 10 s = (Inr ([], nxt), s')" "card (dom (ref_pel s)) \<le> 100"
  shows "ref_due s start = {}"
proof -
  let ?ids = "scan_ids start s" and ?P = "idle_since s claimMinIdle"
  obtain j where
    ms: "[] = claim_values s (filter (?P) (take j ?ids))" and
    nx: "nxt = (case drop j ?ids of [] \<Rightarrow> ''0-0'' | i # _ \<Rightarrow> i)" and
    j0: "?ids \<noteq> [] \<longrightarrow> 0 < j" and
    s': "s' = s\<lparr>rfPending := map (\<lambda>e. if peID e \<in> set (filter (?P) (take j ?ids))
       then e\<lparr>peOwner := c, peSince := rfClock s\<rparr> else e) (rfPending s)\<rparr>" and
    small: "filter (?P) (take j ?ids) = [] \<longrightarrow> length ?ids \<le> 10 * 10 \<longrightarrow> drop j ?ids = []"
    by (rule ref_xautoclaim_scan [OF assms(1)])
  have "set (filter ?P (take j ?ids)) = {}" using claim_values_ids [OF claimed_subset, of s ?P j start] ms [symmetric] by simp
  then have none: "filter ?P (take j ?ids) = []" by blast
  have "length ?ids = card (set ?ids)" by (rule distinct_card [symmetric]) (simp add: scan_ids_def distinct_filter)
  also have "\<dots> \<le> card (dom (ref_pel s))" unfolding scan_ids_set by (rule card_mono) (auto simp: ref_pel_dom)
  finally have "drop j ?ids = []" using small none assms(2) by simp
  then have "filter ?P ?ids = []" using none by simp
  then show ?thesis by (simp add: ref_due_def del: filter_empty_conv)
qed

interpretation ref_scan: calm_scan ref_env ref_pel rfBacklog "\<lambda>_. True" "\<lambda>s. count_list (rfSubs s)" ref_due
proof unfold_locales
  fix c start s ms nxt s'
  assume "r_xautoclaim ref_env PendingStream ConsumerGroup c claimMinIdle start 10 s = (Inr (ms, nxt), s')"
  then have "ref_xautoclaim PendingStream ConsumerGroup c claimMinIdle start 10 s = (Inr (ms, nxt), s')" by (simp add: ref_env_def)
  then show "ref_due s start \<subseteq> xID ` set ms \<union> (if nxt = ''0-0'' then {} else ref_due s' nxt)" by (rule ref_scan_due)
next
  fix c start s nxt s'
  assume "r_xautoclaim ref_env PendingStream ConsumerGroup c claimMinIdle start 10 s = (Inr ([], nxt), s')"
    "card (dom (ref_pel s)) \<le> 100"
  then show "ref_due s start = {}" by (intro ref_scan_small) (simp_all add: ref_env_def)
next
  fix s start i
  show "ref_due s start - {i} \<subseteq> ref_due (snd (r_xack ref_env PendingStream ConsumerGroup i s)) start"
    by (simp add: ref_env_def ref_due_ack)
next
  fix s c start
  show "\<exists>p. fst (r_xautoclaim ref_env PendingStream ConsumerGroup c claimMinIdle start 10 s) = Inr p"
    by (simp add: ref_env_def ref_xautoclaim_def Let_def split: prod.splits)
  show "undisturbed ref_env (\<lambda>_. True) (\<lambda>s. count_list (rfSubs s)) s
      (snd (r_xautoclaim ref_env PendingStream ConsumerGroup c claimMinIdle start 10 s))"
    by (simp add: undisturbed_def ref_env_def ref_get_def ref_entry_def ref_xautoclaim_def Let_def split: prod.splits option.splits)
next
  fix s start k b ttl ch j
  show "ref_due s start \<subseteq> ref_due (snd (pg_fault ref_env s)) start" by (simp add: ref_env_def)
  show "ref_due s start \<subseteq> ref_due (snd (pg_uuid ref_env s)) start"
    by (rule equalityD1 [OF ref_due_pending]) (simp_all add: ref_env_def ref_uuid_def bump_counter_def)
  show "ref_due s start \<subseteq> ref_due (snd (r_get ref_env k s)) start"
    by (rule equalityD1 [OF ref_due_pending]) (simp_all add: ref_env_def ref_get_def split: option.splits)
  show "ref_due s start \<subseteq> ref_due (snd (m_presign_get ref_env b k ttl s)) start" by (simp add: ref_env_def)
  show "ref_due s start \<subseteq> ref_due (snd (r_publish ref_env ch j s)) start"
    by (rule equalityD1 [OF ref_due_pending]) (simp_all add: ref_env_def ref_publish_def)
qed

end
