(* ===== verification/Printer_Crypto.thy ===== *)
theory Printer_Crypto
  imports Base64
begin

unbundle bit_operations_syntax

text \<open>
  \<^verbatim>\<open>services/printer/crypto.go\<close>: unwrapping the document key, decrypting the document, and
  loading the printer's encrypted private key (PBES2 with the in-house PBKDF2 and PKCS#7 removal).
  The primitives of Go's \<^verbatim>\<open>crypto\<close> packages and its ASN.1 and PEM readers are the fields of
  \<^verbatim>\<open>primitives\<close>; all the composition of them the file does is written out.
\<close>

section \<open>Primitives\<close>

datatype hash_alg = SHA1 | SHA256 | SHA512

fun hash_size :: "hash_alg \<Rightarrow> nat" where
  "hash_size SHA1 = 20" | "hash_size SHA256 = 32" | "hash_size SHA512 = 64"

type_synonym oid = "nat list"

record algorithmIdentifier =
  aiAlgorithm :: oid
  aiParameters :: bytes

record encryptedPrivateKeyInfo =
  epAlgo :: algorithmIdentifier
  epEncryptedData :: bytes

record pbes2Params =
  pbKDF :: algorithmIdentifier
  pbEnc :: algorithmIdentifier

record pbkdf2Params =
  kdSalt :: bytes
  kdIterations :: int
  kdKeyLength :: int
  kdPRF :: algorithmIdentifier

record pem_block =
  pemType :: string
  pemBytes :: bytes

datatype 'k parsed_key = RsaKey 'k | OtherKey string

record 'k primitives =
  hmac :: "hash_alg \<Rightarrow> bytes \<Rightarrow> bytes \<Rightarrow> bytes"
  aes_cbc_decrypt :: "bytes \<Rightarrow> bytes \<Rightarrow> bytes \<Rightarrow> bytes"
  gcm_open :: "bytes \<Rightarrow> bytes \<Rightarrow> bytes \<Rightarrow> bytes option"
  oaep_decrypt :: "hash_alg \<Rightarrow> bytes \<Rightarrow> 'k \<Rightarrow> bytes \<Rightarrow> bytes option"
  pem_decode :: "bytes \<Rightarrow> pem_block option"
  parse_pkcs8 :: "bytes \<Rightarrow> 'k parsed_key option"
  asn1_epki :: "bytes \<Rightarrow> encryptedPrivateKeyInfo option"
  asn1_pbes2 :: "bytes \<Rightarrow> pbes2Params option"
  asn1_pbkdf2 :: "bytes \<Rightarrow> pbkdf2Params option"
  asn1_octets :: "bytes \<Rightarrow> bytes option"

section \<open>The document\<close>

definition DecryptAESKey :: "'k primitives \<Rightarrow> 'k \<Rightarrow> bytes \<Rightarrow> bytes res" where
  "DecryptAESKey P k encryptedKey =
     (case oaep_decrypt P SHA256 [] k encryptedKey of
        None \<Rightarrow> Inl (Err ''crypto/rsa: decryption error'') | Some key \<Rightarrow> Inr key)"

definition gcm_nonce_size :: nat where "gcm_nonce_size = 12"

definition DecryptDocument :: "'k primitives \<Rightarrow> bytes \<Rightarrow> bytes \<Rightarrow> bytes res" where
  "DecryptDocument P ciphertext aesKey =
     (if length aesKey \<noteq> 32 then Inl (Err ''aes key is not 32 bytes'')
      else if length ciphertext < gcm_nonce_size then Inl (Err ''ciphertext is shorter than the IV'')
      else (case gcm_open P aesKey (take gcm_nonce_size ciphertext) (drop gcm_nonce_size ciphertext) of
              None \<Rightarrow> Inl (Err ''cipher: message authentication failed'') | Some pt \<Rightarrow> Inr pt))"

definition zeroBytes :: "bytes \<Rightarrow> bytes" where
  "zeroBytes b = map (\<lambda>_. 0) b"

lemma zeroBytes_replicate: "zeroBytes b = replicate (length b) 0"
  by (induction b) (simp_all add: zeroBytes_def)

section \<open>Padding\<close>

definition pkcs7Unpad :: "bytes \<Rightarrow> nat \<Rightarrow> bytes res" where
  "pkcs7Unpad b blockSize =
     (let n = length b in
      if n = 0 \<or> n mod blockSize \<noteq> 0 then Inl (Err ''pkcs7: data is not a whole number of blocks'')
      else (let pad = unat (last b) in
            if pad = 0 \<or> pad > blockSize \<or> pad > n then Inl (Err ''pkcs7: invalid padding length'')
            else if list_ex (\<lambda>c. unat c \<noteq> pad) (drop (n - pad) b)
              then Inl (Err ''pkcs7: inconsistent padding bytes'')
            else Inr (take (n - pad) b)))"

text \<open>PKCS#7 as RFC 5652 pads.\<close>

definition pkcs7Pad :: "nat \<Rightarrow> bytes \<Rightarrow> bytes" where
  "pkcs7Pad bs b = (let p = bs - length b mod bs in b @ replicate p (of_nat p))"

lemma unat_of_nat_byte: "n < 256 \<Longrightarrow> unat (of_nat n :: byte) = n"
  by (simp add: unat_of_nat take_bit_eq_mod)

lemma guards_Inr:
  "(if a then Inl e else if b then Inl f else if c then Inl g else Inr x) = Inr r \<longleftrightarrow> \<not> a \<and> \<not> b \<and> \<not> c \<and> r = x"
  by auto

lemma pkcs7Unpad_iff:
  assumes "0 < bs" "bs < 256"
  shows "pkcs7Unpad b bs = Inr r \<longleftrightarrow> (b = pkcs7Pad bs r)"
proof
  assume u: "pkcs7Unpad b bs = Inr r"
  define p where "p = unat (last b)"
  note g = u [unfolded pkcs7Unpad_def Let_def guards_Inr, folded p_def]
  then have ne: "b \<noteq> []" "length b mod bs = 0" and pb: "0 < p" "p \<le> bs" "p \<le> length b" and
    r: "r = take (length b - p) b" by simp_all
  have all: "\<forall>c\<in>set (drop (length b - p) b). unat c = p"
    using g unfolding list_ex_iff by blast
  have "drop (length b - p) b = replicate p (of_nat p)"
  proof (rule replicate_eqI)
    show "length (drop (length b - p) b) = p" using pb by simp
    show "\<And>y. y \<in> set (drop (length b - p) b) \<Longrightarrow> y = of_nat p"
      using all by (metis of_nat_unat_byte)
  qed
  then have b: "b = r @ replicate p (of_nat p)" by (metis r append_take_drop_id)
  then have l: "length b = length r + p" by simp
  have "p = bs - length r mod bs"
  proof (cases "p = bs")
    case True
    then have "length r mod bs = 0" using ne(2) l by simp
    then show ?thesis using True by simp
  next
    case False
    then have "p < bs" using pb by simp
    have "(length r mod bs + p) mod bs = 0" using ne(2) l by (simp add: mod_add_left_eq)
    moreover have "length r mod bs < bs" using assms by simp
    moreover have "length r mod bs + p < 2 * bs" using \<open>p < bs\<close> \<open>length r mod bs < bs\<close> by linarith
    ultimately have "length r mod bs + p = bs"
      using pb(1) by (cases "length r mod bs + p < bs") (simp_all add: le_mod_geq not_less)
    then show ?thesis by simp
  qed
  then show "b = pkcs7Pad bs r" by (simp add: pkcs7Pad_def Let_def b)
next
  assume b: "b = pkcs7Pad bs r"
  define p where "p = bs - length r mod bs"
  have p: "0 < p" "p \<le> bs" "p < 256" using assms by (auto simp: p_def)
  have b': "b = r @ replicate p (of_nat p)" by (simp add: b pkcs7Pad_def p_def Let_def)
  have "length r div bs * bs + length r mod bs = length r" "length r mod bs < bs" using assms by simp_all
  then have "length r + p = (length r div bs + 1) * bs" unfolding p_def add_mult_distrib mult_1 by linarith
  then have "length b = (length r div bs + 1) * bs" by (simp add: b')
  then have m: "length b mod bs = 0" by simp
  have l: "last b = of_nat p" using p(1) by (simp add: b')
  show "pkcs7Unpad b bs = Inr r"
    using p m by (simp add: pkcs7Unpad_def Let_def l unat_of_nat_byte b' list_ex_iff)
qed

section \<open>PBKDF2\<close>

definition xor_bytes :: "bytes \<Rightarrow> bytes \<Rightarrow> bytes" where
  "xor_bytes t u = map2 (XOR) t u"

definition block_index :: "nat \<Rightarrow> bytes" where
  "block_index i = [of_nat (i div 2 ^ 24), of_nat (i div 2 ^ 16), of_nat (i div 2 ^ 8), of_nat i]"

text \<open>The inner loop: what is left of it to run, \<^verbatim>\<open>u\<close> and \<^verbatim>\<open>t\<close>.\<close>

fun pbkdf2_rounds :: "(bytes \<Rightarrow> bytes) \<Rightarrow> nat \<Rightarrow> bytes \<Rightarrow> bytes \<Rightarrow> bytes" where
  "pbkdf2_rounds prf 0 u t = t"
| "pbkdf2_rounds prf (Suc n) u t = (let u' = prf u in pbkdf2_rounds prf n u' (xor_bytes t u'))"

fun pbkdf2_blocks :: "(bytes \<Rightarrow> bytes) \<Rightarrow> bytes \<Rightarrow> nat \<Rightarrow> nat \<Rightarrow> nat \<Rightarrow> bytes \<Rightarrow> bytes" where
  "pbkdf2_blocks prf salt iter 0 i dk = dk"
| "pbkdf2_blocks prf salt iter (Suc n) i dk =
     (let u = prf (salt @ block_index i)
      in pbkdf2_blocks prf salt iter n (Suc i) (dk @ pbkdf2_rounds prf (iter - 1) u u))"

definition pbkdf2Key :: "'k primitives \<Rightarrow> hash_alg \<Rightarrow> bytes \<Rightarrow> bytes \<Rightarrow> int \<Rightarrow> nat \<Rightarrow> bytes" where
  "pbkdf2Key P h password salt iter keyLen =
     (let hashLen = hash_size h; numBlocks = (keyLen + hashLen - 1) div hashLen
      in take keyLen (pbkdf2_blocks (hmac P h password) salt (nat iter) numBlocks 1 []))"

text \<open>RFC 8018, section 5.2: \<open>T_i = U_1 XOR ... XOR U_c\<close>, \<open>U_j = PRF(P, U_{j-1})\<close>, the blocks joined.\<close>

definition rfc_U :: "(bytes \<Rightarrow> bytes) \<Rightarrow> bytes \<Rightarrow> nat \<Rightarrow> nat \<Rightarrow> bytes" where
  "rfc_U prf salt i j = (prf ^^ j) (salt @ block_index i)"

definition rfc_T :: "(bytes \<Rightarrow> bytes) \<Rightarrow> bytes \<Rightarrow> nat \<Rightarrow> nat \<Rightarrow> bytes" where
  "rfc_T prf salt c i = foldl xor_bytes (rfc_U prf salt i 1) (map (rfc_U prf salt i) [2..<Suc c])"

definition PBKDF2 :: "(bytes \<Rightarrow> bytes) \<Rightarrow> nat \<Rightarrow> bytes \<Rightarrow> nat \<Rightarrow> nat \<Rightarrow> bytes" where
  "PBKDF2 prf hLen salt c dkLen =
     (let l = (dkLen + hLen - 1) div hLen in take dkLen (concat (map (rfc_T prf salt c) [1..<Suc l])))"

lemma rounds_U:
  "pbkdf2_rounds prf n (rfc_U prf salt i j) t =
     foldl xor_bytes t (map (rfc_U prf salt i) [Suc j..<Suc (j + n)])"
proof (induction n arbitrary: j t)
  case (Suc n)
  have "prf (rfc_U prf salt i j) = rfc_U prf salt i (Suc j)" by (simp add: rfc_U_def)
  moreover have "[Suc j..<Suc (j + Suc n)] = Suc j # [Suc (Suc j)..<Suc (Suc j + n)]"
    by (subst upt_conv_Cons) simp_all
  ultimately show ?case using Suc [of "Suc j"] by (simp add: Let_def del: upt_Suc)
qed simp

lemma block_T:
  "pbkdf2_rounds prf (c - 1) (prf (salt @ block_index i)) (prf (salt @ block_index i)) = rfc_T prf salt c i"
proof -
  have u: "prf (salt @ block_index i) = rfc_U prf salt i 1" by (simp add: rfc_U_def)
  show ?thesis
  proof (cases c)
    case 0
    then show ?thesis by (simp add: rfc_T_def u)
  next
    case (Suc n)
    have "[2..<Suc c] = [Suc 1..<Suc (1 + n)]" by (simp add: Suc numeral_2_eq_2)
    then show ?thesis unfolding u by (simp only: rounds_U rfc_T_def Suc diff_Suc_1)
  qed
qed

lemma blocks_T:
  "pbkdf2_blocks prf salt c n i dk = dk @ concat (map (rfc_T prf salt c) [i..<i + n])"
proof (induction n arbitrary: i dk)
  case (Suc n)
  have "[i..<i + Suc n] = i # [Suc i..<Suc i + n]" by (subst upt_conv_Cons) simp_all
  then show ?case using Suc by (simp add: Let_def block_T [unfolded One_nat_def] del: upt_Suc)
qed simp

lemma pbkdf2Key_spec:
  "pbkdf2Key P h password salt iter keyLen = PBKDF2 (hmac P h password) (hash_size h) salt (nat iter) keyLen"
  by (simp add: pbkdf2Key_def PBKDF2_def blocks_T Let_def)

section \<open>The private key file\<close>

definition oidPBES2 :: oid where "oidPBES2 = [1, 2, 840, 113549, 1, 5, 13]"
definition oidPBKDF2 :: oid where "oidPBKDF2 = [1, 2, 840, 113549, 1, 5, 12]"
definition oidHMACWithSHA1 :: oid where "oidHMACWithSHA1 = [1, 2, 840, 113549, 2, 7]"
definition oidHMACWithSHA256 :: oid where "oidHMACWithSHA256 = [1, 2, 840, 113549, 2, 9]"
definition oidHMACWithSHA512 :: oid where "oidHMACWithSHA512 = [1, 2, 840, 113549, 2, 11]"
definition oidAES128CBC :: oid where "oidAES128CBC = [2, 16, 840, 1, 101, 3, 4, 1, 2]"
definition oidAES192CBC :: oid where "oidAES192CBC = [2, 16, 840, 1, 101, 3, 4, 1, 22]"
definition oidAES256CBC :: oid where "oidAES256CBC = [2, 16, 840, 1, 101, 3, 4, 1, 42]"

definition prfHashes :: "(oid \<times> hash_alg) list" where
  "prfHashes = [(oidHMACWithSHA1, SHA1), (oidHMACWithSHA256, SHA256), (oidHMACWithSHA512, SHA512)]"

definition aesCBCKeyLen :: "(oid \<times> nat) list" where
  "aesCBCKeyLen = [(oidAES128CBC, 16), (oidAES192CBC, 24), (oidAES256CBC, 32)]"

definition aes_block :: nat where "aes_block = 16"

definition aes_key_ok :: "bytes \<Rightarrow> bool" where
  "aes_key_ok k \<longleftrightarrow> length k = 16 \<or> length k = 24 \<or> length k = 32"

definition pbes2_prf :: "pbkdf2Params \<Rightarrow> hash_alg res" where
  "pbes2_prf kdf =
     (if aiAlgorithm (kdPRF kdf) = [] then Inr SHA1
      else (case map_of prfHashes (aiAlgorithm (kdPRF kdf)) of
              None \<Rightarrow> Inl (Err ''unsupported PBKDF2 PRF'') | Some h \<Rightarrow> Inr h))"

definition pbes2_keyLen :: "pbes2Params \<Rightarrow> pbkdf2Params \<Rightarrow> nat res" where
  "pbes2_keyLen params kdf =
     (case map_of aesCBCKeyLen (aiAlgorithm (pbEnc params)) of
        None \<Rightarrow> Inl (Err ''unsupported encryption scheme'')
      | Some n \<Rightarrow> Inr (if kdKeyLength kdf > 0 then nat (kdKeyLength kdf) else n))"

definition decryptPBES2 :: "'k primitives \<Rightarrow> bytes \<Rightarrow> bytes \<Rightarrow> bytes res" where
  "decryptPBES2 P der passphrase =
     (case asn1_epki P der of None \<Rightarrow> Inl (Err ''parse EncryptedPrivateKeyInfo'') | Some epki \<Rightarrow>
      if aiAlgorithm (epAlgo epki) \<noteq> oidPBES2 then Inl (Err ''unsupported key encryption'') else
      case asn1_pbes2 P (aiParameters (epAlgo epki)) of None \<Rightarrow> Inl (Err ''parse PBES2 parameters'') | Some params \<Rightarrow>
      if aiAlgorithm (pbKDF params) \<noteq> oidPBKDF2 then Inl (Err ''unsupported KDF'') else
      case asn1_pbkdf2 P (aiParameters (pbKDF params)) of None \<Rightarrow> Inl (Err ''parse PBKDF2 parameters'') | Some kdf \<Rightarrow>
      case pbes2_prf kdf of Inl e \<Rightarrow> Inl e | Inr prf \<Rightarrow>
      case pbes2_keyLen params kdf of Inl e \<Rightarrow> Inl e | Inr keyLen \<Rightarrow>
      case asn1_octets P (aiParameters (pbEnc params)) of None \<Rightarrow> Inl (Err ''parse AES-CBC IV'') | Some iv \<Rightarrow>
      if length iv \<noteq> aes_block then Inl (Err ''AES-CBC IV size'') else
      let dk = pbkdf2Key P prf passphrase (kdSalt kdf) (kdIterations kdf) keyLen in
      if \<not> aes_key_ok dk then Inl (Err ''crypto/aes: invalid key size'') else
      let ct = epEncryptedData epki in
      if length ct = 0 \<or> length ct mod aes_block \<noteq> 0 then Inl (Err ''AES-CBC ciphertext length'') else
      pkcs7Unpad (aes_cbc_decrypt P dk iv ct) aes_block)"

definition loadPrinterPrivateKey :: "'k primitives \<Rightarrow> bytes \<Rightarrow> bytes \<Rightarrow> 'k res" where
  "loadPrinterPrivateKey P pem passphrase =
     (case pem_decode P pem of None \<Rightarrow> Inl (Err ''no PEM block found in private key file'') | Some block \<Rightarrow>
      case (if pemType block = ''ENCRYPTED PRIVATE KEY'' then decryptPBES2 P (pemBytes block) passphrase
            else if pemType block = ''PRIVATE KEY'' then Inr (pemBytes block)
            else Inl (Err ''unexpected PEM type'')) of
        Inl e \<Rightarrow> Inl e
      | Inr der \<Rightarrow> (case parse_pkcs8 P der of
                      None \<Rightarrow> Inl (Err ''parse PKCS#8 private key'')
                    | Some (OtherKey t) \<Rightarrow> Inl (Err ''private key is not RSA'')
                    | Some (RsaKey k) \<Rightarrow> Inr k))"

text \<open>
  What loading an encrypted key needs: exactly PBES2 with PBKDF2, a supported PRF, an AES-CBC
  scheme and a 16-byte IV, and then the passphrase's key must have produced correct padding.
\<close>

lemma decryptPBES2_InrD:
  assumes "decryptPBES2 P der passphrase = Inr plain"
  obtains epki params kdf h keyLen iv where
    "asn1_epki P der = Some epki" "aiAlgorithm (epAlgo epki) = oidPBES2"
    "asn1_pbes2 P (aiParameters (epAlgo epki)) = Some params" "aiAlgorithm (pbKDF params) = oidPBKDF2"
    "asn1_pbkdf2 P (aiParameters (pbKDF params)) = Some kdf" "pbes2_prf kdf = Inr h"
    "pbes2_keyLen params kdf = Inr keyLen" "asn1_octets P (aiParameters (pbEnc params)) = Some iv" "length iv = 16"
    "aes_cbc_decrypt P (PBKDF2 (hmac P h passphrase) (hash_size h) (kdSalt kdf) (nat (kdIterations kdf)) keyLen)
       iv (epEncryptedData epki) = pkcs7Pad 16 plain"
  using assms pkcs7Unpad_iff [of 16]
  by (auto simp: decryptPBES2_def Let_def aes_block_def pbkdf2Key_spec split: option.splits if_splits sum.splits)

end
