(* ===== verification/Printer_Job.thy ===== *)
theory Printer_Job
  imports Printer_Crypto Frames Strconv
begin

text \<open>
  \<^verbatim>\<open>services/printer/config.go\<close>, \<^verbatim>\<open>print.go\<close> and the key load of \<^verbatim>\<open>main.go\<close>: the printer's
  configuration, its slot counter, and the pipeline that fetches, decrypts, prints and wipes one
  document. Sensitive buffers live in an explicit memory so that their wiping, and its order
  against the frames the printer sends, are part of the model.
\<close>

section \<open>Configuration\<close>

record config =
  cfMailboxID :: string
  cfSlotID :: string
  cfCloudServerWSURL :: string
  cfMTLSCACertPath :: string
  cfMTLSCertPath :: string
  cfMTLSKeyPath :: string
  cfHeartbeatInterval :: int
  cfReconnectMaxBack :: int
  cfDevMode :: bool
  cfListenAddr :: string
  cfPrinterName :: string
  cfPrinterPrivateKeyPath :: string

text \<open>\<^verbatim>\<open>log.Fatalf\<close> ends the process: the left side of the result.\<close>

definition mustEnv :: "(string \<Rightarrow> string) \<Rightarrow> string \<Rightarrow> string res" where
  "mustEnv getenv key = (if getenv key = [] then Inl (Err (''required env var '' @ key @ '' is not set''))
                         else Inr (getenv key))"

definition envDurationSeconds :: "(string \<Rightarrow> string) \<Rightarrow> string \<Rightarrow> int \<Rightarrow> int res" where
  "envDurationSeconds getenv key def =
     (if getenv key = [] then Inr def
      else (case Atoi (getenv key) of
              None \<Rightarrow> Inl (Err (''env var '' @ key @ '' must be an integer number of seconds''))
            | Some secs \<Rightarrow> Inr (int64 (secs * Second))))"

definition env_or :: "(string \<Rightarrow> string) \<Rightarrow> string \<Rightarrow> string \<Rightarrow> string" where
  "env_or getenv key def = (if getenv key = [] then def else getenv key)"

definition loadConfig :: "(string \<Rightarrow> string) \<Rightarrow> config res" where
  "loadConfig getenv =
     (case mustEnv getenv ''MAILBOX_ID'' of Inl e \<Rightarrow> Inl e | Inr mb \<Rightarrow>
      case mustEnv getenv ''CLOUD_SERVER_WS_URL'' of Inl e \<Rightarrow> Inl e | Inr url \<Rightarrow>
      case mustEnv getenv ''MTLS_CA_CERT_PATH'' of Inl e \<Rightarrow> Inl e | Inr ca \<Rightarrow>
      case mustEnv getenv ''MTLS_CERT_PATH'' of Inl e \<Rightarrow> Inl e | Inr crt \<Rightarrow>
      case mustEnv getenv ''MTLS_KEY_PATH'' of Inl e \<Rightarrow> Inl e | Inr key \<Rightarrow>
      case envDurationSeconds getenv ''HEARTBEAT_INTERVAL'' (30 * Second) of Inl e \<Rightarrow> Inl e | Inr hb \<Rightarrow>
      case envDurationSeconds getenv ''RECONNECT_MAX_BACKOFF'' (30 * Second) of Inl e \<Rightarrow> Inl e | Inr bo \<Rightarrow>
      case mustEnv getenv ''PRINTER_PRIVATE_KEY_PATH'' of Inl e \<Rightarrow> Inl e | Inr pk \<Rightarrow>
        Inr \<lparr>cfMailboxID = mb, cfSlotID = env_or getenv ''SLOT_ID'' ''slot-1'', cfCloudServerWSURL = url,
          cfMTLSCACertPath = ca, cfMTLSCertPath = crt, cfMTLSKeyPath = key, cfHeartbeatInterval = hb,
          cfReconnectMaxBack = bo, cfDevMode = (getenv ''DEV_MODE'' = ''true''),
          cfListenAddr = env_or getenv ''LISTEN_ADDR'' '':8444'', cfPrinterName = getenv ''PRINTER_NAME'',
          cfPrinterPrivateKeyPath = pk\<rparr>)"

section \<open>Slots\<close>

record printer_slots =
  ssStatus :: string
  ssSlotID :: string
  ssSlots :: slots

definition newSlotState :: "string \<Rightarrow> printer_slots" where
  "newSlotState slotID = \<lparr>ssStatus = ''idle'', ssSlotID = slotID, ssSlots = [(slotID, \<lparr>Current = 0, Max = 5\<rparr>)]\<rparr>"

definition copySlots :: "printer_slots \<Rightarrow> slots" where
  "copySlots s = ssSlots s"

definition snapshot :: "printer_slots \<Rightarrow> string \<times> slots" where
  "snapshot s = (ssStatus s, copySlots s)"

definition bump :: "slot_state \<Rightarrow> slot_state" where
  "bump i = (if Current i < Max i then i\<lparr>Current := Current i + 1\<rparr> else i)"

definition recordDelivery :: "string \<Rightarrow> printer_slots \<Rightarrow> (string \<times> slots) \<times> printer_slots" where
  "recordDelivery slotID s =
     (let info = (case map_of (ssSlots s) slotID of None \<Rightarrow> \<lparr>Current = 0, Max = 0\<rparr> | Some i \<Rightarrow> i);
          s' = s\<lparr>ssSlots := AList.update slotID (bump info) (ssSlots s)\<rparr>
      in ((ssStatus s', copySlots s'), s'))"

section \<open>Paths\<close>

fun split_path :: "string \<Rightarrow> string \<Rightarrow> string list" where
  "split_path acc [] = [acc]"
| "split_path acc (c # cs) = (if c = CHR ''/'' then acc # split_path [] cs else split_path (acc @ [c]) cs)"

text \<open>The elements of a cleaned rooted path, innermost first.\<close>

fun clean_elems :: "string list \<Rightarrow> string list \<Rightarrow> string list" where
  "clean_elems out [] = out"
| "clean_elems out (e # es) =
     (if e = [] \<or> e = ''.'' then clean_elems out es
      else if e = ''..'' then clean_elems (tl out) es
      else clean_elems (e # out) es)"

definition Clean :: "string \<Rightarrow> string" where
  "Clean p = (let es = rev (clean_elems [] (split_path [] p)) in
              if es = [] then ''/'' else concat (map (\<lambda>e. CHR ''/'' # e) es))"

definition path_join :: "string \<Rightarrow> string \<Rightarrow> string" where
  "path_join a b = Clean (a @ ''/'' @ b)"

definition tmpfsDir :: string where "tmpfsDir = ''/dev/shm''"

definition job_path :: "string \<Rightarrow> string" where
  "job_path jobID = path_join tmpfsDir (''automail-'' @ jobID @ ''.pdf'')"

section \<open>The machine\<close>

text \<open>
  The operating system and \<^verbatim>\<open>lp\<close>, which is run on a file and so depends on what the file holds
  (\<^term>\<open>None\<close> where there is no such file). Writing a file may fail half way.
\<close>

datatype write_result = Written | NotWritten | PartlyWritten nat

record ('k, 'p) outside =
  prims :: "'k primitives"
  http_get :: "string \<Rightarrow> 'p \<Rightarrow> (nat \<times> bytes res) res \<times> 'p"
  os_write :: "string \<Rightarrow> 'p \<Rightarrow> write_result \<times> 'p"
  os_remove :: "string \<Rightarrow> 'p \<Rightarrow> bool \<times> 'p"
  lp_run :: "string \<Rightarrow> string \<Rightarrow> bytes option \<Rightarrow> 'p \<Rightarrow> unit res \<times> 'p"

text \<open>
  \<^verbatim>\<open>mem\<close> are the buffers allocated so far, \<^verbatim>\<open>files\<close> the plaintext files on the tmpfs, \<^verbatim>\<open>sent\<close> the
  frames handed to the socket, newest last.
\<close>

record 'p machine =
  mem :: "bytes list"
  files :: "string \<Rightarrow> bytes option"
  sent :: "pframe list"
  pslots :: printer_slots
  pext :: 'p

definition alloc :: "bytes \<Rightarrow> 'p machine \<Rightarrow> nat \<times> 'p machine" where
  "alloc b m = (length (mem m), m\<lparr>mem := mem m @ [b]\<rparr>)"

definition wipe :: "nat \<Rightarrow> 'a \<times> 'p machine \<Rightarrow> 'a \<times> 'p machine" where
  "wipe a rm = (case rm of (r, m) \<Rightarrow> (r, m\<lparr>mem := (mem m)[a := zeroBytes (mem m ! a)]\<rparr>))"

definition send :: "pframe \<Rightarrow> 'p machine \<Rightarrow> 'p machine" where
  "send f m = m\<lparr>sent := sent m @ [f]\<rparr>"

definition fetchBlob :: "('k, 'p) outside \<Rightarrow> string \<Rightarrow> 'p machine \<Rightarrow> bytes res \<times> 'p machine" where
  "fetchBlob F blobURL m =
     (case http_get F blobURL (pext m) of (r, p) \<Rightarrow>
       ((case r of Inl e \<Rightarrow> Inl e
         | Inr (status, body) \<Rightarrow> (if status \<ge> 400 then Inl (Err ''blob fetch returned status'') else body)),
        m\<lparr>pext := p\<rparr>))"

definition WriteFile :: "('k, 'p) outside \<Rightarrow> string \<Rightarrow> bytes \<Rightarrow> 'p machine \<Rightarrow> unit res \<times> 'p machine" where
  "WriteFile F path b m =
     (case os_write F path (pext m) of
        (Written, p) \<Rightarrow> (Inr (), m\<lparr>files := (files m)(path \<mapsto> b), pext := p\<rparr>)
      | (NotWritten, p) \<Rightarrow> (Inl (Err ''write''), m\<lparr>pext := p\<rparr>)
      | (PartlyWritten n, p) \<Rightarrow> (Inl (Err ''write''), m\<lparr>files := (files m)(path \<mapsto> take n b), pext := p\<rparr>))"

text \<open>Removing a file that does not exist is an error.\<close>

definition Remove :: "('k, 'p) outside \<Rightarrow> string \<Rightarrow> 'p machine \<Rightarrow> unit res \<times> 'p machine" where
  "Remove F path m =
     (if files m path = None then (Inl (Err ''no such file or directory''), m)
      else (case os_remove F path (pext m) of
              (True, p) \<Rightarrow> (Inr (), m\<lparr>files := (files m)(path := None), pext := p\<rparr>)
            | (False, p) \<Rightarrow> (Inl (Err ''remove''), m\<lparr>pext := p\<rparr>)))"

definition printDocument :: "('k, 'p) outside \<Rightarrow> string \<Rightarrow> string \<Rightarrow> 'p machine \<Rightarrow> unit res \<times> 'p machine" where
  "printDocument F name path m = (case lp_run F name path (files m path) (pext m) of (r, p) \<Rightarrow> (r, m\<lparr>pext := p\<rparr>))"

section \<open>One job\<close>

text \<open>Steps 5 to 7: write the plaintext, print it, unlink it.\<close>

definition print_plain :: "('k, 'p) outside \<Rightarrow> config \<Rightarrow> pframe \<Rightarrow> bytes \<Rightarrow> 'p machine \<Rightarrow> unit res \<times> 'p machine" where
  "print_plain F cfg f plainPDF m =
     (let path = job_path (pJobID f) in
      case WriteFile F path plainPDF m of
        (Inl e, m1) \<Rightarrow> (Inl (Err (''write tmpfs: '' @ err_text e)), m1)
      | (Inr _, m1) \<Rightarrow>
          (case (if cfDevMode cfg then (Inr (), m1) else printDocument F (cfPrinterName cfg) path m1) of
             (Inl e, m2) \<Rightarrow> (Inl (Err (''print: '' @ err_text e)), snd (Remove F path m2))
           | (Inr _, m2) \<Rightarrow>
               (case Remove F path m2 of
                  (Inl e, m3) \<Rightarrow> (Inl (Err (''remove tmpfs: '' @ err_text e)), m3)
                | (Inr _, m3) \<Rightarrow> (Inr (), m3))))"

text \<open>
  The deferred wipes run when the function returns, the last registered first: each \<^verbatim>\<open>wipe\<close>
  encloses the rest of the function.
\<close>

definition processJob :: "('k, 'p) outside \<Rightarrow> config \<Rightarrow> 'k \<Rightarrow> pframe \<Rightarrow> 'p machine \<Rightarrow> unit res \<times> 'p machine" where
  "processJob F cfg key f m =
     (case fetchBlob F (pBlobURL f) m of
        (Inl e, m1) \<Rightarrow> (Inl (Err (''fetch blob: '' @ err_text e)), m1)
      | (Inr ciphertextBlob, m1) \<Rightarrow>
     (case alloc ciphertextBlob m1 of (a1, m2) \<Rightarrow> wipe a1
     (case StdDecode (pEncryptedKey f) of
        None \<Rightarrow> (Inl (Err ''decode encrypted_key''), m2)
      | Some encryptedKey \<Rightarrow>
     (case alloc encryptedKey m2 of (a2, m3) \<Rightarrow> wipe a2
     (case DecryptAESKey (prims F) key encryptedKey of
        Inl e \<Rightarrow> (Inl (Err (''unwrap AES key: '' @ err_text e)), m3)
      | Inr rawAESKey \<Rightarrow>
     (case alloc rawAESKey m3 of (a3, m4) \<Rightarrow> wipe a3
     (case DecryptDocument (prims F) ciphertextBlob rawAESKey of
        Inl e \<Rightarrow> (Inl (Err (''decrypt document: '' @ err_text e)), m4)
      | Inr plainPDF \<Rightarrow>
     (case alloc plainPDF m4 of (a4, m5) \<Rightarrow> wipe a4 (print_plain F cfg f plainPDF m5)))))))))"

definition status_frame :: "string \<Rightarrow> string \<Rightarrow> string \<Rightarrow> pframe" where
  "status_frame jobID status err = pframe0\<lparr>pType := ''status'', pJobID := jobID, pStatus := status, pError := err\<rparr>"

definition state_frame :: "string \<Rightarrow> slots \<Rightarrow> pframe" where
  "state_frame status sl = pframe0\<lparr>pType := ''state'', pStatus := status, pSlotOccupancy := sl\<rparr>"

definition handleDispatch :: "('k, 'p) outside \<Rightarrow> config \<Rightarrow> 'k \<Rightarrow> pframe \<Rightarrow> 'p machine \<Rightarrow> 'p machine" where
  "handleDispatch F cfg key f m =
     (let m1 = send (status_frame (pJobID f) ''printing'' []) m in
      case processJob F cfg key f m1 of
        (Inl _, m2) \<Rightarrow> send (status_frame (pJobID f) ''failed'' ''processing failed'') m2
      | (Inr _, m2) \<Rightarrow>
          (let m3 = send (status_frame (pJobID f) ''delivered'' []) m2 in
           case recordDelivery (ssSlotID (pslots m3)) (pslots m3) of
             ((status, sl), s') \<Rightarrow> send (state_frame status sl) (m3\<lparr>pslots := s'\<rparr>)))"

section \<open>Loading the key\<close>

text \<open>
  The process environment is a map from names to values; the buffer the passphrase was copied
  to is returned as it is left behind.
\<close>

definition loadDocKey :: "'k primitives \<Rightarrow> (string \<Rightarrow> bytes res) \<Rightarrow> string \<Rightarrow> (string \<Rightarrow> string option)
    \<Rightarrow> 'k res \<times> bytes \<times> (string \<Rightarrow> string option)" where
  "loadDocKey P readFile keyPath envv =
     (case envv ''PRINTER_KEY_PASSPHRASE'' of
        None \<Rightarrow> (Inl (Err ''PRINTER_KEY_PASSPHRASE is not set''), [], envv)
      | Some pass \<Rightarrow>
          (if pass = [] then (Inl (Err ''PRINTER_KEY_PASSPHRASE is not set''), [], envv)
           else (let envv1 = envv(''PRINTER_KEY_PASSPHRASE'' := None); passBytes = map of_char pass in
                 case readFile keyPath of
                   Inl e \<Rightarrow> (Inl e, zeroBytes passBytes, envv1)
                 | Inr pem \<Rightarrow> (loadPrinterPrivateKey P pem passBytes, zeroBytes passBytes, envv1))))"

end
