(* ===== verification/Printer_Facts.thy ===== *)
theory Printer_Facts
  imports Printer_Job
begin

text \<open>
  The contract of the printer's pipeline: every buffer it allocated is zero when it returns, on
  every path; a job is reported delivered only after its plaintext is gone; the frames tell a
  failure apart by nothing; the slot counter never passes its bound.
\<close>

section \<open>Memory\<close>

lemma steps_mem [simp]:
  "mem (snd (fetchBlob F u m)) = mem m" "mem (snd (WriteFile F p b m)) = mem m"
  "mem (snd (Remove F p m)) = mem m" "mem (snd (printDocument F n p m)) = mem m" "mem (send fr m) = mem m"
  by (auto simp: fetchBlob_def WriteFile_def Remove_def printDocument_def send_def
      split: prod.splits write_result.splits bool.splits)

lemma steps_sent [simp]:
  "sent (snd (fetchBlob F u m)) = sent m" "sent (snd (WriteFile F p b m)) = sent m"
  "sent (snd (Remove F p m)) = sent m" "sent (snd (printDocument F n p m)) = sent m"
  by (auto simp: fetchBlob_def WriteFile_def Remove_def printDocument_def
      split: prod.splits write_result.splits bool.splits)

lemma steps_slots [simp]:
  "pslots (snd (fetchBlob F u m)) = pslots m" "pslots (snd (WriteFile F p b m)) = pslots m"
  "pslots (snd (Remove F p m)) = pslots m" "pslots (snd (printDocument F n p m)) = pslots m"
  by (auto simp: fetchBlob_def WriteFile_def Remove_def printDocument_def
      split: prod.splits write_result.splits bool.splits)

text \<open>What printing keeps, for any observation of the machine its four steps keep.\<close>

lemma print_plain_keeps:
  assumes "\<And>p b m. g (snd (WriteFile F p b m)) = g m" "\<And>p m. g (snd (Remove F p m)) = g m"
    "\<And>n p m. g (snd (printDocument F n p m)) = g m"
  shows "g (snd (print_plain F cfg f pdf m)) = g m"
proof -
  let ?p = "job_path (pJobID f)"
  obtain r1 m1 where 1: "WriteFile F ?p pdf m = (r1, m1)" by fastforce
  obtain r2 m2 where 2: "(if cfDevMode cfg then (Inr (), m1) else printDocument F (cfPrinterName cfg) ?p m1) = (r2, m2)"
    by fastforce
  obtain r3 m3 where 3: "Remove F ?p m2 = (r3, m3)" by fastforce
  have "g m1 = g m" using assms(1) [of ?p pdf m] 1 by simp
  moreover have "g m2 = g m1" using assms(3) [of "cfPrinterName cfg" ?p m1] 2 by (auto split: if_splits)
  moreover have "g m3 = g m2" using assms(2) [of ?p m2] 3 by simp
  ultimately show ?thesis using 1 2 3
    by (cases r1; cases r2; cases r3) (simp_all add: print_plain_def Let_def)
qed

lemma print_plain_frame [simp]:
  "mem (snd (print_plain F cfg f pdf m)) = mem m" "sent (snd (print_plain F cfg f pdf m)) = sent m"
  "pslots (snd (print_plain F cfg f pdf m)) = pslots m"
  by (rule print_plain_keeps; simp)+

definition all_zero :: "bytes \<Rightarrow> bool" where
  "all_zero b \<longleftrightarrow> (\<forall>x\<in>set b. x = 0)"

lemma all_zero_zeroBytes [simp]: "all_zero (zeroBytes b)"
  by (simp add: all_zero_def zeroBytes_def)

lemma all_zero_replicate: "all_zero b \<Longrightarrow> b = replicate (length b) 0"
  by (intro replicate_eqI) (auto simp: all_zero_def)

text \<open>
  A buffer allocated before a computation and wiped after it, where the computation itself only
  appends wiped buffers.
\<close>

definition wiped :: "'p machine \<Rightarrow> 'p machine \<Rightarrow> bool" where
  "wiped m m' \<longleftrightarrow> (\<exists>bs. mem m' = mem m @ bs \<and> (\<forall>b\<in>set bs. all_zero b))"

lemma wiped_refl [simp]: "wiped m m"
  by (simp add: wiped_def)

lemma wiped_alloc:
  assumes "alloc b m = (a, m1)" "wiped m1 (snd rm)"
  shows "wiped m (snd (wipe a rm))"
proof -
  obtain r m2 where rm: "rm = (r, m2)" by fastforce
  from assms obtain bs where bs: "mem m2 = (mem m @ [b]) @ bs" "\<forall>x\<in>set bs. all_zero x" and a: "a = length (mem m)"
    by (auto simp: alloc_def wiped_def rm)
  then have "(mem m2)[a := zeroBytes (mem m2 ! a)] = mem m @ zeroBytes b # bs"
    by (simp add: nth_append list_update_append)
  then show ?thesis using bs by (auto simp: wipe_def rm wiped_def)
qed

lemma wiped_mem: "mem m' = mem m \<Longrightarrow> wiped m m'"
  by (simp add: wiped_def)

lemma wiped_from: "mem m1 = mem m \<Longrightarrow> wiped m1 m' \<Longrightarrow> wiped m m'"
  by (simp add: wiped_def)

text \<open>The stages of a job, from the innermost out.\<close>

definition stage4 :: "('k, 'p) outside \<Rightarrow> config \<Rightarrow> pframe \<Rightarrow> bytes \<Rightarrow> 'p machine \<Rightarrow> unit res \<times> 'p machine" where
  "stage4 F cfg f pdf m4 = (case alloc pdf m4 of (a4, m5) \<Rightarrow> wipe a4 (print_plain F cfg f pdf m5))"

definition stage3 :: "('k, 'p) outside \<Rightarrow> config \<Rightarrow> pframe \<Rightarrow> bytes \<Rightarrow> bytes \<Rightarrow> 'p machine \<Rightarrow> unit res \<times> 'p machine" where
  "stage3 F cfg f blob ak m3 = (case alloc ak m3 of (a3, m4) \<Rightarrow> wipe a3
     (case DecryptDocument (prims F) blob ak of
        Inl e \<Rightarrow> (Inl (Err (''decrypt document: '' @ err_text e)), m4) | Inr pdf \<Rightarrow> stage4 F cfg f pdf m4))"

definition stage2 :: "('k, 'p) outside \<Rightarrow> config \<Rightarrow> 'k \<Rightarrow> pframe \<Rightarrow> bytes \<Rightarrow> bytes \<Rightarrow> 'p machine \<Rightarrow> unit res \<times> 'p machine" where
  "stage2 F cfg key f blob ek m2 = (case alloc ek m2 of (a2, m3) \<Rightarrow> wipe a2
     (case DecryptAESKey (prims F) key ek of
        Inl e \<Rightarrow> (Inl (Err (''unwrap AES key: '' @ err_text e)), m3) | Inr ak \<Rightarrow> stage3 F cfg f blob ak m3))"

definition stage1 :: "('k, 'p) outside \<Rightarrow> config \<Rightarrow> 'k \<Rightarrow> pframe \<Rightarrow> bytes \<Rightarrow> 'p machine \<Rightarrow> unit res \<times> 'p machine" where
  "stage1 F cfg key f blob m1 = (case alloc blob m1 of (a1, m2) \<Rightarrow> wipe a1
     (case StdDecode (pEncryptedKey f) of
        None \<Rightarrow> (Inl (Err ''decode encrypted_key''), m2) | Some ek \<Rightarrow> stage2 F cfg key f blob ek m2))"

lemma processJob_stages:
  "processJob F cfg key f m =
     (case fetchBlob F (pBlobURL f) m of
        (Inl e, m1) \<Rightarrow> (Inl (Err (''fetch blob: '' @ err_text e)), m1) | (Inr blob, m1) \<Rightarrow> stage1 F cfg key f blob m1)"
  unfolding processJob_def stage1_def stage2_def stage3_def stage4_def by (rule refl)

lemma stage4_wiped: "wiped m (snd (stage4 F cfg f pdf m))"
  by (cases "alloc pdf m") (simp add: stage4_def wiped_alloc wiped_mem)

lemma stage3_wiped: "wiped m (snd (stage3 F cfg f blob ak m))"
  by (cases "alloc ak m") (auto simp: stage3_def intro!: wiped_alloc stage4_wiped split: sum.splits)

lemma stage2_wiped: "wiped m (snd (stage2 F cfg key f blob ek m))"
  by (cases "alloc ek m") (auto simp: stage2_def intro!: wiped_alloc stage3_wiped split: sum.splits)

lemma stage1_wiped: "wiped m (snd (stage1 F cfg key f blob m))"
  by (cases "alloc blob m") (auto simp: stage1_def intro!: wiped_alloc stage2_wiped split: option.splits)

lemma processJob_wiped: "wiped m (snd (processJob F cfg key f m))"
proof -
  obtain r m1 where r: "fetchBlob F (pBlobURL f) m = (r, m1)" by fastforce
  then have "mem m1 = mem m" using steps_mem(1) [of F "pBlobURL f" m] by simp
  then show ?thesis using r stage1_wiped [of m1 F cfg key f]
    by (cases r) (auto simp: processJob_stages intro: wiped_from wiped_mem)
qed

section \<open>What a stage leaves of the rest of the machine\<close>

lemma alloc_sel [simp]:
  "alloc b m = (a, m1) \<Longrightarrow> files m1 = files m" "alloc b m = (a, m1) \<Longrightarrow> sent m1 = sent m"
  "alloc b m = (a, m1) \<Longrightarrow> pslots m1 = pslots m"
  by (auto simp: alloc_def)

lemma wipe_sel [simp]:
  "fst (wipe a rm) = fst rm" "files (snd (wipe a rm)) = files (snd rm)" "sent (snd (wipe a rm)) = sent (snd rm)"
  "pslots (snd (wipe a rm)) = pslots (snd rm)"
  by (simp_all add: wipe_def split: prod.splits)

lemma processJob_frame:
  "sent (snd (processJob F cfg key f m)) = sent m" "pslots (snd (processJob F cfg key f m)) = pslots m"
proof -
  have 4: "sent (snd (stage4 F cfg f pdf m)) = sent m \<and> pslots (snd (stage4 F cfg f pdf m)) = pslots m" for pdf m
    by (cases "alloc pdf m") (simp add: stage4_def)
  have 3: "sent (snd (stage3 F cfg f blob ak m)) = sent m \<and> pslots (snd (stage3 F cfg f blob ak m)) = pslots m" for blob ak m
    using 4 by (cases "alloc ak m") (auto simp: stage3_def split: sum.splits)
  have 2: "sent (snd (stage2 F cfg key f blob ek m)) = sent m \<and> pslots (snd (stage2 F cfg key f blob ek m)) = pslots m" for blob ek m
    using 3 by (cases "alloc ek m") (auto simp: stage2_def split: sum.splits)
  have 1: "sent (snd (stage1 F cfg key f blob m)) = sent m \<and> pslots (snd (stage1 F cfg key f blob m)) = pslots m" for blob m
    using 2 by (cases "alloc blob m") (auto simp: stage1_def split: option.splits)
  obtain r m1 where r: "fetchBlob F (pBlobURL f) m = (r, m1)" by fastforce
  then have "sent m1 = sent m" "pslots m1 = pslots m"
    using steps_sent(1) [of F "pBlobURL f" m] steps_slots(1) [of F "pBlobURL f" m] by simp_all
  then show "sent (snd (processJob F cfg key f m)) = sent m" "pslots (snd (processJob F cfg key f m)) = pslots m"
    using r 1 by (cases r; auto simp: processJob_stages)+
qed

section \<open>The plaintext file\<close>

text \<open>
  How a file ends after the print stage: gone when the stage succeeded, and otherwise left behind
  only where the file system failed to write it whole or to remove it. Other files are untouched.
\<close>

definition file_fate :: "('k, 'p) outside \<Rightarrow> string \<Rightarrow> unit res \<Rightarrow> 'p machine \<Rightarrow> 'p machine \<Rightarrow> bool" where
  "file_fate F path r m m' \<longleftrightarrow>
     (\<forall>q. q \<noteq> path \<longrightarrow> files m' q = files m q) \<and>
     (r = Inr () \<longrightarrow> files m' path = None) \<and>
     (files m' path \<noteq> None \<longrightarrow> files m' path = files m path \<or>
        (\<exists>p. fst (os_write F path p) \<noteq> Written) \<or> (\<exists>p. \<not> fst (os_remove F path p)))"

lemma print_plain_fate:
  assumes "print_plain F cfg f pdf m = (r, m')"
  shows "file_fate F (job_path (pJobID f)) r m m'"
proof -
  let ?p = "job_path (pJobID f)"
  obtain r1 m1 where 1: "WriteFile F ?p pdf m = (r1, m1)" by fastforce
  obtain r2 m2 where 2: "(if cfDevMode cfg then (Inr (), m1) else printDocument F (cfPrinterName cfg) ?p m1) = (r2, m2)"
    by fastforce
  obtain r3 m3 where 3: "Remove F ?p m2 = (r3, m3)" by fastforce
  have w: "(\<forall>q. q \<noteq> ?p \<longrightarrow> files m1 q = files m q) \<and>
      (r1 \<noteq> Inr () \<longrightarrow> files m1 = files m \<or> (\<exists>p. fst (os_write F ?p p) \<noteq> Written))"
    using 1 by (auto simp: WriteFile_def split: prod.splits write_result.splits) (metis fst_conv write_result.distinct(3))
  have p: "files m2 = files m1" using 2 by (auto simp: printDocument_def split: if_splits prod.splits)
  have d: "(\<forall>q. q \<noteq> ?p \<longrightarrow> files m3 q = files m2 q) \<and> (r3 = Inr () \<longrightarrow> files m3 ?p = None) \<and>
      (files m3 ?p \<noteq> None \<longrightarrow> (\<exists>p. \<not> fst (os_remove F ?p p)))"
  proof (cases "files m2 ?p = None")
    case True
    then show ?thesis using 3 by (auto simp: Remove_def)
  next
    case False
    obtain b p where b: "os_remove F ?p (pext m2) = (b, p)" by fastforce
    then have "\<not> b \<Longrightarrow> \<exists>p. \<not> fst (os_remove F ?p p)" by (metis fst_conv)
    then show ?thesis using 3 b False by (cases b) (auto simp: Remove_def)
  qed
  have "r = r1 \<and> m' = m1 \<and> False \<or> (r1 \<noteq> Inr () \<and> r \<noteq> Inr () \<and> m' = m1) \<or> (m' = m3 \<and> (r = Inr () \<longrightarrow> r3 = Inr ()))"
    using assms 1 2 3 by (cases r1; cases r2; cases r3) (auto simp: print_plain_def Let_def)
  then show ?thesis using w p d unfolding file_fate_def by auto
qed

lemma fate_from: "files m1 = files m \<Longrightarrow> file_fate F p r m1 m' \<Longrightarrow> file_fate F p r m m'"
  by (simp add: file_fate_def)

lemma fate_to: "files m2 = files m' \<Longrightarrow> file_fate F p r m m' \<Longrightarrow> file_fate F p r m m2"
  by (simp add: file_fate_def)

lemma fate_none: "r \<noteq> Inr () \<Longrightarrow> files m' = files m \<Longrightarrow> file_fate F p r m m'"
  by (simp add: file_fate_def)

lemma stage4_fate: "file_fate F (job_path (pJobID f)) (fst (stage4 F cfg f pdf m)) m (snd (stage4 F cfg f pdf m))"
proof -
  obtain a m1 where a: "alloc pdf m = (a, m1)" by fastforce
  have "file_fate F (job_path (pJobID f)) (fst (print_plain F cfg f pdf m1)) m1 (snd (print_plain F cfg f pdf m1))"
    by (rule print_plain_fate) simp
  then show ?thesis using a by (auto simp: stage4_def intro!: fate_from [of m1 m] fate_to [OF wipe_sel(2)])
qed

lemma stage3_fate: "file_fate F (job_path (pJobID f)) (fst (stage3 F cfg f blob ak m)) m (snd (stage3 F cfg f blob ak m))"
  by (cases "alloc ak m")
     (auto simp: stage3_def intro!: fate_to [OF wipe_sel(2)] fate_from [OF _ stage4_fate] fate_none split: sum.splits)

lemma stage2_fate: "file_fate F (job_path (pJobID f)) (fst (stage2 F cfg key f blob ek m)) m (snd (stage2 F cfg key f blob ek m))"
  by (cases "alloc ek m")
     (auto simp: stage2_def intro!: fate_to [OF wipe_sel(2)] fate_from [OF _ stage3_fate] fate_none split: sum.splits)

lemma stage1_fate: "file_fate F (job_path (pJobID f)) (fst (stage1 F cfg key f blob m)) m (snd (stage1 F cfg key f blob m))"
  by (cases "alloc blob m")
     (auto simp: stage1_def intro!: fate_to [OF wipe_sel(2)] fate_from [OF _ stage2_fate] fate_none split: option.splits)

lemma fetchBlob_files [simp]: "files (snd (fetchBlob F u m)) = files m"
  by (auto simp: fetchBlob_def split: prod.splits)

lemma processJob_fate: "file_fate F (job_path (pJobID f)) (fst (processJob F cfg key f m)) m (snd (processJob F cfg key f m))"
proof -
  obtain r m1 where r: "fetchBlob F (pBlobURL f) m = (r, m1)" by fastforce
  then have "files m1 = files m" using fetchBlob_files [of F "pBlobURL f" m] by simp
  then show ?thesis using r
    by (cases r) (auto simp: processJob_stages intro: fate_none fate_from [OF _ stage1_fate])
qed

text \<open>A job that succeeded was decrypted: its key unwrapped and its document authenticated.\<close>

lemma processJob_InrD:
  assumes "processJob F cfg key f m = (Inr (), m')"
  shows "\<exists>blob ek ak pdf. StdDecode (pEncryptedKey f) = Some ek \<and> DecryptAESKey (prims F) key ek = Inr ak \<and>
    DecryptDocument (prims F) blob ak = Inr pdf \<and> fst (fetchBlob F (pBlobURL f) m) = Inr blob"
proof -
  have s: "fst (processJob F cfg key f m) = Inr ()" using assms by simp
  then obtain blob m1 where b: "fetchBlob F (pBlobURL f) m = (Inr blob, m1)"
    by (cases "fetchBlob F (pBlobURL f) m") (auto simp: processJob_stages split: sum.splits)
  with s obtain ek a1 m2 where e: "StdDecode (pEncryptedKey f) = Some ek" "fst (stage2 F cfg key f blob ek m2) = Inr ()"
    by (cases "alloc blob m1") (auto simp: processJob_stages stage1_def split: option.splits)
  from e(2) obtain ak m3 where a: "DecryptAESKey (prims F) key ek = Inr ak" "fst (stage3 F cfg f blob ak m3) = Inr ()"
    by (cases "alloc ek m2") (auto simp: stage2_def split: sum.splits)
  from a(2) obtain pdf where "DecryptDocument (prims F) blob ak = Inr pdf"
    by (cases "alloc ak m3") (auto simp: stage3_def split: sum.splits)
  with b e a show ?thesis by auto
qed

section \<open>Frames\<close>

lemma handleDispatch_sent:
  "sent (handleDispatch F cfg key f m) = sent m @ status_frame (pJobID f) ''printing'' [] #
     (case fst (processJob F cfg key f (send (status_frame (pJobID f) ''printing'' []) m)) of
        Inl _ \<Rightarrow> [status_frame (pJobID f) ''failed'' ''processing failed'']
      | Inr _ \<Rightarrow> [status_frame (pJobID f) ''delivered'' [],
                  state_frame (ssStatus (pslots m)) (snd (fst (recordDelivery (ssSlotID (pslots m)) (pslots m))))])"
proof -
  let ?m1 = "send (status_frame (pJobID f) ''printing'' []) m"
  obtain r m2 where r: "processJob F cfg key f ?m1 = (r, m2)" by fastforce
  have k: "sent m2 = sent ?m1" "pslots m2 = pslots m"
    using processJob_frame [of F cfg key f ?m1] r by (simp_all add: send_def)
  show ?thesis
  proof (cases r)
    case (Inl e)
    then show ?thesis using r k by (simp add: handleDispatch_def send_def)
  next
    case (Inr u)
    then show ?thesis using r k
      by (auto simp: handleDispatch_def send_def recordDelivery_def Let_def)
  qed
qed

section \<open>Slots\<close>

definition slots_bounded :: "printer_slots \<Rightarrow> bool" where
  "slots_bounded s \<longleftrightarrow> (\<forall>i\<in>ran (map_of (ssSlots s)). 0 \<le> Current i \<and> Current i \<le> Max i)"

lemma recordDelivery_bounded:
  "slots_bounded s \<Longrightarrow> slots_bounded (snd (recordDelivery slotID s))"
  by (auto simp: slots_bounded_def recordDelivery_def Let_def update_conv' bump_def ran_def split: option.splits if_splits)

lemma newSlotState_bounded: "slots_bounded (newSlotState slotID)"
  by (simp add: slots_bounded_def newSlotState_def ran_def)

lemma handleDispatch_slots:
  "pslots (handleDispatch F cfg key f m) = pslots m \<or>
   pslots (handleDispatch F cfg key f m) = snd (recordDelivery (ssSlotID (pslots m)) (pslots m))"
proof -
  let ?m1 = "send (status_frame (pJobID f) ''printing'' []) m"
  obtain r m2 where r: "processJob F cfg key f ?m1 = (r, m2)" by fastforce
  have "pslots m2 = pslots m" using processJob_frame(2) [of F cfg key f ?m1] r by (simp add: send_def)
  then show ?thesis using r by (cases r) (auto simp: handleDispatch_def send_def Let_def split: prod.splits)
qed

lemma recordDelivery_status [simp]: "ssStatus (snd (recordDelivery slotID s)) = ssStatus s"
  by (simp add: recordDelivery_def Let_def)

end
