(* ===== verification/Printer_Link.thy ===== *)
theory Printer_Link
  imports Printer_Facts
begin

text \<open>
  \<^verbatim>\<open>services/printer/wsclient.go\<close>, \<^verbatim>\<open>keepalive.go\<close> and \<^verbatim>\<open>health.go\<close>: the printer's side of the link.
  The reconnect loop with its backoff (64-bit shift and product written out), registration, the
  read loop, the periodic state frames, the health endpoint.
\<close>

section \<open>Backoff\<close>

definition backoff_base :: "int \<Rightarrow> int \<Rightarrow> int" where
  "backoff_base attempt maxBackoff =
     (let a = (if attempt < 1 then 1 else attempt);
          base = int64 (int64 (2 ^ nat (a - 1)) * Second)
      in if base > maxBackoff \<or> base \<le> 0 then maxBackoff else base)"

text \<open>\<^verbatim>\<open>rnd n\<close> is what \<^verbatim>\<open>rand.Int63n(n)\<close> returned: at least 0 and less than \<^verbatim>\<open>n\<close>.\<close>

definition backoffWithJitter :: "int \<Rightarrow> int \<Rightarrow> (int \<Rightarrow> int) \<Rightarrow> int" where
  "backoffWithJitter attempt maxBackoff rnd =
     (let base = backoff_base attempt maxBackoff in if base \<le> 0 then 0 else rnd base)"

lemma int64_cong: "2 ^ 64 dvd i - int64 i"
proof -
  have "int64 i = take_bit 64 i - 2 ^ 64 * of_bool (bit i 63)"
    using signed_take_bit_eq_take_bit_minus [of 63 i] by (simp add: int64_def)
  then have "i - int64 i = (i - take_bit 64 i) + 2 ^ 64 * of_bool (bit i 63)" by linarith
  moreover have "2 ^ 64 dvd i - take_bit 64 i" by (simp add: take_bit_eq_mod)
  ultimately show ?thesis by (simp only: dvd_add dvd_triv_left)
qed

lemma int64_eqI: "2 ^ 64 dvd i - j \<Longrightarrow> int64 i = int64 j"
proof -
  assume "2 ^ 64 dvd i - j"
  then have "take_bit 64 i = take_bit 64 j" by (simp add: take_bit_eq_mod mod_eq_dvd_iff)
  then have "signed_take_bit 63 i = signed_take_bit 63 j"
    by (simp add: signed_take_bit_eq_iff_take_bit_eq)
  then show ?thesis by (simp add: int64_def)
qed

lemma int64_mult: "int64 (int64 i * j) = int64 (i * j)"
proof (rule int64_eqI)
  have "2 ^ 64 dvd (i - int64 i) * j" using int64_cong by (rule dvd_mult2)
  then have "2 ^ 64 dvd int64 i * j - i * j" by (simp add: left_diff_distrib dvd_diff_commute)
  then show "2 ^ 64 dvd int64 i * j - i * j" .
qed

lemma int64_dvd: "(2 :: int) ^ k dvd i \<Longrightarrow> k \<le> 64 \<Longrightarrow> 2 ^ k dvd int64 i"
proof -
  assume "(2 :: int) ^ k dvd i" "k \<le> 64"
  moreover have "(2 :: int) ^ k dvd i - int64 i"
    using int64_cong [of i] le_imp_power_dvd [OF \<open>k \<le> 64\<close>, of "2 :: int"] dvd_trans by blast
  ultimately show ?thesis by (metis diff_diff_eq2 diff_add_cancel dvd_diff add_diff_cancel_left')
qed

lemma seconds_fit:
  assumes "0 \<le> x" "x \<le> 2 ^ 33"
  shows "in_int64 (x * Second)"
proof -
  have "x \<le> 8589934592" using assms(2) by simp
  then have "- 9223372036854775808 \<le> x * 1000000000 \<and> x * 1000000000 < 9223372036854775808"
    using assms(1) by linarith
  then show ?thesis by (simp only: in_int64_def Second_def) simp
qed

text \<open>
  Up to a cap of about two hours and a half the wrap-around is invisible: for every attempt number
  the base is the capped power of two over the unbounded integers.
\<close>

lemma backoff_base_exact:
  assumes "0 < maxBackoff" "maxBackoff < 2 ^ 43" "1 \<le> attempt"
  shows "backoff_base attempt maxBackoff = min (2 ^ nat (attempt - 1) * Second) maxBackoff"
proof -
  define k where "k = nat (attempt - 1)"
  have base: "int64 (int64 (2 ^ k) * Second) = int64 (2 ^ k * Second)" by (rule int64_mult)
  show ?thesis
  proof (cases "k \<le> 33")
    case True
    have "(2 :: int) ^ k \<le> 2 ^ 33" using True by (intro power_increasing) simp_all
    then have "in_int64 (2 ^ k * Second)" by (intro seconds_fit) simp_all
    then have "int64 (2 ^ k * Second) = 2 ^ k * Second" by (rule int64_in)
    moreover have "0 < 2 ^ k * Second" by (simp add: Second_def)
    ultimately show ?thesis using assms base by (auto simp: backoff_base_def Let_def k_def)
  next
    case False
    define v where "v = int64 (2 ^ k * Second)"
    have "(2 :: int) ^ 43 dvd 2 ^ k * Second"
    proof -
      have "(2 :: int) ^ 34 dvd 2 ^ k" using False by (intro le_imp_power_dvd) simp
      moreover have "(2 :: int) ^ 9 dvd Second" by (simp add: Second_def)
      ultimately have "(2 :: int) ^ 34 * 2 ^ 9 dvd 2 ^ k * Second" by (rule mult_dvd_mono)
      then show ?thesis by simp
    qed
    then have "2 ^ 43 dvd v" unfolding v_def by (rule int64_dvd) simp
    then have "v \<le> 0 \<or> 2 ^ 43 \<le> v" using zdvd_imp_le [of "2 ^ 43" v] by linarith
    then have b: "backoff_base attempt maxBackoff = maxBackoff"
      using assms base by (auto simp: backoff_base_def Let_def k_def [symmetric] v_def [symmetric])
    have "(2 :: int) ^ 34 \<le> 2 ^ k" using False by (intro power_increasing) simp_all
    then have "maxBackoff \<le> 2 ^ k * Second" using assms(2) by (simp add: Second_def)
    then show ?thesis using b by (simp add: k_def min_def)
  qed
qed

lemma backoff_base_pos: "0 < maxBackoff \<Longrightarrow> 0 < backoff_base attempt maxBackoff \<and> backoff_base attempt maxBackoff \<le> maxBackoff"
  by (auto simp: backoff_base_def Let_def)

section \<open>The reconnect loop\<close>

text \<open>
  One turn of the loop: whether the context was over at its top, how the connection ended, what
  the random source says, and whether the context ended the wait.
\<close>

record reconnect =
  rcCancelled :: bool
  rcServe :: "unit res"
  rcRandom :: "int \<Rightarrow> int"
  rcWaitCancelled :: bool

fun runClient :: "config \<Rightarrow> int \<Rightarrow> reconnect list \<Rightarrow> int list" where
  "runClient cfg attempt [] = []"
| "runClient cfg attempt (t # ts) =
     (if rcCancelled t then []
      else (let attempt' = attempt + 1;
                wait = backoffWithJitter attempt' (cfReconnectMaxBack cfg) (rcRandom t)
            in wait # (if rcWaitCancelled t then [] else runClient cfg attempt' ts)))"

lemma runClient_waits:
  assumes "0 < cfReconnectMaxBack cfg" "cfReconnectMaxBack cfg < 2 ^ 43" "0 \<le> attempt"
    "\<forall>t\<in>set ts. \<forall>n>0. 0 \<le> rcRandom t n \<and> rcRandom t n < n"
    "i < length (runClient cfg attempt ts)"
  shows "0 \<le> runClient cfg attempt ts ! i \<and>
    runClient cfg attempt ts ! i < min (2 ^ (nat attempt + i) * Second) (cfReconnectMaxBack cfg)"
  using assms
proof (induction cfg attempt ts arbitrary: i rule: runClient.induct)
  case (2 cfg attempt t ts)
  let ?b = "backoff_base (attempt + 1) (cfReconnectMaxBack cfg)"
  have b: "?b = min (2 ^ nat attempt * Second) (cfReconnectMaxBack cfg)" "0 < ?b"
    using backoff_base_exact [of "cfReconnectMaxBack cfg" "attempt + 1"]
      backoff_base_pos [of "cfReconnectMaxBack cfg" "attempt + 1"] 2(2-4) by simp_all
  have nc: "\<not> rcCancelled t" using 2 by (auto split: if_splits)
  show ?case
  proof (cases i)
    case 0
    have "0 \<le> rcRandom t ?b \<and> rcRandom t ?b < ?b" using 2(5) b(2) by simp
    moreover have "runClient cfg attempt (t # ts) ! i = rcRandom t ?b"
      using nc b(2) 0 by (simp add: Let_def backoffWithJitter_def)
    ultimately show ?thesis using b(1) 0 by simp
  next
    case (Suc j)
    then have j: "\<not> rcWaitCancelled t" "j < length (runClient cfg (attempt + 1) ts)"
      using 2 nc by (auto simp: Let_def split: if_splits)
    have "nat (attempt + 1) + j = nat attempt + i" using 2 Suc by simp
    then show ?thesis using 2 nc j Suc by (auto simp: Let_def)
  qed
qed simp

section \<open>One connection\<close>

text \<open>
  Setting up the TLS configuration and dialling may fail, and so may each of the first two
  writes; \<^verbatim>\<open>loop_end\<close> is the first error of the keepalive and read loops. The result is the error,
  the frames written, and whether the link was flagged as connected.
\<close>

definition register_frame :: "config \<Rightarrow> printer_slots \<Rightarrow> pframe" where
  "register_frame cfg s = pframe0\<lparr>pType := ''register'', pMailboxID := cfMailboxID cfg,
     pSlotOccupancy := snd (snapshot s)\<rparr>"

definition connectAndServe :: "config \<Rightarrow> printer_slots \<Rightarrow> unit res \<Rightarrow> unit res \<Rightarrow> unit res \<Rightarrow> unit res
    \<Rightarrow> go_error \<Rightarrow> go_error \<times> pframe list \<times> bool" where
  "connectAndServe cfg s tls dial write1 write2 loop_end =
     (case tls of Inl e \<Rightarrow> (e, [], False) | Inr _ \<Rightarrow>
      case dial of Inl e \<Rightarrow> (e, [], False) | Inr _ \<Rightarrow>
      case write1 of Inl e \<Rightarrow> (e, [], False) | Inr _ \<Rightarrow>
      case write2 of Inl e \<Rightarrow> (e, [register_frame cfg s], True) | Inr _ \<Rightarrow>
        (loop_end, [register_frame cfg s, state_frame (fst (snapshot s)) (snd (snapshot s))], True))"

text \<open>The dispatch frames handed to workers, up to a text that is no frame.\<close>

fun printer_readLoop :: "wire list \<Rightarrow> pframe list" where
  "printer_readLoop [] = []"
| "printer_readLoop (x # xs) =
     (case (case x of None \<Rightarrow> None | Some j \<Rightarrow> pframe_read j) of
        None \<Rightarrow> []
      | Some f \<Rightarrow> (if pType f = ''dispatch'' then f # printer_readLoop xs else printer_readLoop xs))"

text \<open>
  What the keepalive loop selects: the end of the connection's context, or a tick, with the slots
  at that moment and whether the ping came back. A period that is not positive makes
  \<^verbatim>\<open>time.NewTicker\<close> panic: no result.
\<close>

datatype keepalive_event = KeepaliveDone | Tick printer_slots bool

fun keepalive_loop :: "keepalive_event list \<Rightarrow> pframe list" where
  "keepalive_loop [] = []"
| "keepalive_loop (KeepaliveDone # es) = []"
| "keepalive_loop (Tick s pong # es) =
     state_frame (fst (snapshot s)) (snd (snapshot s)) # (if pong then keepalive_loop es else [])"

definition runKeepalive :: "int \<Rightarrow> keepalive_event list \<Rightarrow> pframe list option" where
  "runKeepalive interval es = (if interval \<le> 0 then None else Some (keepalive_loop es))"

section \<open>Health\<close>

definition healthzHandler :: "bool \<Rightarrow> json" where
  "healthzHandler connected = JObj [(''connected'', JBool connected), (''status'', JStr ''ok'')]"

end
