(* ===== verification/Demo.thy ===== *)
theory Demo
  imports Ref_Env Printer_Link
begin

text \<open>
  A small instance of the whole system over the reference environment: one building with one
  mailbox of one slot, a resident, two accounts, one submitted job, a connected idle printer.
  The properties are evaluated on it where they have hypotheses.
\<close>

section \<open>The database\<close>

definition demo_job :: job where
  "demo_job = \<lparr>jID = 10, jSenderID = Some 5, jGuestTokenHash = None, jMailboxID = 2, jSlotID = 3,
     jEncryptedKey = [1, 2, 3], jBlobRef = ''blobs/a'', jPageCount = 2, jStatus = ''submitted'',
     jRetryCount = 0, jBlobExpiresAt = None, jBlobDeletedAt = None, jCreatedAt = 0, jDeliveredAt = None\<rparr>"

definition demo_db :: tables where
  "demo_db = \<lparr>
     buildings = [\<lparr>bdID = 1, bdAddress = ''12 Elm St'', bdCreatedAt = 0\<rparr>],
     mailboxes = [\<lparr>mbID = 2, mbBuildingID = 1, mbPublicKeyPem = ''PEM'', mbStatus = ''idle'',
       mbLastHeartbeatAt = None, mbCreatedAt = 0\<rparr>],
     mailbox_slots = [\<lparr>slID = 3, slMailboxID = 2, slSlotNumber = 1, slMaxCount = 5, slCreatedAt = 0\<rparr>],
     residents = [\<lparr>rsID = 4, rsSlotID = 3, rsNameEnc = map of_char ''Jane Doe'', rsCreatedAt = 0\<rparr>],
     senders = [\<lparr>snID = 5, snEmailEnc = map of_char ''a@b'', snNameEnc = map of_char ''a'',
       snPasswordHash = ''$secret'', snRole = ''sender'', snCreatedAt = 0\<rparr>],
     refresh_tokens = [], jobs = [demo_job], audit_events = []\<rparr>"

section \<open>The services\<close>

definition demo_state :: PrinterState where
  "demo_state = \<lparr>psStatus = ''idle'', psSlotOccupancy = [(ref_uuid_string 3, \<lparr>Current = 0, Max = 5\<rparr>)]\<rparr>"

definition demo_ext :: ref_state where
  "demo_ext = ref0\<lparr>rfKeys := [(KeyPrinterState (ref_uuid_string 2), state_json demo_state, printerStateTTL)],
     rfSubs := [ChanDispatch (ref_uuid_string 2)], rfBlobs := [''blobs/a''], rfCounter := 99\<rparr>"

definition demo_world :: "ref_state world" where
  "demo_world = \<lparr>db = demo_db, ext = demo_ext\<rparr>"

text \<open>The same with no printer connected and nothing cached.\<close>

definition demo_offline :: "ref_state world" where
  "demo_offline = \<lparr>db = demo_db, ext = demo_ext\<lparr>rfKeys := [], rfSubs := []\<rparr>\<rparr>"

definition demo_ref :: JobRef where
  "demo_ref = FromJob ref_env 10 2 3 [1, 2, 3] ''blobs/a''"

definition demo_server :: "ref_state server" where
  "demo_server = \<lparr>AppKey = ''key'', UploadPresigner = None, DrainClosed = False\<rparr>"

definition demo_request :: request where
  "demo_request = \<lparr>rqBody = None, rqAuthorization = [], rqCookies = [], rqPathID = ref_uuid_string 10,
     rqQuery = [], rqSender = None, rqFlusher = True\<rparr>"

definition demo_submit :: request where
  "demo_submit = demo_request\<lparr>rqBody := Some (JObj [(''encrypted_key'', JStr []), (''blob_ref'', JStr ''blobs/a''),
     (''recipient_id'', JStr (ref_uuid_string 4)), (''page_count'', JInt 2)]), rqSender := Some (ref_uuid_string 5, ''sender'')\<rparr>"

definition demo_dispatcher :: Dispatcher where
  "demo_dispatcher = \<lparr>NodeID = ''node-1'', SweepInt = 0, ReapIdle = 0\<rparr>"

end
