(* ===== verification/Dispatch_Properties.thy ===== *)
theory Dispatch_Properties
  imports Demo
begin

text \<open>
  The properties of dispatching: the claim protocol between nodes, one attempt, the queue and the
  dispatcher that works it off, the printer-state cache that decides eligibility.
\<close>

section \<open>The claim\<close>

definition demo_claim :: claim_state where
  "demo_claim = \<lparr>cDb = demo_db, cLock = None, cPhase = (\<lambda>_. Idle), cSent = 0\<rparr>"

definition demo_claim_end :: claim_state where
  "demo_claim_end = demo_claim\<lparr>cDb := db (snd (attemptDispatch ref_env demo_ref demo_world)), cSent := 1\<rparr>"

lemma demo_parse: "uuid_parse ref_env (rfJobID demo_ref) = Some 10"
  by code_simp

lemma demo_attempt:
  "fst (attemptDispatch ref_env demo_ref demo_world) = Inr dispatching"
  "rfDelivered (ext (snd (attemptDispatch ref_env demo_ref demo_world))) = 1"
  "rfDelivered (ext demo_world) = 0"
  by code_simp+

lemma demo_attempt_eq:
  "attemptDispatch ref_env demo_ref demo_world =
     (Inr dispatching, snd (attemptDispatch ref_env demo_ref demo_world))"
  using demo_attempt(1) by (metis prod.collapse)

lemma demo_claim_sel:
  "cDb demo_claim = db demo_world" "cLock demo_claim = None" "cPhase demo_claim 0 = Idle" "cSent demo_claim = 0"
  by (simp_all add: demo_claim_def demo_world_def)

lemma demo_claim_path: "(claim_step False 10)\<^sup>*\<^sup>* demo_claim demo_claim_end"
  using ref_deliveries.attempt_path [OF demo_attempt_eq demo_parse demo_claim_sel(1-3)]
  by (simp add: demo_attempt demo_claim_sel demo_claim_end_def)

text \<open>
  C1: However many nodes try to dispatch a job, with any failure, crash or interleaving of their
  statements, at most one of them owns its claim at any time, and unless a reply of PUBLISH gets
  lost its dispatch frame reaches a printer at most once.
\<close>

theorem at_most_one_delivery:
  assumes "(claim_step lossy i)\<^sup>*\<^sup>* s s'" "claim_start i s"
  shows "(owns s' n \<and> owns s' m \<longrightarrow> n = m) \<and> (\<not> lossy \<longrightarrow> cSent s' \<le> 1)"
proof -
  have "claim_inv i s'" using claim_exclusion.steps_keep [OF assms(1)] claim_start_inv [OF assms(2)] by blast
  then show ?thesis using assms once_reach [of i s s'] by (auto simp: claim_inv_def)
qed

lemma at_most_one_delivery_witness: "cSent demo_claim_end \<le> 1 \<and> cSent demo_claim_end = 1"
  using at_most_one_delivery [OF demo_claim_path, of 0 0]
  by (simp add: claim_start_def demo_claim_def demo_claim_end_def)

text \<open>
  C2: An attempt of the code is a path of that protocol, whatever its outcome and whichever of its
  calls fail: from a state with the same database and the row unlocked, an idle node gets to the
  database the attempt left, with as many deliveries as the attempt made.
\<close>

theorem attempt_refines_protocol:
  assumes "deliveries E dl lossy" "attemptDispatch E f w = (r, w')" "uuid_parse E (rfJobID f) = Some i"
    "cDb s = db w" "cLock s = None" "cPhase s n = Idle"
  shows "(claim_step lossy i)\<^sup>*\<^sup>* s (s\<lparr>cDb := db w', cSent := cSent s + (dl (ext w') - dl (ext w))\<rparr>)
    \<and> dl (ext w) \<le> dl (ext w')"
  using deliveries.attempt_path [OF assms] by blast

lemma attempt_refines_protocol_witness: "(claim_step False 10)\<^sup>*\<^sup>* demo_claim demo_claim_end"
  using attempt_refines_protocol [OF ref_deliveries.deliveries_axioms demo_attempt_eq demo_parse
      demo_claim_sel(1-3)]
  by (simp add: demo_attempt demo_claim_sel demo_claim_end_def)




section \<open>One attempt\<close>

text \<open>
  C9: What an attempt does to the job table. Dispatched: the row was claimable and is dispatching.
  Settled: the row was not claimable and nothing changed. Blocked: nothing changed, or the row was
  claimed and given back as queued. An error: one of these. No other job's row is ever touched.
\<close>

theorem attempt_outcome:
  assumes "attemptDispatch E f w = (r, w')" "uuid_parse E (rfJobID f) = Some i"
  shows "((r = Inr dispatching \<and> claimable_in (db w) i \<and> jobs (db w') = jobs (mark i dispatching (db w))) \<or>
     (r = Inr settled \<and> \<not> claimable_in (db w) i \<and> db w' = db w) \<or>
     (r = Inr blocked \<and> (db w' = db w \<or> claimable_in (db w) i \<and> jobs (db w') = jobs (mark i ''queued'' (db w)))) \<or>
     (\<exists>e. r = Inl e \<and> (db w' = db w \<or> claimable_in (db w) i \<and>
        (jobs (db w') = jobs (mark i dispatching (db w)) \<or> jobs (db w') = jobs (mark i ''queued'' (db w))))))
   \<and> (\<forall>k. k \<noteq> i \<longrightarrow> job_of (db w') k = job_of (db w) k)"
  using attempt_outcomes [OF assms] attempt_other_jobs [OF assms(2), of _ w] assms(1)
  by (auto simp: jobs_marked_def)

lemma attempt_outcome_witness:
  "jobs (db (snd (attemptDispatch ref_env demo_ref demo_world))) = jobs (mark 10 dispatching (db demo_world))"
  using attempt_outcome [OF demo_attempt_eq demo_parse] by simp

text \<open>
  C8: An attempt publishes at most one message, and only for a job that was claimable: the job's
  own frame, with the wrapped key exactly as it was stored, on the channel of its own mailbox.
\<close>

theorem frame_published_only_after_claim:
  assumes "publish_history E hist" "attemptDispatch E f w = (r, w')"
  shows "hist (ext w') = hist (ext w) \<or>
    (\<exists>i url. uuid_parse E (rfJobID f) = Some i \<and> claimable_in (db w) i \<and>
       hist (ext w') = hist (ext w) @ [(ChanDispatch (rfMailboxID f), dispatch_frame f url)])"
  by (rule publish_history.attempt_publishes [OF assms])

lemma demo_published:
  "rfPublished (ext (snd (attemptDispatch ref_env demo_ref demo_world))) \<noteq> rfPublished (ext demo_world)"
  by code_simp

lemma frame_published_only_after_claim_witness:
  "\<exists>url. rfPublished (ext (snd (attemptDispatch ref_env demo_ref demo_world))) =
     rfPublished (ext demo_world) @ [(ChanDispatch (rfMailboxID demo_ref), dispatch_frame demo_ref url)]"
  using frame_published_only_after_claim [OF ref_publish.publish_history_axioms demo_attempt_eq] demo_published
  by blast

end
