(* ===== verification/Cluster_Ops.thy ===== *)
theory Cluster_Ops
  imports Cloud_Main Claim_System
begin

text \<open>
  What one whole operation of a node (a request, a printer's frames, a registration, a dispatcher's
  turn) does to the claims on existing jobs, and what it does to the stream.
\<close>

section \<open>Claims only settle\<close>

text \<open>No job disappears, and one that cannot be claimed cannot be claimed again.\<close>

definition claims_le :: "tables \<Rightarrow> tables \<Rightarrow> bool" where
  "claims_le t u \<longleftrightarrow> (\<forall>i. status_of t i \<noteq> None \<longrightarrow> status_of u i \<noteq> None \<and> (claimable_in u i \<longrightarrow> claimable_in t i))"

lemma claims_refl [intro!, simp]: "claims_le t t"
  by (simp add: claims_le_def)

lemma claims_trans: "claims_le t u \<Longrightarrow> claims_le u v \<Longrightarrow> claims_le t v"
  by (auto simp: claims_le_def)

lemma claims_same_status:
  assumes "\<And>i. status_of u i = status_of t i"
  shows "claims_le t u"
  using assms claimable_status [OF assms] by (simp add: claims_le_def)

lemma claims_same_jobs: "jobs u = jobs t \<Longrightarrow> claims_le t u"
  by (rule claims_same_status) (simp add: status_of_def job_of_def)

lemma claims_pg: "(\<And>t. claims_le t (snd (q t))) \<Longrightarrow> claims_le (db w) (db (snd (pg E q w)))"
  using pg_db [of E q w] by auto

lemma claims_pg_gen: "(\<And>i now t. claims_le t (snd (q i now t))) \<Longrightarrow> claims_le (db w) (db (snd (pg_gen E q w)))"
  by (rule pg_gen_cases [of E q w]) (metis claims_pg)

lemma claims_pg_at: "(\<And>now t. claims_le t (snd (q now t))) \<Longrightarrow> claims_le (db w) (db (snd (pg_at E q w)))"
  by (simp add: pg_at_def claims_pg)

lemma claims_insert: "claims_le t (snd (InsertJob i now p t))"
  by (auto simp: InsertJob_def claims_le_def claimable_in_def status_of_def job_of_def find_append split: option.splits)

lemma claims_queries:
  "claims_le (db w) (db (snd (qInsertJob E p w)))"
  "claims_le (db w) (db (snd (qInsertAuditEvent E j a u w)))"
  "claims_le (db w) (db (snd (qInsertSender E en nm h w)))"
  "claims_le (db w) (db (snd (qInsertRefreshToken E sid th x w)))"
  "claims_le (db w) (db (snd (qRevokeRefreshTokenByHash E th w)))"
  "claims_le (db w) (db (snd (qUpdateMailboxLiveness E m st w)))"
  "claims_le (db w) (db (snd (qSetJobBlobDeleted E j w)))"
proof -
  show "claims_le (db w) (db (snd (qInsertJob E p w)))"
    unfolding qInsertJob_def by (rule claims_pg_gen) (rule claims_insert)
  show "claims_le (db w) (db (snd (qInsertAuditEvent E j a u w)))" "claims_le (db w) (db (snd (qInsertSender E en nm h w)))"
    "claims_le (db w) (db (snd (qInsertRefreshToken E sid th x w)))"
    unfolding qInsertAuditEvent_def qInsertSender_def qInsertRefreshToken_def
    by (rule claims_pg_gen, rule claims_same_jobs,
        simp add: InsertAuditEvent_def InsertSender_def InsertRefreshToken_def)+
  show "claims_le (db w) (db (snd (qRevokeRefreshTokenByHash E th w)))"
    "claims_le (db w) (db (snd (qUpdateMailboxLiveness E m st w)))"
    unfolding qRevokeRefreshTokenByHash_def qUpdateMailboxLiveness_def
    by (rule claims_pg_at, rule claims_same_jobs,
        simp add: RevokeRefreshTokenByHash_def UpdateMailboxLiveness_def)+
  have "status_of (set_job j (\<lambda>k. k\<lparr>jBlobDeletedAt := Some now\<rparr>) t) i = status_of t i" for now t i
    by (cases "i = j") (simp_all add: status_of_def option.map_comp comp_def)
  then show "claims_le (db w) (db (snd (qSetJobBlobDeleted E j w)))"
    unfolding qSetJobBlobDeleted_def by (intro claims_pg_at claims_same_status) (simp add: SetJobBlobDeleted_def)
qed

lemma claims_queryD:
  "qInsertJob E p w = (r1, w') \<Longrightarrow> claims_le (db w) (db w')"
  "qInsertAuditEvent E j a u w = (r2, w') \<Longrightarrow> claims_le (db w) (db w')"
  "qInsertSender E en nm h w = (r1, w') \<Longrightarrow> claims_le (db w) (db w')"
  "qInsertRefreshToken E sid th x w = (r2, w') \<Longrightarrow> claims_le (db w) (db w')"
  "qRevokeRefreshTokenByHash E th w = (r2, w') \<Longrightarrow> claims_le (db w) (db w')"
  using claims_queries(1) [of w E p] claims_queries(2) [of w E j a u] claims_queries(3) [of w E en nm h]
    claims_queries(4) [of w E sid th x] claims_queries(5) [of w E th] by simp_all

text \<open>A printer's report settles the job; the three words are the ones the printer sends.\<close>

lemma claims_report:
  assumes "report st"
  shows "claims_le (db w) (db (snd (qUpdateJobStatus E i st w)))"
proof -
  have "claims_le t (snd (UpdateJobStatus now i st t))" for now t
  proof -
    have "status_of (snd (UpdateJobStatus now i st t)) k = (if k = i then map_option (\<lambda>_. st) (status_of t k) else status_of t k)" for k
      by (auto simp: UpdateJobStatus_def status_of_def apply_status_def option.map_comp comp_def split: option.splits)
    then show ?thesis using assms
      by (auto simp: claims_le_def claimable_in_def report_def claimable_def split: option.splits if_splits)
  qed
  then show ?thesis unfolding qUpdateJobStatus_def by (rule claims_pg_at)
qed

section \<open>Claims across the handlers\<close>

lemma db_le_status: "db_le t u \<Longrightarrow> status_of t i \<noteq> None \<Longrightarrow> status_of u i \<noteq> None"
  using db_le_job [of t u i] by (cases "job_of t i") (auto simp: status_of_def)

lemma claims_attempt: "claims_le (db w) (db (snd (attemptDispatch E f w)))"
  using db_le_status [OF db_mono.steps_le [OF attempt_steps [of w E f]]] attempt_claimable_mono [of w _ E f]
  by (auto simp: claims_le_def)

lemma claims_TryDispatch: "TryDispatch E f w = (r, w') \<Longrightarrow> claims_le (db w) (db w')"
  using claims_attempt [of w E f] TryDispatch_db [of E f w] by simp

lemma claims_CreateJob: "claims_le (db w) (db (snd (CreateJob E r w)))"
  by (auto simp: CreateJob_def split: option.splits prod.splits sum.splits
      dest!: ResolveRecipient_db BlobExists_db job_owner_db claims_queryD(1,2) claims_TryDispatch intro: claims_trans)

lemma claims_issueSession: "issueSession E i role w = (r, w') \<Longrightarrow> claims_le (db w) (db w')"
proof -
  have o: "newOpaqueToken E u = (x, v) \<Longrightarrow> db v = db u" for u v x using newOpaqueToken_db [of E u] by simp
  show "issueSession E i role w = (r, w') \<Longrightarrow> claims_le (db w) (db w')"
    by (auto simp: issueSession_def IssueAccessToken_def Let_def split: prod.splits sum.splits
        dest!: o claims_queryD(4))
qed

lemma claims_accounts:
  "claims_le (db w) (db (snd (Login E s r w)))" "claims_le (db w) (db (snd (Refresh E s r w)))"
  "claims_le (db w) (db (snd (Logout E r w)))" "claims_le (db w) (db (snd (Register E s r w)))"
  by (auto simp: Login_def Refresh_def Logout_def Register_def Let_def claims_queries(5)
      split: option.splits prod.splits sum.splits
      dest!: GetSenderByEmail_db GetActive_db GetSenderByID_db call_eqD claims_queryD(3,5) claims_issueSession
      intro: claims_trans)

lemma claims_guard:
  assumes "\<And>r. claims_le (db w) (db (snd (next r w)))"
  shows "claims_le (db w) (db (snd (optionalAuth E next r w)))" "claims_le (db w) (db (snd (requireAuth E next r w)))"
    "claims_le (db w) (db (snd (requireAdmin E next r w)))"
  using assms optionalAuth_cases [of E "next" r w] requireAuth_cases [of E "next" r w] requireAdmin_cases [of E "next" r w]
  by (metis claims_refl)+

lemma claims_public: "claims_le (db w) (db (snd (public_handler E s nodeID sok evs ep r w)))"
proof -
  have "claims_le (db w) (db (snd (mux E s sok evs ep r w)))"
    by (cases ep) (simp_all add: claims_guard claims_CreateJob claims_accounts UploadURL_db Healthz_db Livez_def
        reading_db SearchRecipients_handler_db)
  then show ?thesis
    by (cases "mux E s sok evs ep r w") (simp add: public_handler_def nodeHeader_def)
qed

section \<open>The printer's frames and the hub\<close>

text \<open>
  What a printer of this repository sends: a status frame carries one of the three words of
  \<^verbatim>\<open>handleDispatch\<close>. (The hub itself writes any word it is sent.)
\<close>

definition printer_text :: "wire \<Rightarrow> bool" where
  "printer_text x = (case x of None \<Rightarrow> True | Some j \<Rightarrow>
     (case frame_read j of None \<Rightarrow> True | Some f \<Rightarrow> fType f = ''status'' \<longrightarrow> report (fStatus f)))"

lemma claims_onStatus:
  assumes "report (fStatus f)" "onStatus E (main_hub E) f w = Some w'"
  shows "claims_le (db w) (db w')"
proof -
  have del: "claims_le (db u) (db (deleteDeliveredBlob E (main_hub E) i b u))" for i b u
  proof -
    obtain x u1 where x: "RemoveBlob E b u = (x, u1)" by fastforce
    then have "db u1 = db u" using minio_db(4) [of E b u] by simp
    with x claims_queries(7) [of u1 E i] claims_queries(2) [of "snd (qSetJobBlobDeleted E i u1)" E i "''blob_deleted''" None]
    show ?thesis by (auto simp: deleteDeliveredBlob_def main_hub_def Let_def split: sum.splits intro: claims_trans)
  qed
  have hub: "hubQueries (main_hub E)" by (simp add: main_hub_def)
  from assms(2) hub show ?thesis
  proof (cases rule: onStatus_cases)
    case (failed i e)
    then show ?thesis using claims_report [OF assms(1), of w E i] by simp
  next
    case (applied i job w1 w2 w3)
    have "claims_le (db w) (db w3)"
      using claims_report [OF assms(1), of w E i] applied(2)
        claims_queries(2) [of w1 E i "''job_'' @ fStatus f" None] by (auto simp: applied(3,4) intro: claims_trans)
    then show ?thesis using applied(5) del by (auto intro: claims_trans)
  qed simp
qed

lemma claims_mirror: "claims_le (db w) (db (mirrorLiveness E h m st w))"
  by (auto simp: mirrorLiveness_def claims_queries(6) split: option.splits)

lemma claims_readLoop:
  "readLoop E (main_hub E) m xs w = Some w' \<Longrightarrow> list_all printer_text xs \<Longrightarrow> claims_le (db w) (db w')"
proof (induction xs arbitrary: w)
  case (Cons x xs)
  show ?case
  proof (cases "case x of None \<Rightarrow> None | Some j \<Rightarrow> frame_read j")
    case None
    then show ?thesis using Cons.prems by simp
  next
    case (Some f)
    have st: "claims_le (db w) (db (onState E (main_hub E) m f w))"
    proof -
      obtain y w1 where y: "SetPrinterState E m \<lparr>psStatus = fStatus f, psSlotOccupancy = toStoreSlots (fSlotOccupancy f)\<rparr> w = (y, w1)"
        by fastforce
      then have "db w1 = db w"
        using SetPrinterState_db [of E m "\<lparr>psStatus = fStatus f, psSlotOccupancy = toStoreSlots (fSlotOccupancy f)\<rparr>" w] by simp
      then show ?thesis using y claims_mirror [of w1 E "main_hub E" m "fStatus f"]
        by (cases y) (auto simp: onState_def Let_def)
    qed
    consider "fType f = ''state''" | "fType f = ''status''" | "fType f \<noteq> ''state''" "fType f \<noteq> ''status''" by blast
    then show ?thesis
    proof cases
      case 1
      then have "readLoop E (main_hub E) m xs (onState E (main_hub E) m f w) = Some w'" using Cons.prems Some by simp
      from Cons.IH [OF this] st Cons.prems(2) show ?thesis by (auto intro: claims_trans)
    next
      case 2
      then obtain w1 where w1: "onStatus E (main_hub E) f w = Some w1" "readLoop E (main_hub E) m xs w1 = Some w'"
        using Cons.prems Some by (auto split: option.splits)
      have "report (fStatus f)"
        using Cons.prems(2) Some 2 by (auto simp: printer_text_def split: option.splits)
      from claims_trans [OF claims_onStatus [OF this w1(1)] Cons.IH [OF w1(2)]] Cons.prems(2) show ?thesis by simp
    next
      case 3
      then show ?thesis using Cons Some by simp
    qed
  qed
qed simp

lemma claims_accept:
  assumes "accept_begin E h c first reg w = (res, reg', w')"
  shows "claims_le (db w) (db w')"
proof -
  have s: "claims_le (db u) (db (mirrorLiveness E h m st (snd (SetPrinterState E m p u))))" for u m st p
    using claims_mirror [of "snd (SetPrinterState E m p u)" E h m st] by simp
  show ?thesis using assms
    by (auto simp: accept_begin_def Let_def s dest!: call_eqD split: option.splits prod.splits sum.splits if_splits)
      (metis s)+
qed

section \<open>Claims across the dispatcher\<close>

lemma claims_Retry: "Retry E f w = (r, w') \<Longrightarrow> claims_le (db w) (db w')"
  using claims_attempt [of w E f] Retry_db [of E f w] by simp

lemma claims_handle: "claims_le (db w) (db (handle E m w))"
  by (auto simp: handle_def dest!: claims_Retry split: prod.splits sum.splits)

interpretation claim_turns: turn_relation E claims_le for E
  by unfold_locales (auto intro: claims_trans claims_handle)

section \<open>What handlers leave alone\<close>

context observed
begin

lemma obs_D:
  "pg E q w = (x, w') \<Longrightarrow> obs (ext w') = obs (ext w)"
  "pg_gen E q1 w = (x1, w') \<Longrightarrow> obs (ext w') = obs (ext w)"
  "pg_at E q2 w = (x2, w') \<Longrightarrow> obs (ext w') = obs (ext w)"
  "newOpaqueToken E w = (x3, w') \<Longrightarrow> obs (ext w') = obs (ext w)"
  "LookupPrinterState E m w = (x4, w') \<Longrightarrow> obs (ext w') = obs (ext w)"
  "BlobExists E b w = (x5, w') \<Longrightarrow> obs (ext w') = obs (ext w)"
  "call (r_ping E) w = (x6, w') \<Longrightarrow> obs (ext w') = obs (ext w)"
  "call (r_subscribe E ch) w = (x7, w') \<Longrightarrow> obs (ext w') = obs (ext w)"
  "call (bcrypt_generate E pw) w = (x8, w') \<Longrightarrow> obs (ext w') = obs (ext w)"
  "call (pgp_encrypt E k v) w = (x9, w') \<Longrightarrow> obs (ext w') = obs (ext w)"
proof -
  show "newOpaqueToken E w = (x3, w') \<Longrightarrow> obs (ext w') = obs (ext w)"
    using obs_call [of "rand_read E 32" w]
    by (auto simp: newOpaqueToken_def Let_def simp del: obs_call split: prod.splits sum.splits)
qed (use obs_pg [of q w] obs_pg_gen [of q1 w] obs_pg_at [of q2 w] obs_store(1) [of m w] obs_minio(3) [of b w]
       obs_call [of "r_ping E" w] obs_call [of "r_subscribe E ch" w] obs_call [of "bcrypt_generate E pw" w]
       obs_call [of "pgp_encrypt E k v" w] in simp_all)

lemma obs_mailbox_views: "mailbox_views E sls mbs w = (x, w') \<Longrightarrow> obs (ext w') = obs (ext w)"
proof (induction mbs arbitrary: w x w')
  case (Cons mb mbs)
  obtain y w1 where y: "LookupPrinterState E (uuid_string E (amMailboxID mb)) w = (y, w1)" by fastforce
  obtain z w2 where z: "mailbox_views E sls mbs w1 = (z, w2)" by fastforce
  show ?case using Cons.prems y z obs_D(5) [OF y] Cons.IH [OF z] by (auto split: sum.splits)
qed simp

lemma obs_reading:
  "obs (ext (snd (RecipientPublicKey E r w))) = obs (ext w)" "obs (ext (snd (ListMyJobs E r w))) = obs (ext w)"
  "obs (ext (snd (StreamJob E sok evs r w))) = obs (ext w)" "obs (ext (snd (AdminJobs E r w))) = obs (ext w)"
  "obs (ext (snd (AdminSummary E r w))) = obs (ext w)" "obs (ext (snd (AdminMailboxes E r w))) = obs (ext w)"
  "obs (ext (snd (Healthz E s r w))) = obs (ext w)" "obs (ext (snd (SearchRecipients_handler E s r w))) = obs (ext w)"
  by (auto simp: RecipientPublicKey_def ListMyJobs_def StreamJob_def AdminJobs_def AdminSummary_def AdminMailboxes_def
      Healthz_def SearchRecipients_handler_def Let_def dest!: obs_D obs_mailbox_views
      split: option.splits prod.splits sum.splits)

lemma obs_issueSession: "issueSession E i role w = (x, w') \<Longrightarrow> obs (ext w') = obs (ext w)"
  by (auto simp: issueSession_def IssueAccessToken_def qInsertRefreshToken_def Let_def dest!: obs_D
      split: prod.splits sum.splits)

lemma obs_accounts:
  "obs (ext (snd (Login E s r w))) = obs (ext w)" "obs (ext (snd (Refresh E s r w))) = obs (ext w)"
  "obs (ext (snd (Logout E r w))) = obs (ext w)" "obs (ext (snd (Register E s r w))) = obs (ext w)"
  by (auto simp: Login_def Refresh_def Logout_def Register_def qRevokeRefreshTokenByHash_def qInsertSender_def Let_def
      dest!: obs_D obs_issueSession split: option.splits prod.splits sum.splits)

text \<open>The signing call of the upload URLs is the environment's, or one that leaves as much alone.\<close>

definition presigner_keeps :: "'s server \<Rightarrow> bool" where
  "presigner_keeps s \<longleftrightarrow> (\<forall>p. UploadPresigner s = Some p \<longrightarrow> (\<forall>b k ttl x. obs (snd (p b k ttl x)) = obs x))"

lemma obs_UploadURL:
  assumes "presigner_keeps s"
  shows "obs (ext (snd (UploadURL E s r w))) = obs (ext w)"
proof -
  have p: "obs (snd (m_presign_put (uploadPresigner E s) b k ttl x)) = obs x" for b k ttl x
    using assms by (auto simp: uploadPresigner_def presigner_keeps_def split: option.splits)
  have n: "uuid_new (uploadPresigner E s) = uuid_new E" by (simp add: uploadPresigner_def split: option.splits)
  have "obs (ext (snd (PresignedUploadURL (uploadPresigner E s) ttl w))) = obs (ext w)" for ttl w
    using obs_new [of "ext w"]
    by (auto simp: PresignedUploadURL_def n Let_def call_def simp del: obs_new split: prod.splits sum.splits)
      (metis p snd_conv)+
  then have "PresignedUploadURL (uploadPresigner E s) ttl w = (x, w') \<Longrightarrow> obs (ext w') = obs (ext w)" for ttl x w'
    by (metis snd_conv)
  then show ?thesis by (auto simp: UploadURL_def split: option.splits prod.splits sum.splits)
qed

lemma obs_guard:
  assumes "\<And>r. obs (ext (snd (next r w))) = obs (ext w)"
  shows "obs (ext (snd (optionalAuth E next r w))) = obs (ext w)" "obs (ext (snd (requireAuth E next r w))) = obs (ext w)"
    "obs (ext (snd (requireAdmin E next r w))) = obs (ext w)"
  using assms optionalAuth_cases [of E "next" r w] requireAuth_cases [of E "next" r w] requireAdmin_cases [of E "next" r w]
  by metis+

text \<open>Only a submission can reach the stream.\<close>

lemma obs_public:
  assumes "presigner_keeps s" "ep \<noteq> PostJobs"
  shows "obs (ext (snd (public_handler E s n sok evs ep r w))) = obs (ext w)"
proof -
  have "obs (ext (snd (mux E s sok evs ep r w))) = obs (ext w)"
    using assms(2) by (cases ep) (simp_all add: obs_guard obs_reading obs_accounts obs_UploadURL [OF assms(1)] Livez_def)
  then show ?thesis by (cases "mux E s sok evs ep r w") (simp add: public_handler_def nodeHeader_def)
qed

end

section \<open>A submission adds at most one entry\<close>

context quiet
begin

text \<open>
  The only call of a handler that is not quiet is the XADD at the end of a submission.
\<close>

definition enqueues :: "'s world \<Rightarrow> 's world \<Rightarrow> bool" where
  "enqueues w w' \<longleftrightarrow> obs (ext w') = obs (ext w) \<or>
     (\<exists>f u x. obs (ext u) = obs (ext w) \<and> enqueue E f u = (x, w'))"

lemma enqueues_same: "obs (ext w') = obs (ext w) \<Longrightarrow> enqueues w w'"
  by (simp add: enqueues_def)

lemma enqueues_after: "enqueues u w' \<Longrightarrow> obs (ext u) = obs (ext w) \<Longrightarrow> enqueues w w'"
  by (simp add: enqueues_def)

lemma TryDispatch_enqueues: "TryDispatch E f w = (r, w') \<Longrightarrow> enqueues w w'"
proof -
  assume t: "TryDispatch E f w = (r, w')"
  obtain x w1 where x: "attemptDispatch E f w = (x, w1)" by fastforce
  with t have "w' = w1 \<or> (\<exists>y. enqueue E f w1 = (y, w'))"
    by (auto simp: TryDispatch_def split: sum.splits if_splits)
  then show "enqueues w w'" using quiet_attempt [OF x] unfolding enqueues_def by blast
qed

lemma CreateJob_enqueues: "enqueues w (snd (CreateJob E r w))"
proof -
  have jo: "job_owner E r u = (x, v) \<Longrightarrow> obs (ext v) = obs (ext u)" for u v x
    by (auto simp: job_owner_def dest!: obs_D(4) split: option.splits prod.splits sum.splits)
  show ?thesis
    by (auto simp: CreateJob_def qInsertJob_def qInsertAuditEvent_def
        dest!: obs_D(1,2,6) jo TryDispatch_enqueues intro: enqueues_same enqueues_after
        split: option.splits prod.splits sum.splits)
qed

lemma public_enqueues:
  assumes "presigner_keeps s"
  shows "enqueues w (snd (public_handler E s n sok evs ep r w))"
proof (cases "ep = PostJobs")
  case False
  from obs_public [OF assms False] show ?thesis by (rule enqueues_same)
next
  case True
  obtain r' where r': "optionalAuth E (CreateJob E) r w = CreateJob E r' w"
    using optionalAuth_cases [of E "CreateJob E" r w] by blast
  have "snd (public_handler E s n sok evs ep r w) = snd (CreateJob E r' w)"
    by (cases "CreateJob E r' w") (simp add: True public_handler_def nodeHeader_def r')
  with CreateJob_enqueues show ?thesis by simp
qed

end

section \<open>The stream across the handlers\<close>

context stream_service
begin

lemma keep_obs: "(pel (ext w'), backlog (ext w')) = (pel (ext w), backlog (ext w)) \<Longrightarrow>
    held w' = held w \<and> (sound w \<longrightarrow> sound w')"
  by (simp add: held_def sound_def)

text \<open>What may have been added to the stream: at most one entry, with a fresh id.\<close>

definition appended :: "'s world \<Rightarrow> 's world \<Rightarrow> bool" where
  "appended w w' \<longleftrightarrow> pel (ext w') = pel (ext w) \<and> (backlog (ext w') = backlog (ext w) \<or>
     (\<exists>m. backlog (ext w') = backlog (ext w) @ [m] \<and> pel (ext w) (xID m) = None \<and> xID m \<notin> xID ` set (backlog (ext w))))"

lemma appended_keeps: "appended w w' \<Longrightarrow> held w \<subseteq> held w' \<and> (sound w \<longrightarrow> sound w')"
  by (auto simp: appended_def held_def sound_def)

lemma appended_same: "(pel (ext w'), backlog (ext w')) = (pel (ext w), backlog (ext w)) \<Longrightarrow> appended w w'"
  by (simp add: appended_def)

lemma enqueue_appends:
  assumes "enqueue E f w = (r, w')"
  shows "appended w w'" "r = Inr st \<Longrightarrow> st = ''queued'' \<and> (\<exists>m\<in>set (backlog (ext w')). JobRefFromValues (xValues m) = Inr f)"
proof -
  obtain x w1 where x: "call (r_xadd E PendingStream (toXAddValues f)) w = (x, w1)" by fastforce
  then have w': "w' = w1" and r: "r = Inr st \<Longrightarrow> st = ''queued'' \<and> (\<exists>i. x = Inr i)" for st
    using assms by (cases x; auto simp: enqueue_def)+
  from call_eqD [OF x] have c: "r_xadd E PendingStream (toXAddValues f) (ext w) = (x, ext w1)" by simp
  show "appended w w'"
  proof (cases x)
    case (Inl e)
    from xadd_err [OF c [unfolded Inl]] show ?thesis by (auto simp: appended_def w' intro: exI [of _ "\<lparr>xID = i, xValues = v\<rparr>" for i v])
  next
    case (Inr i)
    from xadd_ok [OF c [unfolded Inr]] show ?thesis by (auto simp: appended_def w')
  qed
  assume "r = Inr st"
  from r [OF this] obtain i where "st = ''queued''" "x = Inr i" by blast
  with xadd_ok [OF c [unfolded \<open>x = Inr i\<close>]] show "st = ''queued'' \<and> (\<exists>m\<in>set (backlog (ext w')). JobRefFromValues (xValues m) = Inr f)"
    by (simp add: w')
qed

text \<open>A first dispatch that does not fail: the job is out of reach of further claims, or queued.\<close>

lemma TryDispatch_fate:
  assumes "TryDispatch E f w = (Inr st, w')" "uuid_parse E (rfJobID f) = Some i"
  shows "(st = dispatching \<and> \<not> claimable_in (db w') i) \<or>
    (st = ''queued'' \<and> (\<exists>m\<in>set (backlog (ext w')). JobRefFromValues (xValues m) = Inr f))"
proof -
  obtain r w1 where a: "attemptDispatch E f w = (r, w1)" by fastforce
  have cl: "r = Inr dispatching \<Longrightarrow> \<not> claimable_in (db w1) i" "r = Inr settled \<Longrightarrow> \<not> claimable_in (db w1) i"
    "r = Inr blocked \<or> r = Inr settled \<or> r = Inr dispatching \<or> (\<exists>e. r = Inl e)"
    using attempt_outcomes [OF a assms(2)] claimable_marked by auto
  show ?thesis
  proof (cases "r = Inr blocked")
    case True
    with assms(1) a have "enqueue E f w1 = (Inr st, w')" by (simp add: TryDispatch_def)
    from enqueue_appends(2) [OF this refl] show ?thesis by blast
  next
    case False
    with cl(3) consider "r = Inr settled" | "r = Inr dispatching" | e where "r = Inl e" by blast
    then have "(r = Inr settled \<or> r = Inr dispatching) \<and> st = dispatching \<and> w' = w1"
      by cases (use assms(1) a in \<open>simp_all add: TryDispatch_def\<close>)
    then show ?thesis using cl(1,2) by blast
  qed
qed

lemma enqueues_appended: "enqueues w w' \<Longrightarrow> appended w w'"
proof -
  have "enqueue E f u = (x, w') \<Longrightarrow> pel (ext u) = pel (ext w) \<Longrightarrow> backlog (ext u) = backlog (ext w) \<Longrightarrow> appended w w'" for f u x
    using enqueue_appends(1) [of f u x w'] by (simp add: appended_def)
  then show "enqueues w w' \<Longrightarrow> appended w w'" by (auto simp: enqueues_def intro: appended_same)
qed

end

section \<open>What the hub leaves alone\<close>

context quiet
begin

lemma quiet_mirror: "obs (ext (mirrorLiveness E h m st w)) = obs (ext w)"
  by (simp add: mirrorLiveness_def split: option.splits)

lemma quiet_onState: "obs (ext (onState E h m f w)) = obs (ext w)"
proof -
  obtain y w1 where y: "SetPrinterState E m \<lparr>psStatus = fStatus f, psSlotOccupancy = toStoreSlots (fSlotOccupancy f)\<rparr> w = (y, w1)"
    by fastforce
  then have "obs (ext w1) = obs (ext w)"
    using obs_store(3) [of m "\<lparr>psStatus = fStatus f, psSlotOccupancy = toStoreSlots (fSlotOccupancy f)\<rparr>" w] by simp
  with y show ?thesis
    by (cases y) (simp_all add: onState_def Let_def quiet_mirror)
qed

lemma quiet_deleteDelivered: "obs (ext (deleteDeliveredBlob E (main_hub E) i b w)) = obs (ext w)"
proof -
  obtain x w1 where x: "RemoveBlob E b w = (x, w1)" by fastforce
  have "obs (ext w1) = obs (ext w)" using obs_minio(2) [of b w] x by simp
  with x show ?thesis
    by (auto simp: deleteDeliveredBlob_def main_hub_def Let_def split: sum.splits)
qed

lemma quiet_onStatus:
  assumes "onStatus E (main_hub E) f w = Some w'"
  shows "obs (ext w') = obs (ext w)"
proof -
  have hub: "hubQueries (main_hub E)" by (simp add: main_hub_def)
  have up: "qUpdateJobStatus E i st w = (r, v) \<Longrightarrow> obs (ext v) = obs (ext w)" for i st r v
    using obs_queries(3) [of i st w] by simp
  from assms hub show ?thesis
  proof (cases rule: onStatus_cases)
    case (failed i e)
    then show ?thesis using up by simp
  next
    case (applied i job w1 w2 w3)
    have "obs (ext w3) = obs (ext w2)" unfolding applied(4) by simp
    with up [OF applied(2)] show ?thesis
      using applied(3,5) by (simp add: quiet_deleteDelivered)
  qed simp
qed

lemma quiet_readLoop: "readLoop E (main_hub E) m xs w = Some w' \<Longrightarrow> obs (ext w') = obs (ext w)"
proof (induction xs arbitrary: w)
  case (Cons x xs)
  show ?case
  proof (cases "case x of None \<Rightarrow> None | Some j \<Rightarrow> frame_read j")
    case None
    then show ?thesis using Cons.prems by simp
  next
    case (Some f)
    then consider "readLoop E (main_hub E) m xs (onState E (main_hub E) m f w) = Some w'"
      | u where "onStatus E (main_hub E) f w = Some u" "readLoop E (main_hub E) m xs u = Some w'"
      | "readLoop E (main_hub E) m xs w = Some w'"
      using Cons.prems by (auto split: if_splits option.splits)
    then show ?thesis
    proof cases
      case 1
      from Cons.IH [OF this] show ?thesis by (simp add: quiet_onState)
    next
      case (2 u)
      from Cons.IH [OF 2(2)] quiet_onStatus [OF 2(1)] show ?thesis by simp
    next
      case 3
      then show ?thesis by (rule Cons.IH)
    qed
  qed
qed simp

lemma quiet_accept:
  assumes "accept_begin E h c first reg w = (res, reg', w')"
  shows "obs (ext w') = obs (ext w)"
  using assms by (auto simp: accept_begin_def Let_def quiet_mirror dest!: obs_D(8)
      split: option.splits prod.splits sum.splits if_splits)

end

end
