(* ===== verification/Cluster.thy ===== *)
theory Cluster
  imports Cluster_Ops Printer_Facts
begin

text \<open>
  All nodes of the service together. Nodes work on one world; each keeps the rest of the batch of
  queue entries it last read. A step is a request, a printer's frames, a registration, one read of
  the stream, or the handling of one entry, of any node: so the turns of the dispatchers interleave
  with each other and with everything else between any two entries. A job that was accepted is at
  every later time settled, in a printer's hands, or held by an entry of the queue.
\<close>

section \<open>Operations and steps\<close>

text \<open>
  \<^verbatim>\<open>node_op\<close> is \<^verbatim>\<open>world_step\<close> without the dispatcher's turns, with printers that report what this
  repository's printer reports, and with outside changes of the services (time, keys,
  subscriptions, blobs) that leave the queue alone.
\<close>

inductive node_op :: "'s env \<Rightarrow> 's server \<Rightarrow> ('s \<Rightarrow> pel) \<Rightarrow> ('s \<Rightarrow> xmessage list) \<Rightarrow> ('s \<Rightarrow> string set)
    \<Rightarrow> 's world \<Rightarrow> 's world \<Rightarrow> bool" for E s pel backlog issued where
  Request: "node_op E s pel backlog issued w (snd (public_handler E s nodeID sok evs ep r w))"
| LinkFrames: "list_all printer_text xs \<Longrightarrow> readLoop E (main_hub E) m xs w = Some w' \<Longrightarrow>
    node_op E s pel backlog issued w w'"
| Registered: "accept_begin E (main_hub E) c first reg w = (res, reg', w') \<Longrightarrow> node_op E s pel backlog issued w w'"
| Reap: "node_op E s pel backlog issued w (ReapStaleConsumers E di w)"
| Leave: "node_op E s pel backlog issued w (snd (RemoveConsumer E di w))"
| Outside: "pel x = pel (ext w) \<Longrightarrow> backlog x = backlog (ext w) \<Longrightarrow> issued x = issued (ext w) \<Longrightarrow>
    node_op E s pel backlog issued w (w\<lparr>ext := x\<rparr>)"

record 's cluster =
  clWorld :: "'s world"
  clBatch :: "string \<Rightarrow> xmessage list"

definition read_batch :: "xmessage list list res \<Rightarrow> xmessage list" where
  "read_batch r = (case r of Inr (ms # _) \<Rightarrow> ms | _ \<Rightarrow> [])"

definition scan_batch :: "(xmessage list \<times> string) res \<Rightarrow> xmessage list" where
  "scan_batch r = (case r of Inr (ms, _) \<Rightarrow> ms | _ \<Rightarrow> [])"

text \<open>A node stops in the middle of a batch when it is cancelled or crashes.\<close>

inductive cluster_step :: "'s env \<Rightarrow> 's server \<Rightarrow> ('s \<Rightarrow> pel) \<Rightarrow> ('s \<Rightarrow> xmessage list) \<Rightarrow> ('s \<Rightarrow> string set)
    \<Rightarrow> 's cluster \<Rightarrow> 's cluster \<Rightarrow> bool" for E s pel backlog issued where
  Operation: "node_op E s pel backlog issued (clWorld c) w' \<Longrightarrow>
    cluster_step E s pel backlog issued c (c\<lparr>clWorld := w'\<rparr>)"
| Read: "clBatch c n = [] \<Longrightarrow> call (r_xreadgroup E ConsumerGroup n PendingStream 10) (clWorld c) = (r, w') \<Longrightarrow>
    cluster_step E s pel backlog issued c (c\<lparr>clWorld := w', clBatch := (clBatch c)(n := read_batch r)\<rparr>)"
| Scan: "clBatch c n = [] \<Longrightarrow>
    call (r_xautoclaim E PendingStream ConsumerGroup n claimMinIdle start 10) (clWorld c) = (ra, w') \<Longrightarrow>
    cluster_step E s pel backlog issued c (c\<lparr>clWorld := w', clBatch := (clBatch c)(n := scan_batch ra)\<rparr>)"
| Handle: "clBatch c n = m # ms \<Longrightarrow>
    cluster_step E s pel backlog issued c (c\<lparr>clWorld := handle E m (clWorld c), clBatch := (clBatch c)(n := ms)\<rparr>)"
| Stop: "cluster_step E s pel backlog issued c (c\<lparr>clBatch := (clBatch c)(n := [])\<rparr>)"

inductive_cases cluster_stepE: "cluster_step E s pel backlog issued c d"

text \<open>
  The invariant: entries on the stream have distinct ids and are not pending; the entries of a
  node's batch are off the stream for good, and one that is still pending has the fields the node
  read.
\<close>

definition queue_ok :: "('s \<Rightarrow> pel) \<Rightarrow> ('s \<Rightarrow> xmessage list) \<Rightarrow> ('s \<Rightarrow> string set) \<Rightarrow> 's cluster \<Rightarrow> bool" where
  "queue_ok pel backlog issued c \<longleftrightarrow>
     (let x = ext (clWorld c) in
      distinct (map xID (backlog x)) \<and> (\<forall>m\<in>set (backlog x). pel x (xID m) = None) \<and>
      (\<forall>n. \<forall>m\<in>set (clBatch c n). xID m \<in> issued x \<and> xID m \<notin> xID ` set (backlog x) \<and>
         (\<forall>o' v. pel x (xID m) = Some (o', v) \<longrightarrow> v = xValues m)))"

text \<open>What the printer of this repository writes for a dispatch is such a text.\<close>

lemma handleDispatch_printer_text:
  assumes "p \<in> set (drop (length (sent m)) (sent (handleDispatch F cfg key f m)))" "slots_ok (pSlotOccupancy p)"
  shows "printer_text (Some (pframe_json p))"
proof -
  have "pType p = ''status'' \<Longrightarrow> report (pStatus p)"
    using assms(1) by (auto simp: handleDispatch_sent status_frame_def state_frame_def report_def split: sum.splits)
  then show ?thesis using assms(2) by (simp add: printer_text_def frame_read_pframe_json cloud_view_def)
qed

section \<open>Claims along the steps\<close>

lemma node_op_claims: "node_op E s pel backlog issued w w' \<Longrightarrow> claims_le (db w) (db w')"
  by (induction rule: node_op.induct)
    (auto simp: claims_public reap_db RemoveConsumer_db intro: claims_readLoop claims_accept)

lemma cluster_claims: "cluster_step E s pel backlog issued c d \<Longrightarrow> claims_le (db (clWorld c)) (db (clWorld d))"
  by (induction rule: cluster_step.induct) (auto simp: node_op_claims claims_handle dest: call_eqD)

interpretation cluster_mono: monotone_steps "cluster_step E s pel backlog issued"
    "\<lambda>c d. claims_le (db (clWorld c)) (db (clWorld d))"
  by unfold_locales (auto intro: claims_trans cluster_claims)

section \<open>Entries are kept while their job is open\<close>

context stream_service
begin

text \<open>An entry that names an existing job stays until that job cannot be claimed any more.\<close>

definition kept :: "'s world \<Rightarrow> 's world \<Rightarrow> bool" where
  "kept w w' \<longleftrightarrow> claims_le (db w) (db w') \<and> (sound w \<longrightarrow> sound w' \<and>
     (\<forall>i v f k. (i, v) \<in> held w \<longrightarrow> JobRefFromValues v = Inr f \<longrightarrow> uuid_parse E (rfJobID f) = Some k \<longrightarrow>
        status_of (db w) k \<noteq> None \<longrightarrow> (i, v) \<in> held w' \<or> \<not> claimable_in (db w') k))"

lemma held_backlog: "m \<in> set (backlog (ext w)) \<Longrightarrow> (xID m, xValues m) \<in> held w"
  by (cases m) (simp add: held_def)

lemma kept_refl: "kept w w"
  by (simp add: kept_def)

lemma kept_trans:
  assumes "kept u v" "kept v w"
  shows "kept u w"
proof -
  have le: "claims_le (db u) (db v)" "claims_le (db v) (db w)" using assms by (simp_all add: kept_def)
  have "(i, x) \<in> held w \<or> \<not> claimable_in (db w) k"
    if "sound u" "(i, x) \<in> held u" "JobRefFromValues x = Inr f" "uuid_parse E (rfJobID f) = Some k"
      "status_of (db u) k \<noteq> None" for i x f k
  proof -
    from le(1) that(5) have v: "status_of (db v) k \<noteq> None" by (simp add: claims_le_def)
    from assms(1) that have "sound v" "(i, x) \<in> held v \<or> \<not> claimable_in (db v) k" unfolding kept_def by blast+
    with assms(2) that(3,4) v le(2) show ?thesis unfolding kept_def claims_le_def by blast
  qed
  with assms claims_trans [OF le] show ?thesis unfolding kept_def by blast
qed

lemma kept_held: "claims_le (db w) (db w') \<Longrightarrow> held w \<subseteq> held w' \<and> (sound w \<longrightarrow> sound w') \<Longrightarrow> kept w w'"
  unfolding kept_def by blast

lemma kept_same:
  "claims_le (db w) (db w') \<Longrightarrow> pel (ext w') = pel (ext w) \<and> backlog (ext w') = backlog (ext w) \<Longrightarrow> kept w w'"
  by (intro kept_held) (simp_all add: held_def sound_def)

lemma kept_conserves:
  assumes "claims_le (db w) (db w')" "sound w \<Longrightarrow> conserves w w' \<and> sound w'"
  shows "kept w w'"
proof -
  have "(i, v) \<in> held w' \<or> \<not> claimable_in (db w') k"
    if "sound w" "(i, v) \<in> held w" "JobRefFromValues v = Inr f" "uuid_parse E (rfJobID f) = Some k" for i v f k
  proof -
    have "open_values E (db w') v \<longleftrightarrow> claimable_in (db w') k" using that(3,4) by (simp add: open_values_def)
    then show ?thesis using assms(2) [OF that(1)] that(2) unfolding conserves_def by blast
  qed
  with assms show ?thesis unfolding kept_def by blast
qed

lemma kept_public: "presigner_keeps s \<Longrightarrow> kept w (snd (public_handler E s n sok evs ep r w))"
  by (rule kept_held [OF claims_public appended_keeps [OF enqueues_appended [OF public_enqueues]]])

lemma kept_op:
  assumes "node_op E s pel backlog issued w w'" "presigner_keeps s"
  shows "kept w w'"
proof -
  note le = node_op_claims [OF assms(1)]
  from assms(1) show ?thesis
  proof cases
    case (Request nodeID sok evs ep r)
    then show ?thesis using kept_public [OF assms(2)] by simp
  next
    case (LinkFrames xs m)
    then show ?thesis using le quiet_readLoop by (intro kept_same) simp_all
  next
    case (Registered c first reg res reg')
    then show ?thesis using le quiet_accept by (intro kept_same) simp_all
  next
    case (Reap di)
    then show ?thesis using le ReapStaleConsumers_keeps [of di w] by (intro kept_same) simp_all
  next
    case (Leave di)
    then show ?thesis using le RemoveConsumer_keeps [of di w "fst (RemoveConsumer E di w)" w'] by (intro kept_same) simp_all
  next
    case (Outside x)
    then show ?thesis using le by (intro kept_same) simp_all
  qed
qed

end

section \<open>Batches stay consistent\<close>

lemma quiet_pair: "quiet E f \<Longrightarrow> quiet E g \<Longrightarrow> quiet E (\<lambda>s. (f s, g s))"
  by (simp add: quiet_def observed_def quiet_axioms_def)

sublocale stream_ids \<subseteq> whole: quiet E "\<lambda>s. ((pel s, backlog s), issued s)"
  by (rule quiet_pair) unfold_locales

context stream_ids
begin

abbreviation consistent :: "'s cluster \<Rightarrow> bool" where
  "consistent \<equiv> queue_ok pel backlog issued"

lemma presigner_stream: "whole.presigner_keeps s \<Longrightarrow> presigner_keeps s"
  unfolding whole.presigner_keeps_def presigner_keeps_def by simp

lemma consistent_iff:
  "consistent c \<longleftrightarrow> sound (clWorld c) \<and> (\<forall>n. \<forall>m\<in>set (clBatch c n). agrees (clWorld c) m \<and>
     xID m \<in> issued (ext (clWorld c)) \<and> xID m \<notin> xID ` set (backlog (ext (clWorld c))))"
  unfolding queue_ok_def sound_def agrees_def Let_def by (simp only: conj_ac)

text \<open>What an operation on the world may do: keep the pending entries, add fresh ones to the stream.\<close>

definition grown :: "'s world \<Rightarrow> 's world \<Rightarrow> bool" where
  "grown w w' \<longleftrightarrow> issued (ext w) \<subseteq> issued (ext w') \<and>
     (\<forall>m\<in>set (backlog (ext w')) - set (backlog (ext w)). xID m \<notin> issued (ext w))"

lemma grown_refl: "issued (ext w) \<subseteq> issued (ext w') \<Longrightarrow> backlog (ext w') = backlog (ext w) \<Longrightarrow> grown w w'"
  by (simp add: grown_def)

lemma grown_trans: "grown u v \<Longrightarrow> grown v w \<Longrightarrow> grown u w"
  unfolding grown_def by blast

lemma grown_batch:
  assumes "grown w w'" "xID m \<in> issued (ext w)" "xID m \<notin> xID ` set (backlog (ext w))"
  shows "xID m \<in> issued (ext w') \<and> xID m \<notin> xID ` set (backlog (ext w'))"
proof -
  have False if "xID m \<in> xID ` set (backlog (ext w'))"
  proof -
    from that obtain y where y: "y \<in> set (backlog (ext w'))" "xID y = xID m" by (metis imageE)
    with assms(3) have "y \<notin> set (backlog (ext w))" by (metis imageI)
    with assms(1,2) y show False unfolding grown_def by (metis DiffI)
  qed
  with assms(1,2) show ?thesis by (auto simp: grown_def)
qed

lemma grown_enqueue: "enqueue E f w = (r, w') \<Longrightarrow> grown w w'"
  by (auto simp: enqueue_def grown_def dest!: call_eqD xadd_issued split: prod.splits sum.splits)

lemma whole_enqueues:
  assumes "whole.enqueues w w'"
  shows "grown w w' \<and> pel (ext w') = pel (ext w)"
proof (cases "((pel (ext w'), backlog (ext w')), issued (ext w')) = ((pel (ext w), backlog (ext w)), issued (ext w))")
  case True
  then show ?thesis by (simp add: grown_refl)
next
  case False
  with assms obtain f u x where u: "pel (ext u) = pel (ext w)" "backlog (ext u) = backlog (ext w)"
      "issued (ext u) = issued (ext w)" "enqueue E f u = (x, w')"
    by (auto simp: whole.enqueues_def)
  have "pel (ext w') = pel (ext u)" using enqueue_appends(1) [OF u(4)] by (simp add: appended_def)
  with grown_enqueue [OF u(4)] u(1-3) show ?thesis by (simp add: grown_def)
qed

lemma grown_delete:
  assumes "deleteConsumerIfDrained E name w = (r, w')"
  shows "grown w w' \<and> pel (ext w') = pel (ext w)"
proof -
  obtain rp w1 where rp: "call (r_xpending E PendingStream ConsumerGroup name 1) w = (rp, w1)" by fastforce
  obtain rd w2 where rd: "call (r_xgroup_delconsumer E PendingStream ConsumerGroup name) w1 = (rd, w2)" by fastforce
  have "w' = w1 \<or> w' = w2"
    using assms rp rd by (auto simp: deleteConsumerIfDrained_def split: sum.splits go_error.splits if_splits)
  moreover have "issued (ext w) \<subseteq> issued (ext w1)" "issued (ext w1) \<subseteq> issued (ext w2)"
    using call_eqD [OF rp] call_eqD [OF rd] xpending_issued xdel_issued by blast+
  ultimately have "issued (ext w) \<subseteq> issued (ext w')" by blast
  then show ?thesis using delete_if_drained [OF assms] by (simp add: grown_refl)
qed

lemma grown_reap_each: "grown w (reap_each E di cs w)"
proof (induction cs arbitrary: w)
  case (Cons k cs)
  have "grown w (snd (deleteConsumerIfDrained E (ciName k) w))"
    using grown_delete [OF prod.collapse [symmetric]] by blast
  with Cons show ?case by (auto intro: grown_trans)
qed (simp add: grown_refl)

lemma grown_reap: "grown w (ReapStaleConsumers E di w)"
proof -
  obtain r w1 where r: "call (r_xinfo_consumers E PendingStream ConsumerGroup) w = (r, w1)" by fastforce
  from call_eqD [OF r] have r': "r_xinfo_consumers E PendingStream ConsumerGroup (ext w) = (r, ext w1)" by simp
  have "grown w w1" using xinfo_keeps [OF r'] xinfo_issued [OF r'] by (simp add: grown_refl)
  with r grown_reap_each show ?thesis by (cases r) (auto simp: ReapStaleConsumers_def intro: grown_trans)
qed

lemma grown_leave: "grown w (snd (RemoveConsumer E di w))"
proof -
  obtain r w1 where r: "deleteConsumerIfDrained E (NodeID di) w = (r, w1)" by fastforce
  then show ?thesis using grown_delete [OF r] by (cases r) (simp_all add: RemoveConsumer_def)
qed

lemma grown_op:
  assumes "node_op E s pel backlog issued w w'" "whole.presigner_keeps s"
  shows "grown w w' \<and> pel (ext w') = pel (ext w)"
  using assms(1)
proof cases
  case (Request nodeID sok evs ep r)
  then show ?thesis using whole_enqueues [OF whole.public_enqueues [OF assms(2)]] by simp
next
  case (LinkFrames xs m)
  then show ?thesis using whole.quiet_readLoop by (auto intro: grown_refl)
next
  case (Registered c first reg res reg')
  then show ?thesis using whole.quiet_accept by (auto intro: grown_refl)
next
  case (Reap di)
  then show ?thesis using grown_reap ReapStaleConsumers_keeps by simp
next
  case (Leave di)
  then show ?thesis using grown_leave RemoveConsumer_keeps [of di w "fst (RemoveConsumer E di w)" w'] by simp
next
  case (Outside x)
  then show ?thesis by (simp add: grown_refl)
qed

subsection \<open>Reading and handling\<close>

lemma handle_issued: "issued (ext w) \<subseteq> issued (ext (handle E m w))"
proof -
  have a: "issued (ext u) \<subseteq> issued (ext (ack E i u))" for i u
  proof -
    obtain r v where r: "call (r_xack E PendingStream ConsumerGroup i) u = (r, v)" by fastforce
    with xack_issued [OF conjunct1 [OF call_eqD [OF r]]] show ?thesis by (simp add: ack_def)
  qed
  show ?thesis
  proof (cases rule: handle_cases [of m w])
    case (malformed e)
    then show ?thesis using a by simp
  next
    case (left f r w1)
    then show ?thesis using ids.quiet_Retry by simp
  next
    case (acked f w1)
    then show ?thesis using a [of w1 "xID m"] ids.quiet_Retry [OF acked(2)] by simp
  qed
qed

text \<open>What a read delivers to a node, and that the entries other nodes still hold stay off the stream.\<close>

lemma read_facts:
  assumes "call (r_xreadgroup E ConsumerGroup n PendingStream k) w = (r, w')" "sound w"
  shows "sound w' \<and> conserves w w' \<and> db w' = db w \<and> issued (ext w) \<subseteq> issued (ext w') \<and>
    set (backlog (ext w')) \<subseteq> set (backlog (ext w)) \<and>
    (\<forall>m. xID m \<notin> xID ` set (backlog (ext w)) \<longrightarrow> pel (ext w') (xID m) = pel (ext w) (xID m)) \<and>
    (\<forall>m\<in>set (read_batch r). agrees w' m \<and> xID m \<in> issued (ext w') \<and> xID m \<notin> xID ` set (backlog (ext w')))"
proof -
  let ?bl = "backlog (ext w)"
  note x = call_eqD [OF assms(1)] and st = xread_state [OF assms]
  have iss: "issued (ext w) \<subseteq> issued (ext w')" using x xread_issued by blast
  have sub: "set (backlog (ext w')) \<subseteq> set ?bl" using st set_drop_subset by fastforce
  have moved: "pel (ext w') = pel (ext w) \<or> pel (ext w') = delivered n (take k ?bl) (pel (ext w))"
    using x xread xread_err by (cases r) blast+
  have other: "pel (ext w') (xID m) = pel (ext w) (xID m)" if "xID m \<notin> xID ` set ?bl" for m
  proof -
    have "xID m \<notin> xID ` set (take k ?bl)" using that set_take_subset [of k ?bl] by blast
    with moved show ?thesis by (auto simp: delivered_other)
  qed
  have new: "agrees w' m \<and> xID m \<in> issued (ext w') \<and> xID m \<notin> xID ` set (backlog (ext w'))" if m: "m \<in> set (read_batch r)" for m
  proof -
    from m obtain ms rest where r: "r = Inr (ms # rest)" "m \<in> set ms"
      by (auto simp: read_batch_def split: sum.splits list.splits)
    with st have ms: "ms = take k ?bl" "agrees w' m" by auto
    have "backlog (ext w') = drop k ?bl" using x r(1) xread by blast
    moreover have "distinct (map xID (take k ?bl @ drop k ?bl))" using assms(2) by (simp add: sound_def)
    ultimately have "xID m \<notin> xID ` set (backlog (ext w'))"
      using r(2) ms(1) by (simp only: map_append distinct_append set_map) blast
    moreover have "m \<in> set ?bl" using r(2) ms(1) in_set_takeD by fastforce
    then have "xID m \<in> issued (ext w')" using stored_issued [of "ext w"] iss by blast
    ultimately show ?thesis using ms(2) by simp
  qed
  from st iss sub other new show ?thesis by blast
qed

lemma scan_facts:
  assumes "call (r_xautoclaim E PendingStream ConsumerGroup n idle start k) w = (r, w')" "sound w"
  shows "sound w' \<and> conserves w w' \<and> db w' = db w \<and> issued (ext w) \<subseteq> issued (ext w') \<and>
    backlog (ext w') = backlog (ext w) \<and> (\<forall>m. agrees w m \<longrightarrow> agrees w' m) \<and>
    (\<forall>m\<in>set (scan_batch r). agrees w' m \<and> xID m \<in> issued (ext w') \<and> xID m \<notin> xID ` set (backlog (ext w')))"
proof -
  note x = call_eqD [OF assms(1)] and st = xautoclaim_state [OF assms]
  have iss: "issued (ext w) \<subseteq> issued (ext w')" using x xautoclaim_issued by blast
  obtain S where S: "pel (ext w') = reassigned n S (pel (ext w))"
    using x xautoclaim xautoclaim_err by (cases r) (auto, blast+)
  have ag: "agrees w' m" if "agrees w m" for m
    using that by (auto simp: agrees_def S reassigned_def split: if_splits)
  have new: "agrees w' m \<and> xID m \<in> issued (ext w') \<and> xID m \<notin> xID ` set (backlog (ext w'))" if m: "m \<in> set (scan_batch r)" for m
  proof -
    from m obtain ms nxt where r: "r = Inr (ms, nxt)" "m \<in> set ms"
      by (auto simp: scan_batch_def split: sum.splits)
    with x xautoclaim obtain c' where c: "pel (ext w) (xID m) = Some (c', xValues m)" by blast
    then have "xID m \<in> issued (ext w')" using stored_issued [of "ext w"] iss by blast
    moreover have "xID m \<notin> xID ` set (backlog (ext w'))"
    proof
      assume "xID m \<in> xID ` set (backlog (ext w'))"
      then obtain y where "y \<in> set (backlog (ext w))" "xID y = xID m" using st by (metis imageE)
      with assms(2) c show False by (auto simp: sound_def)
    qed
    ultimately show ?thesis using st r by blast
  qed
  from st iss ag new show ?thesis by blast
qed

section \<open>Every step keeps the queue\<close>

lemma consistent_world:
  assumes "consistent c" "sound w'" "grown (clWorld c) w' \<and> pel (ext w') = pel (ext (clWorld c))"
  shows "consistent (c\<lparr>clWorld := w'\<rparr>)"
proof -
  have "agrees w' m \<and> xID m \<in> issued (ext w') \<and> xID m \<notin> xID ` set (backlog (ext w'))" if "m \<in> set (clBatch c n)" for n m
  proof -
    have "agrees (clWorld c) m" "xID m \<in> issued (ext (clWorld c))" "xID m \<notin> xID ` set (backlog (ext (clWorld c)))"
      using assms(1) that by (auto simp: consistent_iff)
    with grown_batch [OF conjunct1 [OF assms(3)], of m] assms(3) show ?thesis by (simp add: agrees_def)
  qed
  with assms(2) show ?thesis by (simp add: consistent_iff)
qed

lemma cluster_step_keeps:
  assumes "cluster_step E s pel backlog issued c d" "whole.presigner_keeps s" "consistent c"
  shows "consistent d \<and> kept (clWorld c) (clWorld d)"
proof -
  note le = cluster_claims [OF assms(1)]
  have c: "sound (clWorld c)" and B: "agrees (clWorld c) m" "xID m \<in> issued (ext (clWorld c))"
    "xID m \<notin> xID ` set (backlog (ext (clWorld c)))" if "m \<in> set (clBatch c n)" for n m
    using assms(3) that by (auto simp: consistent_iff)
  have c: "sound (clWorld c)" using assms(3) by (simp add: consistent_iff)
  from assms(1) show ?thesis
  proof cases
    case (Operation w')
    have k: "kept (clWorld c) w'" by (rule kept_op [OF Operation(2) presigner_stream [OF assms(2)]])
    have "sound w'" using k c by (simp add: kept_def)
    with consistent_world [OF assms(3) _ grown_op [OF Operation(2) assms(2)]] k show ?thesis by (simp add: Operation(1))
  next
    case (Read n r w')
    note f = read_facts [OF Read(3) c]
    have "agrees w' m \<and> xID m \<in> issued (ext w') \<and> xID m \<notin> xID ` set (backlog (ext w'))" if "m \<in> set (clBatch c n')" for n' m
      using B [OF that] f by (auto simp: agrees_def)
    moreover have "sound w'" "\<forall>m\<in>set (read_batch r). agrees w' m \<and> xID m \<in> issued (ext w') \<and> xID m \<notin> xID ` set (backlog (ext w'))"
      using f by blast+
    ultimately have "consistent d" unfolding consistent_iff Read(1) by (auto split: if_splits)
    moreover have "conserves (clWorld c) w' \<and> sound w'" using f by blast
    then have "kept (clWorld c) (clWorld d)" using le by (intro kept_conserves) (simp_all add: Read(1))
    ultimately show ?thesis by blast
  next
    case (Scan n start r w')
    note f = scan_facts [OF Scan(3) c]
    have "agrees w' m \<and> xID m \<in> issued (ext w') \<and> xID m \<notin> xID ` set (backlog (ext w'))" if "m \<in> set (clBatch c n')" for n' m
      using B [OF that] f by auto
    moreover have "sound w'" "\<forall>m\<in>set (scan_batch r). agrees w' m \<and> xID m \<in> issued (ext w') \<and> xID m \<notin> xID ` set (backlog (ext w'))"
      using f by blast+
    ultimately have "consistent d" unfolding consistent_iff Scan(1) by (auto split: if_splits)
    moreover have "conserves (clWorld c) w' \<and> sound w'" using f by blast
    then have "kept (clWorld c) (clWorld d)" using le by (intro kept_conserves) (simp_all add: Scan(1))
    ultimately show ?thesis by blast
  next
    case (Handle n m ms)
    let ?w' = "handle E m (clWorld c)"
    have m: "agrees (clWorld c) m" using B(1) [of m n] Handle(2) by simp
    have s: "sound ?w'" using handle_sound [OF c] .
    have "agrees ?w' x \<and> xID x \<in> issued (ext ?w') \<and> xID x \<notin> xID ` set (backlog (ext ?w'))" if "x \<in> set (clBatch c n')" for n' x
      using B [OF that] handle_agrees handle_issued [of "clWorld c" m] by (auto simp: handle_stream(1))
    moreover have "set ms \<subseteq> set (clBatch c n)" using Handle(2) by auto
    ultimately have "consistent d" using s unfolding consistent_iff Handle(1) by (auto split: if_splits)
    moreover have "kept (clWorld c) (clWorld d)"
      using le handle_conserves [OF m c] s by (intro kept_conserves) (simp_all add: Handle(1))
    ultimately show ?thesis by blast
  next
    case (Stop n)
    then show ?thesis using assms(3) by (auto simp: consistent_iff kept_refl)
  qed
qed

lemma cluster_steps_keep:
  assumes "(cluster_step E s pel backlog issued)\<^sup>*\<^sup>* c d" "whole.presigner_keeps s" "consistent c"
  shows "consistent d \<and> kept (clWorld c) (clWorld d)"
  using assms(1)
proof (induction rule: rtranclp_induct)
  case base
  then show ?case using assms(3) by (simp add: kept_refl)
next
  case (step d e)
  then show ?case using cluster_step_keeps [OF step(2) assms(2)] by (blast intro: kept_trans)
qed

section \<open>The fate of an accepted job\<close>

text \<open>The job of a submission that was answered 202 is out of reach of further claims, or queued.\<close>

lemma CreateJob_fate:
  assumes "CreateJob E r w = (resp, w')" "htStatus resp = 202" "\<And>i. uuid_parse E (uuid_string E i) = Some i"
  obtains i status guest f where
    "resp = WriteJSON 202 (JObj ([(''job_id'', JStr (uuid_string E i)), (''status'', JStr status)] @ omit_str ''guest_token'' guest))"
    "job_of (db w) i = None" "status_of (db w') i \<noteq> None" "rfJobID f = uuid_string E i"
    "claimable_in (db w') i \<Longrightarrow> \<exists>m\<in>set (backlog (ext w')). JobRefFromValues (xValues m) = Inr f"
  using assms(1,2)
proof (rule CreateJob_accepted)
  fix q recipientID resolved key guest hash i now w5 status
  let ?f = "FromJob E i (rrMailboxID resolved) (rrSlotID resolved) key (cjBlobRef q)"
  let ?p = "\<lparr>ijSenderID = SenderID E r, ijGuestTokenHash = hash, ijMailboxID = rrMailboxID resolved,
    ijSlotID = rrSlotID resolved, ijEncryptedKey = key, ijBlobRef = cjBlobRef q, ijPageCount = cjPageCount q\<rparr>"
  assume new: "job_of (db w) i = None" "job_of (db w5) i = Some (new_job i now ?p)" "db_le (db w5) (db w')"
    and td: "TryDispatch E ?f w5 = (Inr status, w')"
    and resp: "resp = WriteJSON 202 (JObj ([(''job_id'', JStr (uuid_string E i)), (''status'', JStr status)] @ omit_str ''guest_token'' guest))"
  have id: "rfJobID ?f = uuid_string E i" by (simp add: FromJob_def)
  have "status_of (db w5) i \<noteq> None" using new(2) by (simp add: status_of_def)
  from db_le_status [OF new(3) this] have st: "status_of (db w') i \<noteq> None" .
  have "uuid_parse E (rfJobID ?f) = Some i" using id assms(3) by simp
  from TryDispatch_fate [OF td this]
  have "claimable_in (db w') i \<Longrightarrow> \<exists>m\<in>set (backlog (ext w')). JobRefFromValues (xValues m) = Inr ?f" by blast
  from that [OF resp new(1) st id this] show thesis .
qed

lemma accepted_job_fate:
  assumes "CreateJob E r (clWorld c) = (resp, w1)" "htStatus resp = 202"
    "\<And>i. uuid_parse E (uuid_string E i) = Some i" "consistent c" "whole.presigner_keeps s"
    "(cluster_step E s pel backlog issued)\<^sup>*\<^sup>* (c\<lparr>clWorld := w1\<rparr>) d"
  shows "\<exists>i status guest f.
    resp = WriteJSON 202 (JObj ([(''job_id'', JStr (uuid_string E i)), (''status'', JStr status)] @ omit_str ''guest_token'' guest)) \<and>
    job_of (db (clWorld c)) i = None \<and> status_of (db (clWorld d)) i \<noteq> None \<and> rfJobID f = uuid_string E i \<and>
    (claimable_in (db (clWorld d)) i \<longrightarrow> (\<exists>n v. (n, v) \<in> held (clWorld d) \<and> JobRefFromValues v = Inr f))"
  using assms(1-3)
proof (rule CreateJob_fate)
  fix i status guest f
  assume *: "resp = WriteJSON 202 (JObj ([(''job_id'', JStr (uuid_string E i)), (''status'', JStr status)] @ omit_str ''guest_token'' guest))"
    "job_of (db (clWorld c)) i = None" "status_of (db w1) i \<noteq> None" "rfJobID f = uuid_string E i"
    and q: "claimable_in (db w1) i \<Longrightarrow> \<exists>m\<in>set (backlog (ext w1)). JobRefFromValues (xValues m) = Inr f"
  have s: "sound w1"
    using appended_keeps [OF enqueues_appended [OF CreateJob_enqueues], of "clWorld c" r] assms(1,4) by (simp add: consistent_iff)
  have "consistent (c\<lparr>clWorld := w1\<rparr>)"
    using consistent_world [OF assms(4) s] whole_enqueues [OF whole.CreateJob_enqueues, of "clWorld c" r] assms(1) by simp
  from cluster_steps_keep [OF assms(6,5) this] have k: "kept w1 (clWorld d)" by simp
  then have le: "claims_le (db w1) (db (clWorld d))" by (simp add: kept_def)
  have "\<exists>n v. (n, v) \<in> held (clWorld d) \<and> JobRefFromValues v = Inr f" if c: "claimable_in (db (clWorld d)) i"
  proof -
    have "claimable_in (db w1) i" using le *(3) c by (simp add: claims_le_def)
    from q [OF this] obtain m where m: "m \<in> set (backlog (ext w1))" "JobRefFromValues (xValues m) = Inr f" by blast
    have "(xID m, xValues m) \<in> held w1" by (rule held_backlog [OF m(1)])
    moreover have "uuid_parse E (rfJobID f) = Some i" using *(4) assms(3) by simp
    ultimately have "(xID m, xValues m) \<in> held (clWorld d)" using k s m(2) *(3) c unfolding kept_def by blast
    with m(2) show ?thesis by blast
  qed
  moreover have "status_of (db (clWorld d)) i \<noteq> None" using le *(3) by (simp add: claims_le_def)
  ultimately show ?thesis using * by blast
qed

end

section \<open>The dispatcher's turns are made of these steps\<close>

text \<open>
  A node without a batch takes, with nothing in between, exactly the turns of \<^verbatim>\<open>drain\<close>, \<^verbatim>\<open>reclaim\<close> and
  the loop of \<^verbatim>\<open>Run\<close>; in the cluster, other steps can come between any two of theirs.
\<close>

lemma same_world: "clWorld c = w \<Longrightarrow> c\<lparr>clWorld := w\<rparr> = (c :: 's cluster)"
  by (cases c) simp

lemma batch_path:
  assumes "clBatch c n = ms" "handle_batch E ms (clWorld c) = (b, w')"
  shows "(cluster_step E s pel backlog issued)\<^sup>*\<^sup>* c (c\<lparr>clWorld := w', clBatch := (clBatch c)(n := [])\<rparr>)"
  using assms
proof (induction ms arbitrary: c)
  case Nil
  then have w: "w' = clWorld c" by simp
  have "c\<lparr>clWorld := clWorld c, clBatch := B\<rparr> = c\<lparr>clBatch := B\<rparr>" for B by simp
  then show ?case unfolding w by (metis r_into_rtranclp cluster_step.Stop)
next
  case (Cons m ms)
  let ?c1 = "c\<lparr>clWorld := handle E m (clWorld c), clBatch := (clBatch c)(n := ms)\<rparr>"
  have step: "cluster_step E s pel backlog issued c ?c1" by (rule cluster_step.Handle [OF Cons.prems(1)])
  have rest: "(cluster_step E s pel backlog issued)\<^sup>*\<^sup>* ?c1 (?c1\<lparr>clWorld := w', clBatch := (clBatch ?c1)(n := [])\<rparr>)"
  proof (cases "ctx_err E (ext (handle E m (clWorld c)))")
    case True
    then have "w' = handle E m (clWorld c)" using Cons.prems(2) by (simp add: Let_def)
    then show ?thesis using cluster_step.Stop [of E s pel backlog issued ?c1 n] by simp
  next
    case False
    then show ?thesis using Cons.prems(2) by (intro Cons.IH) (simp_all add: Let_def)
  qed
  have eq: "?c1\<lparr>clWorld := w', clBatch := (clBatch ?c1)(n := [])\<rparr> = c\<lparr>clWorld := w', clBatch := (clBatch c)(n := [])\<rparr>"
    by simp
  from step rest show ?case unfolding eq by (rule converse_rtranclp_into_rtranclp)
qed

lemma fun_upd_same: "f x = y \<Longrightarrow> f(x := y) = f"
  by (rule fun_upd_idem)

lemma drain_batches_path:
  assumes "clBatch c n = []"
  shows "(cluster_step E s pel backlog issued)\<^sup>*\<^sup>* c (c\<lparr>clWorld := drain_batches E n k (clWorld c)\<rparr>)"
  using assms
proof (induction k arbitrary: c)
  case (Suc k)
  obtain r w1 where r: "call (r_xreadgroup E ConsumerGroup n PendingStream 10) (clWorld c) = (r, w1)" by fastforce
  let ?c1 = "c\<lparr>clWorld := w1, clBatch := (clBatch c)(n := read_batch r)\<rparr>"
  have step: "cluster_step E s pel backlog issued c ?c1" by (rule cluster_step.Read [OF Suc.prems r])
  show ?case
  proof (cases "\<exists>ss. r = Inr ss \<and> ss \<noteq> [] \<and> hd ss \<noteq> []")
    case False
    then have "drain_batches E n (Suc k) (clWorld c) = w1" "read_batch r = []"
      using r by (auto simp: read_batch_def split: sum.splits list.splits)
    then show ?thesis using step Suc.prems by (simp add: fun_upd_same)
  next
    case True
    then obtain ss where ss: "r = Inr ss" "ss \<noteq> []" "hd ss \<noteq> []" by blast
    then have rb: "read_batch r = hd ss" by (cases ss) (simp_all add: read_batch_def)
    obtain b w2 where b: "handle_batch E (hd ss) w1 = (b, w2)" by fastforce
    have "(cluster_step E s pel backlog issued)\<^sup>*\<^sup>* ?c1 (?c1\<lparr>clWorld := w2, clBatch := (clBatch ?c1)(n := [])\<rparr>)"
      using rb b by (intro batch_path) simp_all
    with step have path: "(cluster_step E s pel backlog issued)\<^sup>*\<^sup>* c (c\<lparr>clWorld := w2\<rparr>)"
      using Suc.prems by (auto simp: fun_upd_same intro: converse_rtranclp_into_rtranclp)
    show ?thesis
    proof (cases b)
      case True
      then show ?thesis using path r ss b by simp
    next
      case False
      have "(cluster_step E s pel backlog issued)\<^sup>*\<^sup>* (c\<lparr>clWorld := w2\<rparr>)
          (c\<lparr>clWorld := w2, clWorld := drain_batches E n k (clWorld (c\<lparr>clWorld := w2\<rparr>))\<rparr>)"
        using Suc.prems by (intro Suc.IH) simp
      then show ?thesis using path r ss b False by simp
    qed
  qed
qed simp

lemma reclaim_from_path:
  fixes c :: "'s cluster"
  assumes "reclaim_from E n start w = Some w'"
  shows "clWorld c = w \<Longrightarrow> clBatch c n = [] \<Longrightarrow> (cluster_step E s pel backlog issued)\<^sup>*\<^sup>* c (c\<lparr>clWorld := w'\<rparr>)"
proof -
  define P where "P = (\<lambda>E' n' (start :: string) w w'. E' = E \<longrightarrow> n' = n \<longrightarrow>
     (\<forall>c :: 's cluster. clWorld c = w \<longrightarrow> clBatch c n = [] \<longrightarrow> (cluster_step E s pel backlog issued)\<^sup>*\<^sup>* c (c\<lparr>clWorld := w'\<rparr>)))"
  have "P E n start w w'"
  proof (rule reclaim_from.raw_induct [where P = P, OF _ assms], unfold P_def, intro impI allI)
    fix rf :: "'s env \<Rightarrow> string \<Rightarrow> string \<Rightarrow> 's world \<Rightarrow> 's world option" and E' n' start w w' and c :: "'s cluster"
    assume hyp: "\<And>E' n' start w w'. rf E' n' start w = Some w' \<Longrightarrow> E' = E \<longrightarrow> n' = n \<longrightarrow>
        (\<forall>c :: 's cluster. clWorld c = w \<longrightarrow> clBatch c n = [] \<longrightarrow> (cluster_step E s pel backlog issued)\<^sup>*\<^sup>* c (c\<lparr>clWorld := w'\<rparr>))"
      and E: "E' = E" "n' = n" and c: "clWorld c = w" "clBatch c n = []"
      and eq: "(case call (r_xautoclaim E' PendingStream ConsumerGroup n' claimMinIdle start 10) w of
        (Inl _, w1) \<Rightarrow> Some w1
      | (Inr (msgs, nxt), w1) \<Rightarrow>
          (case handle_batch E' msgs w1 of
             (stopped, w2) \<Rightarrow>
               (if stopped then Some w2
                else if nxt = ''0-0'' \<or> msgs = [] then Some w2
                else rf E' n' nxt w2))) = Some w'"
    have IH: "(cluster_step E s pel backlog issued)\<^sup>*\<^sup>* d (d\<lparr>clWorld := w'\<rparr>)"
      if "rf E n start w = Some w'" "clWorld d = w" "clBatch d n = []" for start w w' and d :: "'s cluster"
      using hyp [OF that(1)] that(2,3) by blast
    obtain r w1 where r: "call (r_xautoclaim E PendingStream ConsumerGroup n claimMinIdle start 10) w = (r, w1)" by fastforce
    let ?c1 = "c\<lparr>clWorld := w1, clBatch := (clBatch c)(n := scan_batch r)\<rparr>"
    have step: "cluster_step E s pel backlog issued c ?c1"
      using c r by (intro cluster_step.Scan) simp_all
    show "(cluster_step E s pel backlog issued)\<^sup>*\<^sup>* c (c\<lparr>clWorld := w'\<rparr>)"
    proof (cases r)
      case (Inl e)
      then have "w' = w1" "scan_batch r = []" using eq r E by (simp_all add: scan_batch_def)
      then show ?thesis using step c(2) by (simp add: fun_upd_same)
    next
      case (Inr a)
      obtain ms nxt where a: "a = (ms, nxt)" by fastforce
      obtain b w2 where b: "handle_batch E ms w1 = (b, w2)" by fastforce
      have "(cluster_step E s pel backlog issued)\<^sup>*\<^sup>* ?c1 (?c1\<lparr>clWorld := w2, clBatch := (clBatch ?c1)(n := [])\<rparr>)"
        using Inr a b by (intro batch_path) (simp_all add: scan_batch_def)
      with step have path: "(cluster_step E s pel backlog issued)\<^sup>*\<^sup>* c (c\<lparr>clWorld := w2\<rparr>)"
        using c(2) by (auto simp: fun_upd_same intro: converse_rtranclp_into_rtranclp)
      from eq r E Inr a b have "w' = w2 \<or> rf E n nxt w2 = Some w'" by (auto split: if_splits)
      then show ?thesis
      proof
        assume "rf E n nxt w2 = Some w'"
        from IH [OF this, of "c\<lparr>clWorld := w2\<rparr>"] c(2) path show ?thesis by simp
      qed (use path in simp)
    qed
  qed
  then show "clWorld c = w \<Longrightarrow> clBatch c n = [] \<Longrightarrow> (cluster_step E s pel backlog issued)\<^sup>*\<^sup>* c (c\<lparr>clWorld := w'\<rparr>)"
    by (simp add: P_def)
qed

lemma run_loop_path:
  "run_loop E di evs (clWorld c) = Some w' \<Longrightarrow> clBatch c (NodeID di) = [] \<Longrightarrow>
   (cluster_step E s pel backlog issued)\<^sup>*\<^sup>* c (c\<lparr>clWorld := w'\<rparr>)"
proof (induction evs arbitrary: c)
  case (Cons e evs)
  have d: "(cluster_step E s pel backlog issued)\<^sup>*\<^sup>* c (c\<lparr>clWorld := drain E di (clWorld c)\<rparr>)" if "clBatch c (NodeID di) = []" for c
    using drain_batches_path [OF that, of E s pel backlog issued maxDrainBatches] by (simp add: drain_def)
  show ?case
  proof (cases e)
    case Available
    have "(cluster_step E s pel backlog issued)\<^sup>*\<^sup>* (c\<lparr>clWorld := drain E di (clWorld c)\<rparr>)
        (c\<lparr>clWorld := drain E di (clWorld c), clWorld := w'\<rparr>)"
      using Cons.prems Available by (intro Cons.IH) simp_all
    with d [OF Cons.prems(2)] show ?thesis by simp
  next
    case SweepTick
    with Cons.prems(1) obtain w1 where w1: "reclaim E di (clWorld c) = Some w1"
      "run_loop E di evs (ReapStaleConsumers E di (drain E di w1)) = Some w'"
      by (auto split: option.splits)
    have "(cluster_step E s pel backlog issued)\<^sup>*\<^sup>* c (c\<lparr>clWorld := w1\<rparr>)"
      using reclaim_from_path [OF w1(1) [unfolded reclaim_def]] Cons.prems(2) by simp
    also have "(cluster_step E s pel backlog issued)\<^sup>*\<^sup>* (c\<lparr>clWorld := w1\<rparr>) (c\<lparr>clWorld := drain E di w1\<rparr>)"
      using d [of "c\<lparr>clWorld := w1\<rparr>"] Cons.prems(2) by simp
    also have "cluster_step E s pel backlog issued (c\<lparr>clWorld := drain E di w1\<rparr>) (c\<lparr>clWorld := ReapStaleConsumers E di (drain E di w1)\<rparr>)"
      using cluster_step.Operation [OF node_op.Reap, of E s pel backlog issued "c\<lparr>clWorld := drain E di w1\<rparr>" di] by simp
    also have "(cluster_step E s pel backlog issued)\<^sup>*\<^sup>* (c\<lparr>clWorld := ReapStaleConsumers E di (drain E di w1)\<rparr>)
        (c\<lparr>clWorld := ReapStaleConsumers E di (drain E di w1), clWorld := w'\<rparr>)"
      using w1(2) Cons.prems(2) by (intro Cons.IH) simp_all
    finally show ?thesis by simp
  qed (use Cons.prems in \<open>simp_all add: same_world\<close>)
qed (simp add: same_world)

lemma Run_path:
  assumes "Run E di evs (clWorld c) = Some w'" "clBatch c (NodeID di) = []"
  shows "(cluster_step E s pel backlog issued)\<^sup>*\<^sup>* c (c\<lparr>clWorld := w'\<rparr>)"
proof -
  have "(cluster_step E s pel backlog issued)\<^sup>*\<^sup>* c (c\<lparr>clWorld := drain E di (clWorld c)\<rparr>)"
    using drain_batches_path [OF assms(2), of E s pel backlog issued maxDrainBatches] by (simp add: drain_def)
  also have "(cluster_step E s pel backlog issued)\<^sup>*\<^sup>* (c\<lparr>clWorld := drain E di (clWorld c)\<rparr>)
      (c\<lparr>clWorld := drain E di (clWorld c), clWorld := w'\<rparr>)"
    using assms by (intro run_loop_path) (simp_all add: Run_def)
  finally show ?thesis by simp
qed

end
