(* ===== verification/Queue_Properties.thy ===== *)
theory Queue_Properties
  imports Demo Cluster
begin

text \<open>
  The properties of the queue: no job on it is lost, the dispatcher's loop returns and
  dispatches what can go out, what a drain and the removal of consumers leave alone, the race of two
  nodes at one entry, and the shutdown.
\<close>

section \<open>The guarantees of the stream, written out\<close>

context stream_service
begin

lemma sound_plain:
  "distinct (map xID (backlog (ext w))) \<Longrightarrow> \<forall>m\<in>set (backlog (ext w)). pel (ext w) (xID m) = None \<Longrightarrow> sound w"
  by (simp add: sound_def)

lemma Run_keeps_open:
  assumes "Run E di evs w = Some w'"
    "distinct (map xID (backlog (ext w)))" "\<forall>m\<in>set (backlog (ext w)). pel (ext w) (xID m) = None"
    "pel (ext w) i = Some (c, v) \<or> \<lparr>xID = i, xValues = v\<rparr> \<in> set (backlog (ext w))"
    "JobRefFromValues v = Inr f" "uuid_parse E (rfJobID f) = Some j" "claimable_in (db w') j"
  shows "(\<exists>c'. pel (ext w') i = Some (c', v)) \<or> \<lparr>xID = i, xValues = v\<rparr> \<in> set (backlog (ext w'))"
proof -
  have "(i, v) \<in> held w" using assms(4) by (auto simp: held_def)
  moreover have "open_values E (db w') v" using assms(5-7) by (simp add: open_values_def)
  ultimately have "(i, v) \<in> held w'"
    using Run_conserves [OF assms(1) sound_plain [OF assms(2,3)]] by (auto simp: conserves_def)
  then show ?thesis by (simp add: held_def)
qed

lemma drain_bounds:
  assumes "distinct (map xID (backlog (ext w)))" "\<forall>m\<in>set (backlog (ext w)). pel (ext w) (xID m) = None"
  shows "(\<exists>k\<le>200. backlog (ext (drain E di w)) = drop k (backlog (ext w))) \<and>
    (\<forall>i. pel (ext w) i \<noteq> None \<longrightarrow> pel (ext (drain E di w)) i = pel (ext w) i)"
  using drain_facts [OF sound_plain [OF assms]] by blast

lemma drain_nothing_new:
  assumes "backlog (ext w) = []"
  shows "db (drain E di w) = db w \<and> (pel (ext w) i \<noteq> None \<longrightarrow> pel (ext (drain E di w)) i = pel (ext w) i)"
proof -
  have "sound w" using assms by (simp add: sound_def)
  from drain_facts(4) [OF this, of i] drain_empty [OF assms] show ?thesis by blast
qed

end


section \<open>Nothing is lost\<close>

text \<open>The world after a submission that found no printer: one entry on the stream.\<close>

definition demo_queued :: "ref_state world" where
  "demo_queued = snd (TryDispatch ref_env demo_ref demo_offline)"

lemma demo_queued_stream:
  "rfBacklog (ext demo_queued) = [\<lparr>xID = ''1'', xValues = toXAddValues demo_ref\<rparr>]"
  "rfPending (ext demo_queued) = []"
  by code_simp+

definition demo_drained :: "ref_state world" where
  "demo_drained = drain ref_env demo_dispatcher demo_queued"

lemma demo_run: "Run ref_env demo_dispatcher [] demo_queued = Some demo_drained"
  by (simp add: Run_def demo_drained_def)

lemma demo_drained_facts: "claimable_in (db demo_drained) 10" "rfBacklog (ext demo_drained) = []"
  by code_simp+

lemma demo_parse10: "uuid_parse ref_env (rfJobID demo_ref) = Some 10"
  by code_simp










text \<open>
  C4: The dispatcher's loop returns: every turn of it ends, also one that reclaims, because the
  cursor Redis hands back moves past the entries it has scanned.
\<close>

theorem Run_returns:
  assumes "stream_cursor E pel backlog ahead"
    "distinct (map xID (backlog (ext w)))" "\<forall>m\<in>set (backlog (ext w)). pel (ext w) (xID m) = None"
  shows "\<exists>w'. Run E di evs w = Some w'"
  by (rule stream_cursor.Run_ends [OF assms(1)])
     (rule stream_service.sound_plain [OF stream_cursor.axioms(1) [OF assms(1)] assms(2,3)])

lemma Run_returns_witness:
  "\<exists>w'. Run ref_env demo_dispatcher [SweepTick, Available, SweepTick] demo_queued = Some w'"
  using Run_returns [OF ref_cursor.stream_cursor_axioms, of demo_queued]
  by (simp add: demo_queued_stream ref_pel_def)

text \<open>
  C6: While the services answer, the dispatcher dispatches whatever can go out. An availability event
  or a sweep returns; each of the first two hundred new entries, and at a sweep (of at most a hundred
  pending entries) each that has been idle for a minute, whose printer is idle with room and whose
  socket some node holds, leaves its job dispatching if it could be claimed (and untouched
  otherwise), and is acknowledged.
\<close>

theorem turn_dispatches_ready:
  assumes "calm_scan E pel backlog up listeners due" "stream_cursor E pel backlog ahead" "up (ext w)"
    "distinct (map xID (backlog (ext w)))" "\<forall>m\<in>set (backlog (ext w)). pel (ext w) (xID m) = None"
    "ev = Available \<and> m \<in> set (take 200 (backlog (ext w))) \<or>
     ev = SweepTick \<and> finite (dom (pel (ext w))) \<and> card (dom (pel (ext w))) \<le> 100 \<and>
       (m \<in> set (take 200 (backlog (ext w))) \<or>
        (\<exists>c. pel (ext w) (xID m) = Some (c, xValues m)) \<and> xID m \<in> due (ext w) ''0-0'')"
    "JobRefFromValues (xValues m) = Inr f" "uuid_parse E (rfJobID f) = Some i"
    "fst (eligible E (rfMailboxID f) (rfSlotID f) w)" "listeners (ext w) (ChanDispatch (rfMailboxID f)) \<noteq> 0"
  shows "\<exists>w'. run_loop E di [ev] w = Some w' \<and> pel (ext w') (xID m) = None \<and>
    status_of (db w') i = (if claimable_in (db w) i then Some dispatching else status_of (db w) i)"
  by (rule calm_scan.turn_ready [OF assms])

text \<open>The queued job, pending for a minute when its printer is there again.\<close>

definition demo_due :: "ref_state world" where
  "demo_due = demo_drained\<lparr>ext := (ext demo_drained)\<lparr>rfKeys := rfKeys demo_ext, rfSubs := rfSubs demo_ext, rfClock := claimMinIdle\<rparr>\<rparr>"

definition demo_entry :: xmessage where
  "demo_entry = \<lparr>xID = ''1'', xValues = toXAddValues demo_ref\<rparr>"

lemma demo_due_facts:
  "rfBacklog (ext demo_due) = []" "ref_pel (ext demo_due) ''1'' = Some (''node-1'', toXAddValues demo_ref)"
  "length (rfPending (ext demo_due)) = 1" "''1'' \<in> ref_due (ext demo_due) ''0-0''"
  "fst (eligible ref_env (rfMailboxID demo_ref) (rfSlotID demo_ref) demo_due)"
  "count_list (rfSubs (ext demo_due)) (ChanDispatch (rfMailboxID demo_ref)) \<noteq> 0" "claimable_in (db demo_due) 10"
  by code_simp+

lemma turn_dispatches_ready_witness:
  "\<exists>w'. run_loop ref_env demo_dispatcher [SweepTick] demo_due = Some w' \<and> status_of (db w') 10 = Some dispatching"
proof -
  have d: "dom (ref_pel (ext demo_due)) = peID ` set (rfPending (ext demo_due))" by (rule ref_pel_dom)
  have "card (dom (ref_pel (ext demo_due))) \<le> length (rfPending (ext demo_due))"
    unfolding d by (rule order_trans [OF card_image_le card_length]) simp
  then have small: "finite (dom (ref_pel (ext demo_due)))" "card (dom (ref_pel (ext demo_due))) \<le> 100"
    using d demo_due_facts(3) by simp_all
  have p: "ref_pel (ext demo_due) (xID demo_entry) = Some (''node-1'', xValues demo_entry)"
    "xID demo_entry \<in> ref_due (ext demo_due) ''0-0''" "JobRefFromValues (xValues demo_entry) = Inr demo_ref"
    by (simp_all add: demo_entry_def demo_due_facts)
  from turn_dispatches_ready [OF ref_scan.calm_scan_axioms ref_cursor.stream_cursor_axioms TrueI,
      of demo_due SweepTick demo_entry demo_ref 10 demo_dispatcher]
  show ?thesis using small p demo_due_facts demo_parse10 by auto
qed

text \<open>
  Under any failures, an entry that is on the stream or pending for any consumer, and whose job can
  still be claimed after any number of events of one dispatcher's loop, is then still there.
\<close>

lemma no_work_lost:
  assumes "stream_service E pel backlog" "Run E di evs w = Some w'"
    "distinct (map xID (backlog (ext w)))" "\<forall>m\<in>set (backlog (ext w)). pel (ext w) (xID m) = None"
    "pel (ext w) i = Some (c, v) \<or> \<lparr>xID = i, xValues = v\<rparr> \<in> set (backlog (ext w))"
    "JobRefFromValues v = Inr f" "uuid_parse E (rfJobID f) = Some j" "claimable_in (db w') j"
  shows "(\<exists>c'. pel (ext w') i = Some (c', v)) \<or> \<lparr>xID = i, xValues = v\<rparr> \<in> set (backlog (ext w'))"
  by (rule stream_service.Run_keeps_open [OF assms])

lemma no_work_lost_witness:
  "\<exists>c. ref_pel (ext demo_drained) ''1'' = Some (c, toXAddValues demo_ref)"
  using no_work_lost [OF ref_stream.stream_service_axioms demo_run, of "''1''" _ "toXAddValues demo_ref" demo_ref 10]
  by (simp add: demo_queued_stream demo_drained_facts demo_parse10 ref_pel_def)

section \<open>Drains and consumers\<close>

text \<open>
  One drain reads at most two hundred entries off the stream, in order, and leaves every
  entry that was pending before it exactly as it was.
\<close>

lemma drain_is_bounded:
  assumes "stream_service E pel backlog"
    "distinct (map xID (backlog (ext w)))" "\<forall>m\<in>set (backlog (ext w)). pel (ext w) (xID m) = None"
  shows "(\<exists>k\<le>200. backlog (ext (drain E di w)) = drop k (backlog (ext w))) \<and>
    (\<forall>i. pel (ext w) i \<noteq> None \<longrightarrow> pel (ext (drain E di w)) i = pel (ext w) i)"
  by (rule stream_service.drain_bounds [OF assms])

lemma drain_is_bounded_witness: "\<exists>k\<le>200. rfBacklog (ext demo_drained) = drop k (rfBacklog (ext demo_queued))"
  using drain_is_bounded [OF ref_stream.stream_service_axioms, of demo_queued demo_dispatcher]
  by (simp add: demo_queued_stream ref_pel_def demo_drained_def)

text \<open>The printer of the queued job comes back: it is idle and has room.\<close>

definition demo_back :: "ref_state world" where
  "demo_back = demo_drained\<lparr>ext := (ext demo_drained)\<lparr>rfKeys := rfKeys demo_ext, rfSubs := rfSubs demo_ext\<rparr>\<rparr>"

lemma demo_back_facts:
  "fst (eligible ref_env (rfMailboxID demo_ref) (rfSlotID demo_ref) demo_back)"
  "claimable_in (db demo_back) 10" "rfBacklog (ext demo_back) = []"
  "ref_pel (ext demo_back) ''1'' = Some (''node-1'', toXAddValues demo_ref)"
  by code_simp+

text \<open>
  With nothing new on the stream, the drain that answers a printer's availability event attempts no
  dispatch: pending entries stay pending and the database as it is, however long a printer has been
  idle. Only the periodic sweep retries them.
\<close>

lemma drain_skips_pending_entries:
  assumes "stream_service E pel backlog" "backlog (ext w) = []"
  shows "db (drain E di w) = db w \<and> (pel (ext w) i \<noteq> None \<longrightarrow> pel (ext (drain E di w)) i = pel (ext w) i)"
  by (rule stream_service.drain_nothing_new [OF assms])

lemma drain_skips_pending_entries_witness:
  "fst (eligible ref_env (rfMailboxID demo_ref) (rfSlotID demo_ref) demo_back) \<and> claimable_in (db demo_back) 10 \<and>
   ref_pel (ext demo_back) ''1'' = Some (''node-1'', toXAddValues demo_ref) \<and>
   db (drain ref_env demo_dispatcher demo_back) = db demo_back \<and>
   ref_pel (ext (drain ref_env demo_dispatcher demo_back)) ''1'' = Some (''node-1'', toXAddValues demo_ref)"
  using drain_skips_pending_entries [OF ref_stream.stream_service_axioms demo_back_facts(3), of demo_dispatcher "''1''"]
    demo_back_facts by (simp del: split_paired_Ex not_None_eq)

text \<open>
  Removing this node's consumer and reaping those of dead nodes never discards an entry: the pending
  entries, the stream and the database are as before.
\<close>

lemma consumer_removal_keeps_entries:
  assumes "stream_service E pel backlog" "w' = snd (RemoveConsumer E di w) \<or> w' = ReapStaleConsumers E di w"
  shows "pel (ext w') = pel (ext w) \<and> backlog (ext w') = backlog (ext w) \<and> db w' = db w"
  using assms(2)
proof
  assume "w' = snd (RemoveConsumer E di w)"
  then show ?thesis
    using stream_service.RemoveConsumer_keeps [OF assms(1), of di w "fst (RemoveConsumer E di w)" w'] by simp
next
  assume "w' = ReapStaleConsumers E di w"
  then show ?thesis using stream_service.ReapStaleConsumers_keeps [OF assms(1), of di w] by simp
qed

lemma consumer_removal_keeps_entries_witness:
  "ref_pel (ext (snd (RemoveConsumer ref_env demo_dispatcher demo_back))) ''1'' = Some (''node-1'', toXAddValues demo_ref)"
  using consumer_removal_keeps_entries [OF ref_stream.stream_service_axioms, of
      "snd (RemoveConsumer ref_env demo_dispatcher demo_back)" demo_dispatcher demo_back]
    demo_back_facts(4) by simp

section \<open>Two nodes at one entry\<close>






text \<open>A reclaim ends at the first page of XAUTOCLAIM that holds no idle entry, wherever its cursor is.\<close>

lemma reclaim_stops_at_empty_page:
  "call (r_xautoclaim E PendingStream ConsumerGroup (NodeID di) claimMinIdle ''0-0'' 10) w = (Inr ([], nxt), w1) \<Longrightarrow>
   reclaim E di w = Some w1"
  unfolding reclaim_def by (subst reclaim_from.simps) simp

section \<open>Shutdown\<close>





end
