(* ===== verification/Link_Properties.thy ===== *)
theory Link_Properties
  imports Demo
begin

text \<open>
  The properties of the printer link: what travels over it unchanged, what a frame does on the
  cloud side, which socket the registry names, and how long a reported state counts.
\<close>

section \<open>What travels\<close>

text \<open>
  C35: The wrapped document key a sender submitted is, byte for byte, what the printer decodes from
  the dispatch frame, also when the job went through the queue in between; so are the job's id and
  the blob's URL.
\<close>

theorem key_reaches_printer:
  "\<exists>g pf. JobRefFromValues (toXAddValues (FromJob E jobID mailboxID slotID key blobRef)) = Inr g \<and>
     pframe_read (dispatch_frame g url) = Some pf \<and> pType pf = ''dispatch'' \<and>
     pJobID pf = uuid_string E jobID \<and> StdDecode (pEncryptedKey pf) = Some key \<and> pBlobURL pf = url"
  by (simp add: FromJob_def dispatch_frame_def pframe_read_dispatchPayload pframe0_def)

text \<open>
  A state frame as the printer writes it is read by the hub, handed to \<^verbatim>\<open>onState\<close>, and what
  that stores in the cache reads back as the printer's own status and slot counts.
\<close>

lemma printer_state_reaches_cache:
  assumes "slots_ok sl"
  shows "\<exists>f. readLoop E h m [Some (pframe_json (state_frame st sl))] w = Some (onState E h m f w) \<and>
    state_read (state_json \<lparr>psStatus = fStatus f, psSlotOccupancy = toStoreSlots (fSlotOccupancy f)\<rparr>) =
      Some \<lparr>psStatus = st, psSlotOccupancy = sl\<rparr>"
  using assms by (intro exI [of _ "cloud_view (state_frame st sl)"])
    (simp add: frame_read_pframe_json state_frame_def pframe0_def cloud_view_def state_read_json)

lemma printer_state_reaches_cache_witness:
  "\<exists>f. readLoop ref_env (main_hub ref_env) ''m''
      [Some (pframe_json (state_frame ''idle'' [(''s'', \<lparr>Current = 2, Max = 5\<rparr>)]))] demo_world =
        Some (onState ref_env (main_hub ref_env) ''m'' f demo_world)"
  using printer_state_reaches_cache [of "[(''s'', \<lparr>Current = 2, Max = 5\<rparr>)]" ref_env "main_hub ref_env" "''m''" "''idle''" demo_world]
  by (auto simp: slots_ok_def canonical_def slot_ok_def in_int64_def)

section \<open>Status frames\<close>

context publish_history
begin

lemma RemoveBlob_hist: "\<forall>del\<in>set_option (DeleteBlob (main_hub E)). \<forall>b w. hist (ext (snd (del b w))) = hist (ext w)"
  by (simp add: main_hub_def)

lemma main_onStatus:
  assumes "uuid_parse E (fJobID f) = Some i"
  shows "\<exists>w'. onStatus E (main_hub E) f w = Some w' \<and> (\<forall>k. k \<noteq> i \<longrightarrow> job_of (db w') k = job_of (db w) k) \<and>
    (case fst (qUpdateJobStatus E i (fStatus f) w) of
       Inl _ \<Rightarrow> hist (ext w') = hist (ext w)
     | Inr _ \<Rightarrow> status_of (db w') i = Some (fStatus f) \<and>
         hist (ext w') = hist (ext w) @ [(ChanJobStatus (uuid_string E i), jsonStatusPayload f)])"
proof -
  obtain w' where w': "onStatus E (main_hub E) f w = Some w'" using onStatus_Some [OF main_hub_ok] by blast
  have "hubQueries (main_hub E)" by (simp add: main_hub_def)
  note h = onStatus_hist [OF this RemoveBlob_hist assms w']
  show ?thesis
  proof (cases "fst (qUpdateJobStatus E i (fStatus f) w)")
    case (Inl e)
    then show ?thesis using w' h onStatus_jobs(1) [OF main_hub_ok w' assms] by simp
  next
    case (Inr row)
    then obtain w1 where "qUpdateJobStatus E i (fStatus f) w = (Inr row, w1)" by (metis prod.collapse)
    from onStatus_applied(1) [OF main_hub_ok assms this w'] show ?thesis
      using w' h Inr onStatus_jobs(1) [OF main_hub_ok w' assms] by simp
  qed
qed

end

definition demo_status :: "string \<Rightarrow> frame" where
  "demo_status st = frame0\<lparr>fType := ''status'', fJobID := ref_uuid_string 10, fStatus := st\<rparr>"

lemma demo_status_parse: "uuid_parse ref_env (fJobID (demo_status st)) = Some 10"
proof -
  have "uuid_parse ref_env (ref_uuid_string 10) = Some 10" by code_simp
  then show ?thesis by (simp add: demo_status_def)
qed

text \<open>
  C15: A status frame for a job never makes the hub panic and touches no other job. When the update
  of the row succeeds, the row has the reported status and the change is published on the job's
  channel exactly once; when it fails, nothing is published.
\<close>

theorem status_frame_effect:
  assumes "publish_history E hist" "uuid_parse E (fJobID f) = Some i"
  shows "\<exists>w'. onStatus E (main_hub E) f w = Some w' \<and> (\<forall>k. k \<noteq> i \<longrightarrow> job_of (db w') k = job_of (db w) k) \<and>
    (case fst (qUpdateJobStatus E i (fStatus f) w) of
       Inl _ \<Rightarrow> hist (ext w') = hist (ext w)
     | Inr _ \<Rightarrow> status_of (db w') i = Some (fStatus f) \<and>
         hist (ext w') = hist (ext w) @ [(ChanJobStatus (uuid_string E i), jsonStatusPayload f)])"
  by (rule publish_history.main_onStatus [OF assms])

lemma demo_update_ok: "\<exists>row. fst (qUpdateJobStatus ref_env 10 ''printing'' demo_world) = Inr row"
proof -
  have "isl (fst (qUpdateJobStatus ref_env 10 ''printing'' demo_world)) = False" by code_simp
  then show ?thesis by (cases "fst (qUpdateJobStatus ref_env 10 ''printing'' demo_world)") simp_all
qed

lemma status_frame_effect_witness:
  "\<exists>w'. onStatus ref_env (main_hub ref_env) (demo_status ''printing'') demo_world = Some w' \<and>
     status_of (db w') 10 = Some ''printing''"
  using status_frame_effect [OF ref_publish.publish_history_axioms demo_status_parse, of "''printing''" demo_world]
    demo_update_ok by (auto simp: demo_status_def)

text \<open>
  C16: Handling a status frame deletes no object but the job's own blob, and that one only on the
  status delivered: whatever the deletion would do on other objects or for other statuses makes
  no difference.
\<close>

theorem only_delivered_blobs_deleted:
  assumes "uuid_parse E (fJobID f) = Some i"
    "fStatus f = ''delivered'' \<longrightarrow> (\<forall>j. job_of (db w) i = Some j \<longrightarrow> RemoveBlob E (jBlobRef j) = del' (jBlobRef j))"
  shows "onStatus E (main_hub E) f w = onStatus E ((main_hub E)\<lparr>DeleteBlob := Some del'\<rparr>) f w"
  using assms by (intro onStatus_blob_use [OF main_hub_ok, where del = "RemoveBlob E"]) (simp_all add: main_hub_def)

lemma only_delivered_blobs_deleted_witness:
  "onStatus ref_env (main_hub ref_env) (demo_status ''printing'') demo_world =
   onStatus ref_env ((main_hub ref_env)\<lparr>DeleteBlob := Some (\<lambda>_ w. (Inr (), w\<lparr>ext := ref0\<rparr>))\<rparr>) (demo_status ''printing'') demo_world"
  by (rule only_delivered_blobs_deleted [OF demo_status_parse]) (simp add: demo_status_def)

section \<open>The registry\<close>

text \<open>
  C17: Whatever the order in which printers connect and their old sockets are torn down, a node's
  registry names, for each mailbox, the socket that registered last, exactly as long as it is open.
\<close>

theorem registry_names_latest_socket:
  assumes "(node_step E h)\<^sup>*\<^sup>* node0 n"
  shows "map_of (nRegistry n) m =
    (case nLatest n m of None \<Rightarrow> None | Some c \<Rightarrow> if (m, c) \<in> nOpen n then Some c else None)"
  using registry_ok_reach [OF assms] by (simp add: registry_ok_def)

definition demo_register :: wire where
  "demo_register = Some (pframe_json (pframe0\<lparr>pType := ''register'', pMailboxID := ''m''\<rparr>))"

lemma demo_accept:
  "accept_begin ref_env (main_hub ref_env) c demo_register r w =
     (Established ''m'', Registry_Add ''m'' c r, snd (snd (accept_begin ref_env (main_hub ref_env) c demo_register r w)))"
proof -
  have f: "frame_read (pframe_json (pframe0\<lparr>pType := ''register'', pMailboxID := ''m''\<rparr>)) =
      Some (frame0\<lparr>fType := ''register'', fMailboxID := ''m''\<rparr>)"
    by (simp add: frame_read_pframe_json slots_ok_def canonical_def pframe0_def cloud_view_def frame0_def)
  show ?thesis
    by (simp add: accept_begin_def demo_register_def f frame0_def call_def ref_env_def Let_def)
qed

definition demo_node :: node where
  "demo_node = \<lparr>nRegistry = accept_end 1 ''m'' (Registry_Add ''m'' 2 (Registry_Add ''m'' 1 [])),
     nOpen = {(''m'', 2)}, nLatest = [''m'' \<mapsto> 2]\<rparr>"

lemma demo_node_reach: "(node_step ref_env (main_hub ref_env))\<^sup>*\<^sup>* node0 demo_node"
proof -
  let ?n1 = "\<lparr>nRegistry = Registry_Add ''m'' 1 [], nOpen = {(''m'', 1)}, nLatest = [''m'' \<mapsto> 1]\<rparr>"
  let ?n2 = "\<lparr>nRegistry = Registry_Add ''m'' 2 (Registry_Add ''m'' 1 []), nOpen = {(''m'', 2), (''m'', 1)}, nLatest = [''m'' \<mapsto> 2]\<rparr>"
  have 1: "node_step ref_env (main_hub ref_env) node0 ?n1"
    using node_step.Connect [of 1 node0 ref_env "main_hub ref_env" demo_register demo_world "''m''"]
      demo_accept [of 1 "[]" demo_world] by (simp add: node0_def)
  have 2: "node_step ref_env (main_hub ref_env) ?n1 ?n2"
    using node_step.Connect [of 2 ?n1 ref_env "main_hub ref_env" demo_register demo_world "''m''"]
      demo_accept [of 2 "Registry_Add ''m'' 1 []" demo_world] by simp
  have 3: "node_step ref_env (main_hub ref_env) ?n2 demo_node"
    using node_step.Disconnect [of "''m''" 1 ?n2 ref_env "main_hub ref_env"] by (simp add: demo_node_def insert_Diff_if)
  from 1 2 3 show ?thesis by (meson rtranclp.rtrancl_into_rtrancl rtranclp.rtrancl_refl)
qed

lemma registry_names_latest_socket_witness: "map_of (nRegistry demo_node) ''m'' = Some 2"
  using registry_names_latest_socket [OF demo_node_reach, of "''m''"] by (simp add: demo_node_def)

section \<open>The state cache\<close>

context kv_service
begin

lemma stale_not_eligible:
  assumes "SetPrinterState E m st w = (Inr (), w1)" "slots_ok (psSlotOccupancy st)"
    "entry (ext w2) (KeyPrinterState m) = entry (ext w1) (KeyPrinterState m)"
    "rclock (ext w1) + printerStateTTL \<le> rclock (ext w2)"
  shows "\<not> fst (eligible E m sl w2)"
proof -
  obtain r w3 where l: "LookupPrinterState E m w2 = (r, w3)" by fastforce
  have "r \<noteq> Inr (Some p)" for p
    using lookup_set [OF assms(1-3), of _ w3] l assms(4) by (cases r) auto
  then show ?thesis
    by (cases r; cases "projr r") (auto simp: eligible_def GetPrinterState_def l)
qed

lemma fresh_eligible:
  assumes "SetPrinterState E m st w = (Inr (), w1)" "slots_ok (psSlotOccupancy st)"
    "entry (ext w2) (KeyPrinterState m) = entry (ext w1) (KeyPrinterState m)"
    "LookupPrinterState E m w2 = (Inr r, w3)" "rclock (ext w3) < rclock (ext w) + printerStateTTL"
  shows "fst (eligible E m sl w2) \<longleftrightarrow> psStatus st = ''idle'' \<and>
    (\<exists>slot. map_of (psSlotOccupancy st) sl = Some slot \<and> Current slot < Max slot)"
proof -
  have "r = Some st" using lookup_set [OF assms(1-4)] assms(5) by blast
  then show ?thesis using assms(4)
    by (auto simp: eligible_iff GetPrinterState_def)
qed

end

text \<open>
  C24: For ninety seconds after a printer reported its state, as long as no newer report comes in,
  dispatch decides by exactly that report: idle, and room in the slot. From ninety seconds on the
  printer counts as offline and nothing is dispatched to it.
\<close>

theorem printer_state_counts_ninety_seconds:
  assumes "kv_service E entry rclock" "SetPrinterState E m st w = (Inr (), w1)" "slots_ok (psSlotOccupancy st)"
    "entry (ext w2) (KeyPrinterState m) = entry (ext w1) (KeyPrinterState m)"
  shows "(\<forall>r w3. LookupPrinterState E m w2 = (Inr r, w3) \<and> rclock (ext w3) < rclock (ext w) + 90 * Second \<longrightarrow>
      (fst (eligible E m sl w2) \<longleftrightarrow> psStatus st = ''idle'' \<and>
        (\<exists>slot. map_of (psSlotOccupancy st) sl = Some slot \<and> Current slot < Max slot))) \<and>
    (rclock (ext w1) + 90 * Second \<le> rclock (ext w2) \<longrightarrow> \<not> fst (eligible E m sl w2))"
  using kv_service.fresh_eligible [OF assms] kv_service.stale_not_eligible [OF assms]
  by (auto simp: printerStateTTL_def)

definition demo_later :: "int \<Rightarrow> ref_state world" where
  "demo_later t = (let w1 = snd (SetPrinterState ref_env (ref_uuid_string 2) demo_state demo_offline)
                   in w1\<lparr>ext := (ext w1)\<lparr>rfClock := t\<rparr>\<rparr>)"

lemma demo_set: "fst (SetPrinterState ref_env (ref_uuid_string 2) demo_state demo_offline) = Inr ()"
  by code_simp

lemma printer_state_counts_ninety_seconds_witness:
  "\<not> fst (eligible ref_env (ref_uuid_string 2) (ref_uuid_string 3) (demo_later (90 * Second)))"
proof -
  let ?w1 = "snd (SetPrinterState ref_env (ref_uuid_string 2) demo_state demo_offline)"
  have s: "SetPrinterState ref_env (ref_uuid_string 2) demo_state demo_offline = (Inr (), ?w1)"
    using demo_set by (metis prod.collapse)
  have "slots_ok (psSlotOccupancy demo_state)"
    by (simp add: demo_state_def slots_ok_def canonical_def slot_ok_def in_int64_def)
  moreover have "ref_entry (ext (demo_later t)) k = ref_entry (ext ?w1) k" for t k
    by (simp add: demo_later_def Let_def ref_entry_def)
  moreover have "rfClock (ext ?w1) = 0" by code_simp
  ultimately show ?thesis
    using printer_state_counts_ninety_seconds [OF ref_kv.kv_service_axioms s, of "demo_later (90 * Second)"]
    by (simp add: demo_later_def Let_def)
qed

end
