(* ===== verification/Serve_Mux.thy ===== *)
theory Serve_Mux
  imports Prelude
begin

text \<open>
  The routing of requests by method and path: \<^verbatim>\<open>http.ServeMux\<close> as far as the patterns of the two
  services use it. A path is the list of the segments of the cleaned path, as the mux's own tree has
  them: decoded, and with a segment \<open>/\<close> at the end for a trailing slash.
\<close>

section \<open>Patterns\<close>

datatype seg = Lit string | Wild

type_synonym 'h routes = "(string \<times> seg list \<times> 'h) list"

text \<open>The value of the last wildcard (no pattern has two), or nothing for a mismatch.\<close>

fun path_match :: "seg list \<Rightarrow> string list \<Rightarrow> string \<Rightarrow> string option" where
  "path_match [] [] v = Some v"
| "path_match (Lit l # ps) (s # ss) v = (if s = l then path_match ps ss v else None)"
| "path_match (Wild # ps) (s # ss) v = (if s = ''/'' then None else path_match ps ss s)"
| "path_match _ _ v = None"

text \<open>A pattern for GET also takes HEAD; one without a method takes all.\<close>

definition method_match :: "string \<Rightarrow> string \<Rightarrow> bool" where
  "method_match pm m \<longleftrightarrow> pm = [] \<or> pm = m \<or> (pm = ''GET'' \<and> m = ''HEAD'')"

datatype 'h routed = Routed 'h string | NotAllowed "string list" | NoRoute

fun lookup_route :: "'h routes \<Rightarrow> string \<Rightarrow> string list \<Rightarrow> ('h \<times> string) option" where
  "lookup_route [] m path = None"
| "lookup_route ((pm, ps, h) # rs) m path =
     (case (if method_match pm m then path_match ps path [] else None) of
        Some v \<Rightarrow> Some (h, v) | None \<Rightarrow> lookup_route rs m path)"

definition route :: "'h routes \<Rightarrow> string \<Rightarrow> string list \<Rightarrow> 'h routed" where
  "route rs m path =
     (case lookup_route rs m path of
        Some (h, v) \<Rightarrow> Routed h v
      | None \<Rightarrow>
          (let allowed = filter (\<lambda>k. lookup_route rs k path \<noteq> None) [''GET'', ''HEAD'', ''POST'']
           in if allowed = [] then NoRoute else NotAllowed allowed))"

lemma lookup_route_SomeD:
  "lookup_route rs m path = Some (h, v) \<Longrightarrow>
     \<exists>pm ps. (pm, ps, h) \<in> set rs \<and> method_match pm m \<and> path_match ps path [] = Some v"
proof (induction rs)
  case (Cons a rs)
  obtain pm ps k where a: "a = (pm, ps, k)" by (cases a)
  show ?case
  proof (cases "method_match pm m \<and> path_match ps path [] \<noteq> None")
    case True
    then show ?thesis using Cons(2) a by (intro exI [of _ pm] exI [of _ ps]) auto
  next
    case False
    then have "lookup_route rs m path = Some (h, v)" using Cons(2) a by (auto split: if_splits)
    from Cons(1) [OF this] show ?thesis by auto
  qed
qed simp

text \<open>
  Whether two patterns can take the same path. Where no two routes can take the same request, the
  order of the table does not matter, as it does not for the mux.
\<close>

fun overlap :: "seg list \<Rightarrow> seg list \<Rightarrow> bool" where
  "overlap [] [] = True"
| "overlap (Lit a # ps) (Lit b # qs) = (a = b \<and> overlap ps qs)"
| "overlap (Wild # ps) (Lit b # qs) = (b \<noteq> ''/'' \<and> overlap ps qs)"
| "overlap (Lit a # ps) (Wild # qs) = (a \<noteq> ''/'' \<and> overlap ps qs)"
| "overlap (Wild # ps) (Wild # qs) = overlap ps qs"
| "overlap _ _ = False"

lemma path_match_overlap:
  "path_match ps path v = Some x \<Longrightarrow> path_match qs path u = Some y \<Longrightarrow> overlap ps qs"
proof (induction ps path v arbitrary: qs u rule: path_match.induct)
  case (2 l ps s ss v)
  then show ?case by (cases "(qs, s # ss, u)" rule: path_match.cases) (auto split: if_splits)
next
  case (3 ps s ss v)
  then show ?case by (cases "(qs, s # ss, u)" rule: path_match.cases) (auto split: if_splits)
next
  case (1 v)
  then show ?case by (cases "(qs, [] :: string list, u)" rule: path_match.cases) auto
qed simp_all

definition methods_overlap :: "string \<Rightarrow> string \<Rightarrow> bool" where
  "methods_overlap a b \<longleftrightarrow> a = [] \<or> b = [] \<or> a = b \<or> (a = ''GET'' \<and> b = ''HEAD'') \<or> (a = ''HEAD'' \<and> b = ''GET'')"

lemma methods_overlapI: "method_match a m \<Longrightarrow> method_match b m \<Longrightarrow> methods_overlap a b"
  by (auto simp: method_match_def methods_overlap_def)

fun unambiguous :: "'h routes \<Rightarrow> bool" where
  "unambiguous [] = True"
| "unambiguous ((pm, ps, h) # rs) =
     (list_all (\<lambda>(qm, qs, _). \<not> (methods_overlap pm qm \<and> overlap ps qs)) rs \<and> unambiguous rs)"

lemma unambiguous_lookup:
  "unambiguous rs \<Longrightarrow> (pm, ps, h) \<in> set rs \<Longrightarrow> method_match pm m \<Longrightarrow> path_match ps path [] = Some v \<Longrightarrow>
     lookup_route rs m path = Some (h, v)"
proof (induction rs m path rule: lookup_route.induct)
  case (2 qm qs k rs m path)
  show ?case
  proof (cases "if method_match qm m then path_match qs path [] else None")
    case None
    then show ?thesis using 2 by (auto split: if_splits)
  next
    case (Some u)
    have "(pm, ps, h) \<notin> set rs"
    proof
      assume "(pm, ps, h) \<in> set rs"
      then have "\<not> (methods_overlap qm pm \<and> overlap qs ps)" using 2(2) by (auto simp: list_all_iff)
      then show False
        using Some 2(4,5) methods_overlapI path_match_overlap by (metis option.distinct(1))
    qed
    then show ?thesis using 2 Some by auto
  qed
qed simp

end
