(* ===== verification/Router.thy ===== *)
theory Router
  imports Cloud_Main Serve_Mux
begin

text \<open>
  The public routes of \<^verbatim>\<open>services/cloud/main.go\<close> and the public server from a method and a path to
  its response.
\<close>

section \<open>The public table\<close>

definition public_routes :: "endpoint routes" where
  "public_routes =
     [(''GET'', [Lit ''healthz''], GetHealthz),
      (''GET'', [Lit ''livez''], GetLivez),
      (''GET'', [Lit ''recipients''], GetRecipients),
      (''GET'', [Lit ''recipients'', Wild, Lit ''public-key''], GetPublicKey),
      (''POST'', [Lit ''jobs'', Lit ''upload-url''], PostUploadURL),
      (''POST'', [Lit ''jobs''], PostJobs),
      (''GET'', [Lit ''jobs''], GetJobs),
      (''GET'', [Lit ''jobs'', Wild, Lit ''stream''], GetJobStream),
      (''POST'', [Lit ''auth'', Lit ''register''], PostRegister),
      (''POST'', [Lit ''auth'', Lit ''login''], PostLogin),
      (''POST'', [Lit ''auth'', Lit ''refresh''], PostRefresh),
      (''POST'', [Lit ''auth'', Lit ''logout''], PostLogout),
      (''GET'', [Lit ''admin'', Lit ''summary''], GetAdminSummary),
      (''GET'', [Lit ''admin'', Lit ''jobs''], GetAdminJobs),
      (''GET'', [Lit ''admin'', Lit ''mailboxes''], GetAdminMailboxes)]"

lemma public_routes_unambiguous: "unambiguous public_routes"
  by (simp add: public_routes_def methods_overlap_def)

lemma public_routes_endpoints: "\<exists>m ps. (m, ps, ep) \<in> set public_routes"
  by (cases ep) (auto simp: public_routes_def)

text \<open>Every path the public server routes, with its endpoint and its wildcard's value.\<close>

lemma public_routed:
  assumes "route public_routes m path = Routed ep v"
  shows "\<exists>pm ps. (pm, ps, ep) \<in> set public_routes \<and> method_match pm m \<and> path_match ps path [] = Some v"
  using assms by (auto simp: route_def Let_def split: option.splits if_splits dest: lookup_route_SomeD)

lemma path_match_Lit: "path_match (Lit l # ps) path v = Some x \<Longrightarrow> path \<noteq> [] \<and> hd path = l"
  by (cases path) (auto split: if_splits)

lemma public_first_segment:
  assumes "route public_routes m path = Routed ep v"
  shows "path \<noteq> [] \<and> hd path \<in> {''healthz'', ''livez'', ''recipients'', ''jobs'', ''auth'', ''admin''} \<and>
    (hd path = ''admin'' \<longleftrightarrow> admin_endpoint ep)"
proof -
  obtain pm ps where p: "(pm, ps, ep) \<in> set public_routes" "path_match ps path [] = Some v"
    using public_routed [OF assms] by blast
  then show ?thesis by (auto simp: public_routes_def admin_endpoint_def dest!: path_match_Lit)
qed

section \<open>The public server\<close>

text \<open>\<^verbatim>\<open>http.Error\<close>: plain text that ends in a newline.\<close>

definition http_Error :: "nat \<Rightarrow> string \<Rightarrow> response" where
  "http_Error status text =
     \<lparr>htStatus = status, htHeaders = [(''Content-Type'', ''text/plain; charset=utf-8''),
       (''X-Content-Type-Options'', ''nosniff'')], htCookies = [], htBody = TextBody (text @ [CHR 0x0A])\<rparr>"

fun joined :: "string list \<Rightarrow> string" where
  "joined [] = []"
| "joined [x] = x"
| "joined (x # xs) = x @ '', '' @ joined xs"

definition mux_error :: "'h routed \<Rightarrow> response" where
  "mux_error x = (case x of
     NotAllowed ms \<Rightarrow> (let e = http_Error 405 ''Method Not Allowed''
       in e\<lparr>htHeaders := (''Allow'', joined ms) # htHeaders e\<rparr>)
   | _ \<Rightarrow> http_Error 404 ''404 page not found'')"

lemma mux_error_status: "htStatus (mux_error x) \<in> {404, 405}" "htCookies (mux_error x) = []"
  by (simp_all add: mux_error_def http_Error_def Let_def split: routed.split)

text \<open>A request comes in without a sender in its context.\<close>

definition mux_handler :: "'s env \<Rightarrow> 's server \<Rightarrow> bool \<Rightarrow> stream_event list \<Rightarrow> string \<Rightarrow> string list \<Rightarrow> 's handler" where
  "mux_handler E s sok evs m path r w =
     (case route public_routes m path of
        Routed ep v \<Rightarrow> mux E s sok evs ep (r\<lparr>rqPathID := v, rqSender := None\<rparr>) w
      | x \<Rightarrow> (mux_error x, w))"

definition serve_public :: "'s env \<Rightarrow> 's server \<Rightarrow> string \<Rightarrow> bool \<Rightarrow> stream_event list \<Rightarrow> string \<Rightarrow> string list \<Rightarrow> 's handler" where
  "serve_public E s nodeID sok evs m path = nodeHeader nodeID (mux_handler E s sok evs m path)"

lemma serve_public_cases:
  "(\<exists>ep v. route public_routes m path = Routed ep v \<and>
      serve_public E s n sok evs m path r w = public_handler E s n sok evs ep (r\<lparr>rqPathID := v, rqSender := None\<rparr>) w) \<or>
   (snd (serve_public E s n sok evs m path r w) = w \<and>
      htStatus (fst (serve_public E s n sok evs m path r w)) \<in> {404, 405})"
  by (cases "route public_routes m path")
    (auto simp: serve_public_def mux_handler_def public_handler_def nodeHeader_def mux_error_def http_Error_def Let_def split: prod.splits)

lemma route_stream:
  "route public_routes m [''jobs'', jobID, ''stream''] = Routed ep v \<Longrightarrow> ep = GetJobStream \<and> v = jobID"
  by (drule public_routed) (auto simp: public_routes_def split: if_splits)

lemma served_stream:
  assumes "serve_public E s n sok events m [''jobs'', jobID, ''stream''] r w = (resp, w')" "htStatus resp = 200"
  obtains resp1 where
    "optionalAuth E (StreamJob E sok events) (r\<lparr>rqPathID := jobID, rqSender := None\<rparr>) w = (resp1, w')"
    "htStatus resp1 = 200"
proof -
  let ?path = "[''jobs'', jobID, ''stream'']"
  from serve_public_cases [of m ?path E s n sok events r w] assms obtain ep v where
    ep: "route public_routes m ?path = Routed ep v"
      "public_handler E s n sok events ep (r\<lparr>rqPathID := v, rqSender := None\<rparr>) w = (resp, w')" by auto
  from route_stream [OF ep(1)] ep(2) assms(2) that show thesis
    by (auto simp: public_handler_def nodeHeader_def split: prod.splits)
qed

text \<open>A sender in the context of an optionally signed-in request comes from a verified token.\<close>

lemma optionalAuth_sender:
  assumes "optionalAuth E next r w = (resp, w')" "rqSender r = None"
  shows "\<exists>r'. next r' w = (resp, w') \<and> rqPathID r' = rqPathID r \<and> rqQuery r' = rqQuery r \<and>
    (SenderID E r' \<noteq> None \<longrightarrow> (\<exists>raw claims. rqAuthorization r = ''Bearer '' @ raw \<and>
       jwt_parse E [''RS256''] raw (ext w) = Inr claims \<and> SenderID E r' = uuid_parse E (acSubject claims)))"
proof (cases "\<exists>raw claims. rqAuthorization r = ''Bearer '' @ raw \<and> jwt_parse E [''RS256''] raw (ext w) = Inr claims")
  case True
  then obtain raw claims where c: "rqAuthorization r = ''Bearer '' @ raw" "jwt_parse E [''RS256''] raw (ext w) = Inr claims"
    by blast
  then have "cutPrefix (rqAuthorization r) ''Bearer '' = Some raw" by (simp only: cutPrefix_append)
  then have "next (WithSender (acSubject claims) (acRole claims) r) w = (resp, w')"
    using assms(1) c(2) by (simp add: optionalAuth_def ParseAccessToken_def)
  then show ?thesis using c by (intro exI [of _ "WithSender (acSubject claims) (acRole claims) r"])
    (auto simp: WithSender_def SenderID_def)
next
  case False
  then have "next r w = (resp, w')"
    using assms(1) by (auto simp: optionalAuth_def ParseAccessToken_def cutPrefix_Some split: option.splits sum.splits)
  then show ?thesis using assms(2) by (intro exI [of _ r]) (simp add: SenderID_def)
qed

lemma lookup_public_None:
  "p \<notin> {''healthz'', ''livez'', ''recipients'', ''jobs'', ''auth'', ''admin''} \<Longrightarrow> lookup_route public_routes m (p # rest) = None"
  by (simp add: public_routes_def)

lemma unserved_status:
  assumes "p \<notin> {''healthz'', ''livez'', ''recipients'', ''jobs'', ''auth'', ''admin''}"
    "serve_public E s n sok evs m (p # rest) r w = (resp, w')"
  shows "htStatus resp = 404"
proof -
  have "route public_routes m (p # rest) = NoRoute"
    using lookup_public_None [OF assms(1)] by (simp add: route_def)
  then show ?thesis
    using assms(2) by (auto simp: serve_public_def mux_handler_def nodeHeader_def mux_error_def http_Error_def)
qed

lemma serve_public_step:
  "serve_public E s n sok evs m path r w = (resp, w') \<Longrightarrow> w' = w \<or> world_step E s w w'"
  using serve_public_cases [of m path E s n sok evs r w] world_step.Request [of E s w] by (metis snd_conv)

end
