(* ===== verification/Api_Properties.thy ===== *)
theory Api_Properties
  imports Demo Router
begin

text \<open>
  The properties of the senders' side of the HTTP interface: submission, watching a job, and what
  the recipient search shows.
\<close>

section \<open>Submission\<close>

text \<open>
  C5: A submission answered 202 named a resident with a slot and a blob that was there, and stored
  a new job for exactly them: the decoded key, the blob reference, the resident's mailbox and slot,
  owned by the signed-in sender or else by the digest of the guest token in the answer.
\<close>

theorem submission_accepted:
  assumes "CreateJob E r w = (resp, w')" "htStatus resp = 202"
  shows "\<exists>q recipientID resolved guest i j st. createJob_read (rqBody r) = Some q \<and>
    uuid_parse E (cjRecipientID q) = Some recipientID \<and> fst (ResolveRecipient recipientID (db w)) = Inr resolved \<and>
    (\<exists>u. fst (m_stat E bucket (cjBlobRef q) u) = Inr ()) \<and>
    job_of (db w) i = None \<and> job_of (db w') i = Some j \<and> StdDecode (cjEncryptedKey q) = Some (jEncryptedKey j) \<and>
    jBlobRef j = cjBlobRef q \<and> jPageCount j = cjPageCount q \<and>
    jMailboxID j = rrMailboxID resolved \<and> jSlotID j = rrSlotID resolved \<and> jSenderID j = SenderID E r \<and>
    jGuestTokenHash j = (if SenderID E r = None then Some (hashToken E guest) else None) \<and>
    resp = WriteJSON 202 (JObj ([(''job_id'', JStr (uuid_string E i)), (''status'', JStr st)] @
      omit_str ''guest_token'' guest)) \<and> (SenderID E r \<noteq> None \<longrightarrow> guest = [])"
proof (rule CreateJob_accepted [OF assms])
  fix q recipientID resolved key guest hash i now w5 status
  assume a: "createJob_read (rqBody r) = Some q" "uuid_parse E (cjRecipientID q) = Some recipientID"
    "ResolveRecipient recipientID (db w) = (Inr resolved, db w)" "\<exists>u. fst (m_stat E bucket (cjBlobRef q) u) = Inr ()"
    "StdDecode (cjEncryptedKey q) = Some key" "SenderID E r = None \<longleftrightarrow> hash \<noteq> None"
    "SenderID E r = None \<Longrightarrow> hash = Some (hashToken E guest)" "SenderID E r \<noteq> None \<Longrightarrow> guest = []"
    "job_of (db w) i = None"
    and j: "job_of (db w5) i = Some (new_job i now \<lparr>ijSenderID = SenderID E r, ijGuestTokenHash = hash,
       ijMailboxID = rrMailboxID resolved, ijSlotID = rrSlotID resolved, ijEncryptedKey = key,
       ijBlobRef = cjBlobRef q, ijPageCount = cjPageCount q\<rparr>)" and le: "db_le (db w5) (db w')"
    and r: "resp = WriteJSON 202 (JObj ([(''job_id'', JStr (uuid_string E i)), (''status'', JStr status)] @
       omit_str ''guest_token'' guest))"
  from db_le_job [OF le j] obtain j' where j': "job_of (db w') i = Some j'"
    and c: "job_core j' = job_core (new_job i now \<lparr>ijSenderID = SenderID E r, ijGuestTokenHash = hash,
       ijMailboxID = rrMailboxID resolved, ijSlotID = rrSlotID resolved, ijEncryptedKey = key,
       ijBlobRef = cjBlobRef q, ijPageCount = cjPageCount q\<rparr>)" by blast
  note f = job_core_fields [OF c, unfolded new_job_def, simplified]
  have "hash = (if SenderID E r = None then Some (hashToken E guest) else None)" using a(6,7) by auto
  then show ?thesis
    using a(1-5,8,9) j' r f
    by (intro exI [of _ q] exI [of _ recipientID] exI [of _ resolved] exI [of _ guest] exI [of _ i] exI [of _ j'] exI [of _ status])
       (simp del: WriteJSON_sel)
qed

lemma demo_submit_202: "htStatus (fst (CreateJob ref_env demo_submit demo_world)) = 202"
  by code_simp

lemma submission_accepted_witness:
  "\<exists>i j. job_of (db demo_world) i = None \<and> job_of (db (snd (CreateJob ref_env demo_submit demo_world))) i = Some j \<and>
     jBlobRef j = ''blobs/a''"
proof -
  have "createJob_read (rqBody demo_submit) = Some \<lparr>cjEncryptedKey = [], cjBlobRef = ''blobs/a'',
      cjRecipientID = ref_uuid_string 4, cjPageCount = 2\<rparr>" by code_simp
  then show ?thesis using submission_accepted [OF prod.collapse [symmetric] demo_submit_202] by auto
qed

section \<open>What may be read\<close>

text \<open>
  C18: Over the public server, a job's event stream opens only for its owner: for a bearer token that
  verifies and names the sender who submitted the job, or for the guest token whose digest its row
  carries.
\<close>

theorem stream_needs_ownership:
  assumes "serve_public E s n sok events m [''jobs'', jobID, ''stream''] r w = (resp, w')" "htStatus resp = 200"
  shows "\<exists>i j. uuid_parse E jobID = Some i \<and> job_of (db w) i = Some j \<and>
    ((\<exists>raw claims sender. rqAuthorization r = ''Bearer '' @ raw \<and> jwt_parse E [''RS256''] raw (ext w) = Inr claims \<and>
        uuid_parse E (acSubject claims) = Some sender \<and> jSenderID j = Some sender) \<or>
     (query_get r ''token'' \<noteq> [] \<and> jGuestTokenHash j = Some (hashToken E (query_get r ''token''))))"
proof -
  let ?r = "r\<lparr>rqPathID := jobID, rqSender := None\<rparr>"
  obtain resp1 where h: "optionalAuth E (StreamJob E sok events) ?r w = (resp1, w')" "htStatus resp1 = 200"
    by (rule served_stream [OF assms])
  obtain r' where r': "StreamJob E sok events r' w = (resp1, w')" "rqPathID r' = jobID" "rqQuery r' = rqQuery r"
    "SenderID E r' \<noteq> None \<longrightarrow> (\<exists>raw claims. rqAuthorization r = ''Bearer '' @ raw \<and>
       jwt_parse E [''RS256''] raw (ext w) = Inr claims \<and> SenderID E r' = uuid_parse E (acSubject claims))"
    using optionalAuth_sender [OF h(1)] by auto
  have q: "query_get r' k = query_get r k" for k by (simp add: query_get_def r'(3))
  from StreamJob_owner [OF r'(1) h(2)] r'(2,4) show ?thesis unfolding q by auto
qed


definition demo_events :: "stream_event list" where
  "demo_events = [Published (Some (jsonStatusPayload (frame0\<lparr>fStatus := ''printing''\<rparr>))) True,
     Published (Some (jsonStatusPayload (frame0\<lparr>fStatus := ''delivered''\<rparr>))) True,
     Published (Some (jsonStatusPayload (frame0\<lparr>fStatus := ''printing''\<rparr>))) True]"


definition demo_open :: request where
  "demo_open = demo_request\<lparr>rqAuthorization := ''Bearer '' @ ''sender.'' @ ref_uuid_string 5\<rparr>"

definition demo_opened :: "response \<times> ref_state world" where
  "demo_opened = serve_public ref_env demo_server ''n'' True demo_events ''GET''
     [''jobs'', ref_uuid_string 10, ''stream''] demo_open demo_world"

lemma demo_opened_200: "htStatus (fst demo_opened) = 200"
  by code_simp

lemma stream_needs_ownership_witness: "\<exists>i j. job_of (db demo_world) i = Some j \<and> jSenderID j \<noteq> None"
proof -
  have "query_get demo_open ''token'' = []" by (simp add: query_get_def demo_open_def demo_request_def)
  then show ?thesis
    using stream_needs_ownership [OF prod.collapse [symmetric] demo_opened_200 [unfolded demo_opened_def]] by fastforce
qed



text \<open>
  The unauthenticated search shows, of a name of two words or more, the first letter and the
  last word: two residents who agree in these are shown alike.
\<close>

lemma search_masks_names:
  assumes "strFields full = p # q # ps" "strFields full' = p' # q' # ps'"
    "hd (runes p) = hd (runes p')" "last (q # ps) = last (q' # ps')"
  shows "recipientSummary E (row\<lparr>sqFullName := full\<rparr>) = recipientSummary E (row\<lparr>sqFullName := full'\<rparr>)"
  using maskName_first_rune [OF assms] by (simp add: recipientSummary_def)

lemma search_masks_names_witness:
  "recipientSummary ref_env \<lparr>sqRecipientID = 4, sqFullName = ''Jane Q Doe'', sqBuildingAddress = ''x''\<rparr> =
   recipientSummary ref_env \<lparr>sqRecipientID = 4, sqFullName = ''John Doe'', sqBuildingAddress = ''x''\<rparr>"
proof -
  have "strFields ''Jane Q Doe'' = [''Jane'', ''Q'', ''Doe'']" "strFields ''John Doe'' = [''John'', ''Doe'']"
    "hd (runes ''Jane'') = hd (runes ''John'')" by code_simp+
  from search_masks_names [OF this(1,2,3), of ref_env "\<lparr>sqRecipientID = 4, sqFullName = [], sqBuildingAddress = ''x''\<rparr>"]
  show ?thesis by simp
qed

end
