(* ===== verification/Account_Properties.thy ===== *)
theory Account_Properties
  imports Demo
begin

text \<open>
  The properties of accounts and of the operator's interface: signing in and up, refresh tokens,
  the admin gate, the summary and the paginated job table.
\<close>

section \<open>Accounts\<close>

definition demo_login :: "string \<Rightarrow> request" where
  "demo_login password = demo_request\<lparr>rqBody := Some (JObj [(''email'', JStr ''A@b''), (''password'', JStr password)])\<rparr>"

text \<open>
  C21: A session is granted only to an account whose decrypted email is the given one in lower case
  and whose hash fits the password. A refused sign-in gives the same answer whether the email is
  unknown or the password wrong, and leaves the database alone.
\<close>

theorem login_checks_credentials:
  assumes "Login E s r w = (resp, w')"
  shows "(htStatus resp = 200 \<longrightarrow> (\<exists>q sd. credentials_read (rqBody r) = Some q \<and> sd \<in> set (senders (db w)) \<and>
      pgp_decrypt E (AppKey s) (snEmailEnc sd) = Some (toLower (crEmail q)) \<and>
      bcrypt_compare E (snPasswordHash sd) (crPassword q))) \<and>
    (htStatus resp = 401 \<longrightarrow> resp = WriteError 401 ''invalid credentials'' ''UNAUTHORIZED'' \<and> db w' = db w)"
  using assms
proof (cases rule: Login_cases)
  case (granted q sd w1 res)
  have "htStatus resp = 200 \<or> htStatus resp = 500" using session_status(2) [of 200 res] unfolding granted(5) .
  then have "htStatus resp \<noteq> 401" by (elim disjE) simp_all
  then show ?thesis using granted GetSenderByEmail_InrD [OF granted(2)] by blast
next
  case (unknown q)
  then show ?thesis using GetSenderByEmail_db [OF unknown(2)] by simp
next
  case (wrong q sd)
  then show ?thesis using GetSenderByEmail_db [OF wrong(2)] by simp
qed simp_all

lemma demo_login_status:
  "htStatus (fst (Login ref_env demo_server (demo_login ''secret'') demo_world)) = 200"
  "htStatus (fst (Login ref_env demo_server (demo_login ''guess'') demo_world)) = 401"
  by code_simp+

lemma login_checks_credentials_witness:
  "fst (Login ref_env demo_server (demo_login ''guess'') demo_world) = WriteError 401 ''invalid credentials'' ''UNAUTHORIZED''"
  using login_checks_credentials [OF prod.collapse [symmetric], of ref_env demo_server "demo_login ''guess''" demo_world]
    demo_login_status(2) by blast

text \<open>
  C20: A refresh token works once: after a refresh that succeeded, presenting the same token again
  is refused, sets no cookie and changes nothing (unless the digest of the new token happened to
  be that of the old one).
\<close>

theorem refresh_token_single_use:
  assumes "Refresh E s r w = (resp, w')" "htStatus resp = 200" "map_of (rqCookies r) refreshCookieName = Some v"
    "htCookies resp = [setRefreshCookie raw x]" "hashToken E raw \<noteq> hashToken E v"
    "map_of (rqCookies r2) refreshCookieName = Some v" "Refresh E s r2 w' = (resp2, w2)"
  shows "(htStatus resp2 = 401 \<or> htStatus resp2 = 500) \<and> htCookies resp2 = [] \<and> db w2 = db w'"
proof (rule Refresh_granted [OF assms(1,2)])
  fix v' old sd now i raw' x' now'
  assume v': "map_of (rqCookies r) refreshCookieName = Some v'"
    and d: "db w' = (snd (RevokeRefreshTokenByHash now (hashToken E v') (db w)))\<lparr>refresh_tokens :=
       refresh_tokens (snd (RevokeRefreshTokenByHash now (hashToken E v') (db w))) @
        [\<lparr>rtID = i, rtSenderID = rtSenderID old, rtTokenHash = hashToken E raw', rtExpiresAt = x',
          rtRevokedAt = None, rtCreatedAt = now'\<rparr>]\<rparr>"
    and c: "htCookies resp = [setRefreshCookie raw' x']"
  have e: "v' = v" "raw' = raw" using v' assms(3,4) c by (simp_all add: setRefreshCookie_def refreshCookie_def)
  have "token_dead (hashToken E v) (snd (RevokeRefreshTokenByHash now (hashToken E v) (db w)))" by (rule revoke_dead)
  then have "token_dead (hashToken E v) (db w')" using assms(5) by (auto simp: d e token_dead_def)
  from Refresh_dead [OF assms(6) this assms(7)] show ?thesis by blast
qed

definition demo_session :: "ref_state world" where
  "demo_session = demo_world\<lparr>db := demo_db\<lparr>refresh_tokens := [\<lparr>rtID = 20, rtSenderID = 5,
     rtTokenHash = hashToken ref_env ''t'', rtExpiresAt = 1, rtRevokedAt = None, rtCreatedAt = 0\<rparr>]\<rparr>\<rparr>"

definition demo_refresh :: request where
  "demo_refresh = demo_request\<lparr>rqCookies := [(refreshCookieName, ''t'')]\<rparr>"

definition demo_refreshed :: "ref_state world" where
  "demo_refreshed = snd (Refresh ref_env demo_server demo_refresh demo_session)"

definition demo_new_token :: string where
  "demo_new_token = RawURLEncode (replicate 32 99)"

lemma demo_refresh_200: "htStatus (fst (Refresh ref_env demo_server demo_refresh demo_session)) = 200"
  by code_simp

lemma demo_refresh_cookie: "htCookies (fst (Refresh ref_env demo_server demo_refresh demo_session)) =
     [setRefreshCookie demo_new_token refreshTokenTTL]"
  by code_simp

lemma demo_refresh_hash: "hashToken ref_env demo_new_token \<noteq> hashToken ref_env ''t''"
  by code_simp

lemma refresh_token_single_use_witness:
  "htCookies (fst (Refresh ref_env demo_server demo_refresh demo_refreshed)) = []"
proof -
  have "map_of (rqCookies demo_refresh) refreshCookieName = Some ''t''" by (simp add: demo_refresh_def)
  from refresh_token_single_use [OF prod.collapse [symmetric] demo_refresh_200 this demo_refresh_cookie demo_refresh_hash this
      prod.collapse [symmetric]]
  show ?thesis by (simp add: demo_refreshed_def)
qed

section \<open>Overlapping refreshes\<close>

text \<open>
  C39: But the token is read and revoked by two statements without a transaction. A refresh that has
  read a token goes through (or fails with an internal error) whatever happened to the token since:
  of two refreshes that read it before either revokes it, the second is never refused, and when both
  are answered the same account holds two new tokens, both active.
\<close>

theorem overlapping_refreshes_both_granted:
  assumes "refresh_read E r1 w = (Inr (h, a1), w1)" "refresh_read E r2 w1 = (Inr (h, a2), w2)"
    "refresh_grant E s h a1 w2 = (resp1, w3)" "refresh_grant E s h a2 w3 = (resp2, w4)" "htStatus resp1 = 200"
  shows "(htStatus resp2 = 200 \<or> htStatus resp2 = 500) \<and>
    (htStatus resp2 = 200 \<longrightarrow> (\<exists>old t1 t2. refresh_tokens (db w4) = old @ [t1, t2] \<and>
       rtSenderID t1 = rtSenderID a1 \<and> rtSenderID t2 = rtSenderID a2 \<and> rtRevokedAt t2 = None \<and>
       (rtTokenHash t1 \<noteq> h \<longrightarrow> rtRevokedAt t1 = None)))"
proof (intro conjI impI)
  show "htStatus resp2 = 200 \<or> htStatus resp2 = 500" by (rule refresh_grant_status [OF assms(4)])
next
  assume "htStatus resp2 = 200"
  from refresh_grantD [OF assms(4) this] obtain now2 t2 where
    t2: "refresh_tokens (db w4) = refresh_tokens (snd (RevokeRefreshTokenByHash now2 h (db w3))) @ [t2]"
      "rtSenderID t2 = rtSenderID a2" "rtRevokedAt t2 = None" by blast
  from refresh_grantD [OF assms(3,5)] obtain now1 t1 where
    t1: "refresh_tokens (db w3) = refresh_tokens (snd (RevokeRefreshTokenByHash now1 h (db w2))) @ [t1]"
      "rtSenderID t1 = rtSenderID a1" "rtRevokedAt t1 = None" by blast
  from revoke_last [OF t1(1), of now2 h] t1(2,3) obtain old t1' where
    "refresh_tokens (snd (RevokeRefreshTokenByHash now2 h (db w3))) = old @ [t1']"
    "rtSenderID t1' = rtSenderID a1" "rtTokenHash t1' \<noteq> h \<longrightarrow> rtRevokedAt t1' = None" by metis
  with t2 show "\<exists>old t1 t2. refresh_tokens (db w4) = old @ [t1, t2] \<and> rtSenderID t1 = rtSenderID a1 \<and>
      rtSenderID t2 = rtSenderID a2 \<and> rtRevokedAt t2 = None \<and> (rtTokenHash t1 \<noteq> h \<longrightarrow> rtRevokedAt t1 = None)"
    by (intro exI [of _ old] exI [of _ t1'] exI [of _ t2]) simp
qed

text \<open>The environment with digests and random texts cut short.\<close>

definition short_env :: "ref_state env" where
  "short_env = ref_env\<lparr>sha256 := take 2, rand_read := (\<lambda>n s. (Inr [of_nat (rfCounter s)], bump_counter s))\<rparr>"

definition short_session :: "ref_state world" where
  "short_session = demo_world\<lparr>db := demo_db\<lparr>refresh_tokens := [\<lparr>rtID = 20, rtSenderID = 5,
     rtTokenHash = hashToken short_env ''t'', rtExpiresAt = 1, rtRevokedAt = None, rtCreatedAt = 0\<rparr>]\<rparr>\<rparr>"

definition demo_read :: "string \<times> refresh_token" where
  "demo_read = projr (fst (refresh_read short_env demo_refresh short_session))"

definition demo_read_world :: "nat \<Rightarrow> ref_state world" where
  "demo_read_world n = ((\<lambda>w. snd (refresh_read short_env demo_refresh w)) ^^ n) short_session"

definition demo_first_grant :: "response \<times> ref_state world" where
  "demo_first_grant = refresh_grant short_env demo_server (fst demo_read) (snd demo_read) (demo_read_world 2)"

definition demo_second_grant :: "response \<times> ref_state world" where
  "demo_second_grant = refresh_grant short_env demo_server (fst demo_read) (snd demo_read) (snd demo_first_grant)"

lemma demo_reads:
  "refresh_read short_env demo_refresh (demo_read_world 0) = (Inr (fst demo_read, snd demo_read), demo_read_world 1)"
  "refresh_read short_env demo_refresh (demo_read_world 1) = (Inr (fst demo_read, snd demo_read), demo_read_world 2)"
  by code_simp+

lemma demo_grants: "htStatus (fst demo_first_grant) = 200" "htStatus (fst demo_second_grant) = 200"
  by code_simp+

lemma overlapping_refreshes_both_granted_witness:
  "\<exists>old t1 t2. refresh_tokens (db (snd demo_second_grant)) = old @ [t1, t2] \<and> rtSenderID t1 = rtSenderID t2"
proof -
  have g: "refresh_grant short_env demo_server (fst demo_read) (snd demo_read) (demo_read_world 2) =
      (fst demo_first_grant, snd demo_first_grant)"
    "refresh_grant short_env demo_server (fst demo_read) (snd demo_read) (snd demo_first_grant) =
      (fst demo_second_grant, snd demo_second_grant)"
    by (simp_all add: demo_first_grant_def demo_second_grant_def)
  show ?thesis
    using overlapping_refreshes_both_granted [OF demo_reads g demo_grants(1)] demo_grants(2) by metis
qed

text \<open>
  C22: Signing up adds at most one account, and never one with another role than sender. It is
  answered 201 only for an address that parses, a password of at least eight characters and an
  email no account has, and then the account is stored with the encrypted email.
\<close>

theorem signup_creates_sender:
  assumes "Register E s r w = (resp, w')"
  shows "(senders (db w') = senders (db w) \<or> (\<exists>sd. senders (db w') = senders (db w) @ [sd] \<and> snRole sd = ''sender'')) \<and>
    (htStatus resp = 201 \<longrightarrow> (\<exists>q address sd. credentials_read (rqBody r) = Some q \<and>
       mail_parse E (crEmail q) = Some address \<and> 8 \<le> rune_count (crPassword q) \<and>
       (\<forall>old\<in>set (senders (db w)). pgp_decrypt E (AppKey s) (snEmailEnc old) \<noteq> Some (toLower address)) \<and>
       senders (db w') = senders (db w) @ [sd] \<and> (\<exists>u. snEmailEnc sd = fst (pgp_encrypt E (AppKey s) (toLower address) u))))"
proof
  show "htStatus resp = 201 \<longrightarrow> (\<exists>q address sd. credentials_read (rqBody r) = Some q \<and>
       mail_parse E (crEmail q) = Some address \<and> 8 \<le> rune_count (crPassword q) \<and>
       (\<forall>old\<in>set (senders (db w)). pgp_decrypt E (AppKey s) (snEmailEnc old) \<noteq> Some (toLower address)) \<and>
       senders (db w') = senders (db w) @ [sd] \<and> (\<exists>u. snEmailEnc sd = fst (pgp_encrypt E (AppKey s) (toLower address) u)))"
  proof
    assume "htStatus resp = 201"
    from Register_created [OF assms this] obtain q address sd u where c: "credentials_read (rqBody r) = Some q"
      "mail_parse E (crEmail q) = Some address" "minPasswordLen \<le> rune_count (crPassword q)"
      "fst (GetSenderByEmail (pgp_decrypt E (AppKey s)) (toLower address) (db w)) = Inl ErrNoRows"
      "senders (db w') = senders (db w) @ [sd]"
      "snEmailEnc sd = fst (pgp_encrypt E (AppKey s) (toLower address) u)" by metis
    from c(4) have "\<forall>old\<in>set (senders (db w)). pgp_decrypt E (AppKey s) (snEmailEnc old) \<noteq> Some (toLower address)"
      by (auto simp: GetSenderByEmail_def find_None_iff_ball split: if_splits option.splits)
    with c show "\<exists>q address sd. credentials_read (rqBody r) = Some q \<and>
       mail_parse E (crEmail q) = Some address \<and> 8 \<le> rune_count (crPassword q) \<and>
       (\<forall>old\<in>set (senders (db w)). pgp_decrypt E (AppKey s) (snEmailEnc old) \<noteq> Some (toLower address)) \<and>
       senders (db w') = senders (db w) @ [sd] \<and> (\<exists>u. snEmailEnc sd = fst (pgp_encrypt E (AppKey s) (toLower address) u))"
      by (auto simp: minPasswordLen_def)
  qed
qed (rule Register_senders [OF assms])

definition demo_signup :: request where
  "demo_signup = demo_request\<lparr>rqBody := Some (JObj [(''email'', JStr ''new@b''), (''password'', JStr ''12345678'')])\<rparr>"

lemma demo_signup_201: "htStatus (fst (Register ref_env demo_server demo_signup demo_world)) = 201"
  by code_simp

lemma signup_creates_sender_witness:
  "\<exists>sd. senders (db (snd (Register ref_env demo_server demo_signup demo_world))) = senders (db demo_world) @ [sd]"
  using signup_creates_sender [OF prod.collapse [symmetric], of ref_env demo_server demo_signup demo_world] demo_signup_201
  by blast

end
