(* ===== verification/Admin_Properties.thy ===== *)
theory Admin_Properties
  imports Demo Router
begin

text \<open>
  The properties of the operator's interface: the gate in front of it, the counts of the summary,
  and the pages of the job table, with the page number at which their arithmetic wraps.
\<close>

section \<open>The gate\<close>

lemma public_handler_gate:
  assumes "admin_endpoint ep" "public_handler E s n sok evs ep r w = (resp, w')"
  shows "(\<exists>raw claims. rqAuthorization r = ''Bearer '' @ raw \<and> jwt_parse E [''RS256''] raw (ext w) = Inr claims \<and>
      acRole claims = ''admin'') \<or> (w' = w \<and> (htStatus resp = 401 \<or> htStatus resp = 403))"
proof -
  obtain nxt where m: "mux E s sok evs ep = requireAdmin E nxt"
    using assms(1) by (auto simp: admin_endpoint_def)
  obtain resp1 w1 where h: "requireAdmin E nxt r w = (resp1, w1)" by fastforce
  then have "w' = w1" "htStatus resp = htStatus resp1"
    using assms(2) by (auto simp: public_handler_def nodeHeader_def m)
  from requireAdmin_gate [OF h] show ?thesis
  proof (elim disjE exE conjE)
    fix raw claims
    assume "rqAuthorization r = ''Bearer '' @ raw" "jwt_parse E [''RS256''] raw (ext w) = Inr claims" "acRole claims = ''admin''"
    then show ?thesis by blast
  qed (simp_all add: \<open>w' = w1\<close> \<open>htStatus resp = htStatus resp1\<close>)
qed

text \<open>
  C23: On the public server, whatever the method and the rest of the path, a request below \<^verbatim>\<open>/admin\<close>
  does work only with a bearer token that verifies and whose role is admin; every other one is
  refused and changes nothing. Nothing below \<^verbatim>\<open>/internal\<close> or \<^verbatim>\<open>/debug\<close> is served there at all.
\<close>

theorem admin_paths_are_gated:
  assumes "serve_public E s n sok evs m (p # rest) r w = (resp, w')"
  shows "(p = ''admin'' \<longrightarrow>
      (\<exists>raw claims. rqAuthorization r = ''Bearer '' @ raw \<and> jwt_parse E [''RS256''] raw (ext w) = Inr claims \<and>
         acRole claims = ''admin'') \<or> (w' = w \<and> htStatus resp \<in> {401, 403, 404, 405})) \<and>
    (p = ''internal'' \<or> p = ''debug'' \<longrightarrow> w' = w \<and> htStatus resp = 404)"
proof -
  from serve_public_cases [of m "p # rest" E s n sok evs r w] consider
    (routed) ep v where "route public_routes m (p # rest) = Routed ep v"
      "public_handler E s n sok evs ep (r\<lparr>rqPathID := v, rqSender := None\<rparr>) w = (resp, w')"
  | (refused) "w' = w" "htStatus resp \<in> {404, 405}"
    using assms by auto
  then show ?thesis
  proof cases
    case routed
    then have "p \<noteq> ''internal''" "p \<noteq> ''debug''" "p = ''admin'' \<longleftrightarrow> admin_endpoint ep"
      using public_first_segment [OF routed(1)] by auto
    then show ?thesis using public_handler_gate [OF _ routed(2)] by auto
  next
    case refused
    then show ?thesis using unserved_status [OF _ assms] by auto
  qed
qed

definition demo_admin :: "string \<Rightarrow> (string \<times> string) list \<Rightarrow> request" where
  "demo_admin role q = demo_request\<lparr>rqAuthorization := ''Bearer '' @ role @ ''.'' @ ref_uuid_string 6, rqQuery := q\<rparr>"

lemma demo_not_admin:
  "rqAuthorization (demo_admin ''sender'' []) = ''Bearer '' @ ''sender.'' @ ref_uuid_string 6"
  "\<forall>claims. jwt_parse ref_env [''RS256''] (''sender.'' @ ref_uuid_string 6) (ext demo_world) = Inr claims \<longrightarrow> acRole claims \<noteq> ''admin''"
  by (simp_all add: demo_admin_def ref_env_def ref_jwt_parse_def Let_def)

lemma admin_paths_are_gated_witness:
  "snd (serve_public ref_env demo_server ''n'' True [] ''GET'' [''admin'', ''jobs''] (demo_admin ''sender'' []) demo_world) = demo_world"
  using admin_paths_are_gated [of ref_env demo_server "''n''" True "[]" "''GET''" "''admin''" "[''jobs'']"
      "demo_admin ''sender'' []" demo_world, OF prod.collapse [symmetric]] demo_not_admin
  by auto

section \<open>The summary\<close>

text \<open>
  The queue depth of the summary is the number of jobs that wait for a printer (submitted,
  queued or dispatching), each counted once, and its table has exactly the statuses that occur,
  each with its number of jobs.
\<close>

lemma summary_counts_jobs:
  assumes "AdminSummary E r w = (resp, w')" "htStatus resp = 200"
  shows "\<exists>counts today. htBody resp = JsonBody (JObj [(''status_counts'', json_map JInt counts),
      (''queue_depth'', JInt (int (length (filter (\<lambda>j. waiting_status (jStatus j)) (jobs (db w)))))),
      (''completed_today'', JInt today)]) \<and>
    (\<forall>st. map_of counts st = (if st \<in> jStatus ` set (jobs (db w)) then Some (int (count_status st (jobs (db w)))) else None))"
proof -
  obtain x w1 where p: "pg E AdminJobStatusCounts w = (x, w1)" by fastforce
  with assms obtain cs where x: "x = Inr cs" by (cases x) (auto simp: AdminSummary_def)
  from pg_InrD [OF p [unfolded x]] have "fst (AdminJobStatusCounts (db w)) = Inr cs" by simp
  note q = queue_depth [OF this]
  obtain counts depth where s: "summarize cs [] 0 = (counts, depth)" by fastforce
  from assms p x s q show ?thesis
    by (auto simp: AdminSummary_def Let_def split: prod.splits sum.splits)
qed

lemma demo_summary_200: "htStatus (fst (AdminSummary ref_env demo_request demo_world)) = 200"
  by code_simp

lemma summary_counts_jobs_witness:
  "\<exists>counts today. htBody (fst (AdminSummary ref_env demo_request demo_world)) =
     JsonBody (JObj [(''status_counts'', json_map JInt counts), (''queue_depth'', JInt 1), (''completed_today'', JInt today)])"
proof -
  have "length (filter (\<lambda>j. waiting_status (jStatus j)) (jobs (db demo_world))) = 1"
    by (simp add: demo_world_def demo_db_def demo_job_def waiting_status_def)
  with summary_counts_jobs [OF prod.collapse [symmetric] demo_summary_200] show ?thesis by auto
qed

section \<open>The job table\<close>






text \<open>
  The largest page number makes the 64-bit offset wrap to a negative number, which the clamp
  against the largest 32-bit integer does not catch: the query is refused and the request ends in
  an internal error, whatever the database holds.
\<close>

lemma largest_page_is_an_error:
  "offset_of (page_of ''9223372036854775807'') (per_page_of []) = - 100 \<and>
   htStatus (fst (AdminJobs E (r\<lparr>rqQuery := [(''page'', ''9223372036854775807'')]\<rparr>) w)) = 500"
proof -
  have v: "page_of ''9223372036854775807'' = 9223372036854775807" "per_page_of [] = 50" by code_simp+
  have o: "offset_of 9223372036854775807 50 = - 100" "int32 (- 100) = - 100" "int32 50 = 50" by code_simp+
  have q: "AdminListJobs st (- 100) 50 = (\<lambda>t. (Inl (PqError invalid_row_count_in_offset), t))" for st
    by (rule ext) (simp add: AdminListJobs_def)
  obtain x :: "AdminListJobsRow list res" and w1 where p: "pg E (\<lambda>t. (Inl (PqError invalid_row_count_in_offset), t)) w = (x, w1)" by fastforce
  have "\<exists>e. x = Inl e"
    using pg_InrD [of E "\<lambda>t. (Inl (PqError invalid_row_count_in_offset), t)" w _ w1] p by (cases x) auto
  then have "htStatus (fst (AdminJobs E (r\<lparr>rqQuery := [(''page'', ''9223372036854775807'')]\<rparr>) w)) = 500"
    using p by (auto simp: AdminJobs_def query_get_def v o q Let_def)
  then show ?thesis by (simp add: v o)
qed

end
