(* ===== verification/Printer_Workers.thy ===== *)
theory Printer_Workers
  imports Printer_Facts
begin

text \<open>
  The printer process while several documents are in flight: \<^verbatim>\<open>readLoop\<close> of \<^verbatim>\<open>wsclient.go\<close> hands each
  dispatch frame to a goroutine of its own (\<^verbatim>\<open>go handleDispatch\<close>), so the stages of the jobs
  interleave with each other and with the keepalive's state frames. A worker is one such goroutine,
  cut wherever it touches what others see: the socket, the tmpfs, the slots, the services. Each buffer
  it allocates and wipes is a step too.
\<close>

section \<open>Workers\<close>

text \<open>
  The stages of \<^verbatim>\<open>handleDispatch\<close> and \<^verbatim>\<open>processJob\<close>, with the values in scope. \<^verbatim>\<open>Returning\<close> runs the
  deferred wipes of the buffers in \<^verbatim>\<open>wkBufs\<close>, the last registered first.
\<close>

datatype wstage = Announcing | Fetching | Decoding bytes | Unwrapping bytes bytes | Opening bytes bytes
  | Writing bytes | Printing bytes | Discarding go_error | Unlinking | Returning "unit res"
  | Reporting "unit res" | Counting | Telling "string \<times> slots" | Finished "unit res"

record worker =
  wkFrame :: pframe
  wkStage :: wstage
  wkBufs :: "nat list"

definition new_worker :: "pframe \<Rightarrow> worker" where
  "new_worker f = \<lparr>wkFrame = f, wkStage = Announcing, wkBufs = []\<rparr>"

definition at_stage :: "wstage \<Rightarrow> worker \<times> 'p machine \<Rightarrow> worker \<times> 'p machine" where
  "at_stage st wm = (case wm of (w, m) \<Rightarrow> (w\<lparr>wkStage := st\<rparr>, m))"

definition hold_buffer :: "bytes \<Rightarrow> worker \<times> 'p machine \<Rightarrow> worker \<times> 'p machine" where
  "hold_buffer b wm = (case wm of (w, m) \<Rightarrow> (case alloc b m of (a, m1) \<Rightarrow> (w\<lparr>wkBufs := a # wkBufs w\<rparr>, m1)))"

definition wkPath :: "worker \<Rightarrow> string" where
  "wkPath w = job_path (pJobID (wkFrame w))"

definition failing :: "string \<Rightarrow> go_error \<Rightarrow> wstage" where
  "failing what e = Returning (Inl (Err (what @ err_text e)))"

definition worker_step :: "('k, 'p) outside \<Rightarrow> config \<Rightarrow> 'k \<Rightarrow> worker \<Rightarrow> 'p machine \<Rightarrow> worker \<times> 'p machine" where
  "worker_step F cfg key w m =
     (let f = wkFrame w; path = wkPath w in
      case wkStage w of
        Announcing \<Rightarrow> at_stage Fetching (w, send (status_frame (pJobID f) ''printing'' []) m)
      | Fetching \<Rightarrow>
          (case fetchBlob F (pBlobURL f) m of
             (Inl e, m1) \<Rightarrow> at_stage (failing ''fetch blob: '' e) (w, m1)
           | (Inr blob, m1) \<Rightarrow> at_stage (Decoding blob) (hold_buffer blob (w, m1)))
      | Decoding blob \<Rightarrow>
          (case StdDecode (pEncryptedKey f) of
             None \<Rightarrow> at_stage (Returning (Inl (Err ''decode encrypted_key''))) (w, m)
           | Some ek \<Rightarrow> at_stage (Unwrapping blob ek) (hold_buffer ek (w, m)))
      | Unwrapping blob ek \<Rightarrow>
          (case DecryptAESKey (prims F) key ek of
             Inl e \<Rightarrow> at_stage (failing ''unwrap AES key: '' e) (w, m)
           | Inr ak \<Rightarrow> at_stage (Opening blob ak) (hold_buffer ak (w, m)))
      | Opening blob ak \<Rightarrow>
          (case DecryptDocument (prims F) blob ak of
             Inl e \<Rightarrow> at_stage (failing ''decrypt document: '' e) (w, m)
           | Inr pdf \<Rightarrow> at_stage (Writing pdf) (hold_buffer pdf (w, m)))
      | Writing pdf \<Rightarrow>
          (case WriteFile F path pdf m of
             (Inl e, m1) \<Rightarrow> at_stage (failing ''write tmpfs: '' e) (w, m1)
           | (Inr _, m1) \<Rightarrow> at_stage (Printing pdf) (w, m1))
      | Printing pdf \<Rightarrow>
          (case (if cfDevMode cfg then (Inr (), m) else printDocument F (cfPrinterName cfg) path m) of
             (Inl e, m1) \<Rightarrow> at_stage (Discarding e) (w, m1)
           | (Inr _, m1) \<Rightarrow> at_stage Unlinking (w, m1))
      | Discarding e \<Rightarrow> at_stage (failing ''print: '' e) (w, snd (Remove F path m))
      | Unlinking \<Rightarrow>
          (case Remove F path m of
             (Inl e, m1) \<Rightarrow> at_stage (failing ''remove tmpfs: '' e) (w, m1)
           | (Inr _, m1) \<Rightarrow> at_stage (Returning (Inr ())) (w, m1))
      | Returning r \<Rightarrow>
          (case wkBufs w of
             [] \<Rightarrow> at_stage (Reporting r) (w, m)
           | a # as \<Rightarrow> wipe a (w\<lparr>wkBufs := as\<rparr>, m))
      | Reporting r \<Rightarrow>
          (case r of
             Inl e \<Rightarrow> at_stage (Finished r) (w, send (status_frame (pJobID f) ''failed'' ''processing failed'') m)
           | Inr _ \<Rightarrow> at_stage Counting (w, send (status_frame (pJobID f) ''delivered'' []) m))
      | Counting \<Rightarrow>
          (case recordDelivery (ssSlotID (pslots m)) (pslots m) of
             (now, s') \<Rightarrow> at_stage (Telling now) (w, m\<lparr>pslots := s'\<rparr>))
      | Telling now \<Rightarrow> at_stage (Finished (Inr ())) (w, send (state_frame (fst now) (snd now)) m)
      | Finished r \<Rightarrow> (w, m))"

section \<open>The process\<close>

text \<open>
  A dispatch frame starts a worker, any worker makes a step, the keepalive loop sends the state, and
  the world outside goes on.
\<close>

inductive printer_step :: "('k, 'p) outside \<Rightarrow> config \<Rightarrow> 'k \<Rightarrow> 'p machine \<times> worker list
    \<Rightarrow> 'p machine \<times> worker list \<Rightarrow> bool" for F cfg key where
  Receive: "pType f = ''dispatch'' \<Longrightarrow> printer_step F cfg key (m, ws) (m, ws @ [new_worker f])"
| Work: "i < length ws \<Longrightarrow> worker_step F cfg key (ws ! i) m = (w', m') \<Longrightarrow>
    printer_step F cfg key (m, ws) (m', ws[i := w'])"
| Heartbeat: "printer_step F cfg key (m, ws)
    (send (state_frame (fst (snapshot (pslots m))) (snd (snapshot (pslots m)))) m, ws)"
| Outside: "printer_step F cfg key (m, ws) (m\<lparr>pext := p\<rparr>, ws)"

inductive_cases printer_stepE: "printer_step F cfg key (m, ws) (m', ws')"

lemmas worker_defs = worker_step_def at_stage_def hold_buffer_def failing_def Let_def

lemmas worker_splits = prod.splits sum.splits option.splits list.splits

text \<open>One goroutine left alone.\<close>

abbreviation runs :: "('k, 'p) outside \<Rightarrow> config \<Rightarrow> 'k \<Rightarrow> worker \<times> 'p machine \<Rightarrow> worker \<times> 'p machine \<Rightarrow> bool" where
  "runs F cfg key \<equiv> (\<lambda>wm wm'. wm' = worker_step F cfg key (fst wm) (snd wm))\<^sup>*\<^sup>*"

lemma runs_step:
  "worker_step F cfg key w m = wm \<Longrightarrow> runs F cfg key wm wm' \<Longrightarrow> runs F cfg key (w, m) wm'"
  by (rule converse_rtranclp_into_rtranclp) simp_all

lemma runs_printer:
  assumes "runs F cfg key wm wm'"
  shows "(printer_step F cfg key)\<^sup>*\<^sup>* (snd wm, ws @ fst wm # ws') (snd wm', ws @ fst wm' # ws')"
  using assms
proof induction
  case (step y z)
  have "printer_step F cfg key (snd y, ws @ fst y # ws') (snd z, (ws @ fst y # ws')[length ws := fst z])"
    using step.hyps by (intro printer_step.Work) simp_all
  with step.IH show ?case by (simp add: rtranclp.rtrancl_into_rtrancl)
qed simp

section \<open>One worker alone is the sequential job\<close>

fun unwind :: "nat list \<Rightarrow> 'p machine \<Rightarrow> 'p machine" where
  "unwind [] m = m"
| "unwind (a # as) m = unwind as (m\<lparr>mem := (mem m)[a := zeroBytes (mem m ! a)]\<rparr>)"

lemma runs_returning:
  "wkStage w = Returning r \<Longrightarrow>
   runs F cfg key (w, m) (w\<lparr>wkStage := Reporting r, wkBufs := []\<rparr>, unwind (wkBufs w) m)"
proof (induction "wkBufs w" arbitrary: w m)
  case Nil
  then have "worker_step F cfg key w m = (w\<lparr>wkStage := Reporting r, wkBufs := []\<rparr>, m)"
    by (simp add: worker_defs)
  then have "runs F cfg key (w, m) (w\<lparr>wkStage := Reporting r, wkBufs := []\<rparr>, m)" by (rule runs_step) simp
  then show ?case using Nil.hyps [symmetric] by simp
next
  case (Cons a as)
  let ?w = "w\<lparr>wkBufs := as\<rparr>" and ?m = "m\<lparr>mem := (mem m)[a := zeroBytes (mem m ! a)]\<rparr>"
  have "worker_step F cfg key w m = (?w, ?m)"
    using Cons.prems Cons.hyps(2) [symmetric] by (simp add: worker_defs wipe_def)
  moreover have "runs F cfg key (?w, ?m) (w\<lparr>wkStage := Reporting r, wkBufs := []\<rparr>, unwind (wkBufs w) m)"
    using Cons.hyps(1) [of ?w ?m] Cons.prems Cons.hyps(2) [symmetric] by simp
  ultimately show ?case by (rule runs_step)
qed

text \<open>The worker reports the result of a computation with every buffer it held unwound.\<close>

definition reports :: "('k, 'p) outside \<Rightarrow> config \<Rightarrow> 'k \<Rightarrow> worker \<Rightarrow> 'p machine \<Rightarrow> unit res \<times> 'p machine \<Rightarrow> bool" where
  "reports F cfg key w m rm \<longleftrightarrow>
     runs F cfg key (w, m) (w\<lparr>wkStage := Reporting (fst rm), wkBufs := []\<rparr>, unwind (wkBufs w) (snd rm))"

lemma reports_return:
  "wkStage w = Returning r \<Longrightarrow> reports F cfg key w m (r, m)"
  by (simp add: reports_def runs_returning)

lemma reports_step:
  "worker_step F cfg key w m = (w', m') \<Longrightarrow> wkFrame w' = wkFrame w \<Longrightarrow> wkBufs w' = wkBufs w \<Longrightarrow>
   reports F cfg key w' m' rm \<Longrightarrow> reports F cfg key w m rm"
  unfolding reports_def by (cases w; cases w') (auto intro: runs_step)

lemma reports_hold:
  "worker_step F cfg key w m = (w', m') \<Longrightarrow> wkFrame w' = wkFrame w \<Longrightarrow> wkBufs w' = a # wkBufs w \<Longrightarrow>
   reports F cfg key w' m' rm \<Longrightarrow> reports F cfg key w m (wipe a rm)"
  unfolding reports_def by (cases w; cases w'; cases rm) (auto simp: wipe_def intro: runs_step)

lemma reports_print:
  assumes "wkStage w = Writing pdf"
  shows "reports F cfg key w m (print_plain F cfg (wkFrame w) pdf m)"
proof -
  let ?p = "wkPath w"
  have ret: "reports F cfg key w m (r, m')" if "worker_step F cfg key w m = (w\<lparr>wkStage := Returning r\<rparr>, m')" for w m r m'
    using that by (intro reports_step [OF that]) (simp_all add: reports_return)
  obtain r1 m1 where 1: "WriteFile F ?p pdf m = (r1, m1)" by fastforce
  show ?thesis
  proof (cases r1)
    case (Inl e)
    then show ?thesis using assms 1
      by (auto simp: print_plain_def wkPath_def worker_defs intro!: ret)
  next
    case (Inr u)
    let ?w1 = "w\<lparr>wkStage := Printing pdf\<rparr>"
    have s1: "worker_step F cfg key w m = (?w1, m1)" using assms 1 Inr by (simp add: worker_defs)
    obtain r2 m2 where 2: "(if cfDevMode cfg then (Inr (), m1) else printDocument F (cfPrinterName cfg) ?p m1) = (r2, m2)"
      by fastforce
    obtain r3 m3 where 3: "Remove F ?p m2 = (r3, m3)" by fastforce
    let ?w2 = "w\<lparr>wkStage := (case r2 of Inl e \<Rightarrow> Discarding e | Inr _ \<Rightarrow> Unlinking)\<rparr>"
    have s2: "worker_step F cfg key ?w1 m1 = (?w2, m2)"
      using 2 by (cases r2; cases "cfDevMode cfg") (simp_all add: worker_defs wkPath_def)
    let ?r = "case r2 of Inl e \<Rightarrow> Inl (Err (''print: '' @ err_text e)) | Inr _ \<Rightarrow>
      (case r3 of Inl e \<Rightarrow> Inl (Err (''remove tmpfs: '' @ err_text e)) | Inr _ \<Rightarrow> Inr ())"
    have s3: "worker_step F cfg key ?w2 m2 = (w\<lparr>wkStage := Returning ?r\<rparr>, m3)"
      using 3 by (cases r2; cases r3) (simp_all add: worker_defs wkPath_def)
    have "print_plain F cfg (wkFrame w) pdf m = (?r, m3)"
      using 1 2 3 Inr by (cases r2; cases r3; cases "cfDevMode cfg") (simp_all add: print_plain_def wkPath_def Let_def)
    moreover have "reports F cfg key ?w2 m2 (?r, m3)" using ret [of ?w2 m2 ?r m3] s3 by simp
    ultimately show ?thesis using reports_step [OF s1] reports_step [OF s2] by simp
  qed
qed

lemma reports_stage4:
  "wkStage w = Opening blob ak \<Longrightarrow> wkFrame w = f \<Longrightarrow> reports F cfg key w m
     (case DecryptDocument (prims F) blob ak of
        Inl e \<Rightarrow> (Inl (Err (''decrypt document: '' @ err_text e)), m)
      | Inr pdf \<Rightarrow> stage4 F cfg f pdf m)"
proof (cases "DecryptDocument (prims F) blob ak")
  case (Inl e)
  assume "wkStage w = Opening blob ak" "wkFrame w = f"
  with Inl have "worker_step F cfg key w m = (w\<lparr>wkStage := failing ''decrypt document: '' e\<rparr>, m)" by (simp add: worker_defs)
  from reports_step [OF this _ _ reports_return] Inl show ?thesis by (simp add: failing_def)
next
  case (Inr pdf)
  assume o: "wkStage w = Opening blob ak" "wkFrame w = f"
  obtain a m1 where a: "alloc pdf m = (a, m1)" by fastforce
  let ?w = "w\<lparr>wkStage := Writing pdf, wkBufs := a # wkBufs w\<rparr>"
  have "worker_step F cfg key w m = (?w, m1)" using o Inr a by (simp add: worker_defs)
  from reports_hold [OF this _ _ reports_print] a Inr o(2) show ?thesis by (simp add: stage4_def)
qed

lemma reports_stage3:
  "wkStage w = Unwrapping blob ek \<Longrightarrow> wkFrame w = f \<Longrightarrow> reports F cfg key w m
     (case DecryptAESKey (prims F) key ek of
        Inl e \<Rightarrow> (Inl (Err (''unwrap AES key: '' @ err_text e)), m)
      | Inr ak \<Rightarrow> stage3 F cfg f blob ak m)"
proof (cases "DecryptAESKey (prims F) key ek")
  case (Inl e)
  assume "wkStage w = Unwrapping blob ek" "wkFrame w = f"
  with Inl have "worker_step F cfg key w m = (w\<lparr>wkStage := failing ''unwrap AES key: '' e\<rparr>, m)" by (simp add: worker_defs)
  from reports_step [OF this _ _ reports_return] Inl show ?thesis by (simp add: failing_def)
next
  case (Inr ak)
  assume o: "wkStage w = Unwrapping blob ek" "wkFrame w = f"
  obtain a m1 where a: "alloc ak m = (a, m1)" by fastforce
  let ?w = "w\<lparr>wkStage := Opening blob ak, wkBufs := a # wkBufs w\<rparr>"
  have "worker_step F cfg key w m = (?w, m1)" using o Inr a by (simp add: worker_defs)
  from o(2) reports_hold [OF this _ _ reports_stage4 [of ?w blob ak f F cfg key m1]] a Inr show ?thesis by (simp add: stage3_def)
qed

lemma reports_stage2:
  "wkStage w = Decoding blob \<Longrightarrow> wkFrame w = f \<Longrightarrow> reports F cfg key w m
     (case StdDecode (pEncryptedKey f) of
        None \<Rightarrow> (Inl (Err ''decode encrypted_key''), m)
      | Some ek \<Rightarrow> stage2 F cfg key f blob ek m)"
proof (cases "StdDecode (pEncryptedKey f)")
  case None
  assume "wkStage w = Decoding blob" "wkFrame w = f"
  with None have "worker_step F cfg key w m = (w\<lparr>wkStage := Returning (Inl (Err ''decode encrypted_key''))\<rparr>, m)"
    by (simp add: worker_defs)
  from reports_step [OF this _ _ reports_return] None show ?thesis by simp
next
  case (Some ek)
  assume o: "wkStage w = Decoding blob" "wkFrame w = f"
  obtain a m1 where a: "alloc ek m = (a, m1)" by fastforce
  let ?w = "w\<lparr>wkStage := Unwrapping blob ek, wkBufs := a # wkBufs w\<rparr>"
  have "worker_step F cfg key w m = (?w, m1)" using o Some a by (simp add: worker_defs)
  from o(2) reports_hold [OF this _ _ reports_stage3 [of ?w blob ek f F cfg key m1]] a Some show ?thesis by (simp add: stage2_def)
qed

lemma reports_processJob:
  assumes "wkStage w = Fetching" "wkFrame w = f"
  shows "reports F cfg key w m (processJob F cfg key f m)"
proof -
  obtain r m1 where r: "fetchBlob F (pBlobURL f) m = (r, m1)" by fastforce
  show ?thesis
  proof (cases r)
    case (Inl e)
    then have "worker_step F cfg key w m = (w\<lparr>wkStage := failing ''fetch blob: '' e\<rparr>, m1)"
      using assms r by (simp add: worker_defs)
    from reports_step [OF this _ _ reports_return] r Inl show ?thesis by (simp add: failing_def processJob_stages)
  next
    case (Inr blob)
    obtain a m2 where a: "alloc blob m1 = (a, m2)" by fastforce
    let ?w = "w\<lparr>wkStage := Decoding blob, wkBufs := a # wkBufs w\<rparr>"
    have "worker_step F cfg key w m = (?w, m2)" using assms r Inr a by (simp add: worker_defs)
    from assms(2) reports_hold [OF this _ _ reports_stage2 [of ?w blob f F cfg key m2]] a Inr r show ?thesis by (simp add: stage1_def processJob_stages)
  qed
qed

text \<open>A worker left alone does exactly what \<^verbatim>\<open>handleDispatch\<close> does, and finishes.\<close>

lemma worker_handles:
  "\<exists>r. runs F cfg key (new_worker f, m)
     (\<lparr>wkFrame = f, wkStage = Finished r, wkBufs = []\<rparr>, handleDispatch F cfg key f m)"
proof -
  let ?m1 = "send (status_frame (pJobID f) ''printing'' []) m" and ?w1 = "\<lparr>wkFrame = f, wkStage = Fetching, wkBufs = []\<rparr>"
  obtain r m2 where p: "processJob F cfg key f ?m1 = (r, m2)" by fastforce
  let ?w2 = "\<lparr>wkFrame = f, wkStage = Reporting r, wkBufs = []\<rparr>"
  have 1: "worker_step F cfg key (new_worker f) m = (?w1, ?m1)" by (simp add: worker_defs new_worker_def)
  have 2: "runs F cfg key (?w1, ?m1) (?w2, m2)"
    using reports_processJob [of ?w1 f F cfg key ?m1] p by (simp add: reports_def)
  have 3: "\<exists>r'. runs F cfg key (?w2, m2) (\<lparr>wkFrame = f, wkStage = Finished r', wkBufs = []\<rparr>, handleDispatch F cfg key f m)"
  proof (cases r)
    case (Inl e)
    have "worker_step F cfg key ?w2 m2 = (\<lparr>wkFrame = f, wkStage = Finished r, wkBufs = []\<rparr>, handleDispatch F cfg key f m)"
      using Inl p by (simp add: worker_defs handleDispatch_def)
    then show ?thesis by (blast intro: runs_step)
  next
    case (Inr u)
    let ?m3 = "send (status_frame (pJobID f) ''delivered'' []) m2"
    obtain now s' where now: "recordDelivery (ssSlotID (pslots ?m3)) (pslots ?m3) = (now, s')" by fastforce
    have a: "worker_step F cfg key ?w2 m2 = (\<lparr>wkFrame = f, wkStage = Counting, wkBufs = []\<rparr>, ?m3)"
      using Inr by (simp add: worker_defs)
    have b: "worker_step F cfg key \<lparr>wkFrame = f, wkStage = Counting, wkBufs = []\<rparr> ?m3 =
        (\<lparr>wkFrame = f, wkStage = Telling now, wkBufs = []\<rparr>, ?m3\<lparr>pslots := s'\<rparr>)"
      using now by (simp add: worker_defs)
    have c: "worker_step F cfg key \<lparr>wkFrame = f, wkStage = Telling now, wkBufs = []\<rparr> (?m3\<lparr>pslots := s'\<rparr>) =
        (\<lparr>wkFrame = f, wkStage = Finished (Inr ()), wkBufs = []\<rparr>, handleDispatch F cfg key f m)"
      using p Inr now by (cases now) (simp add: worker_defs handleDispatch_def)
    show ?thesis using runs_step [OF a runs_step [OF b runs_step [OF c]]] by blast
  qed
  then show ?thesis using runs_step [OF 1] rtranclp_trans [OF 2] by blast
qed

lemma handleDispatch_path:
  assumes "pType f = ''dispatch''"
  shows "\<exists>r. (printer_step F cfg key)\<^sup>*\<^sup>* (m, ws)
     (handleDispatch F cfg key f m, ws @ [\<lparr>wkFrame = f, wkStage = Finished r, wkBufs = []\<rparr>])"
proof -
  obtain r where "runs F cfg key (new_worker f, m)
      (\<lparr>wkFrame = f, wkStage = Finished r, wkBufs = []\<rparr>, handleDispatch F cfg key f m)"
    using worker_handles [of F cfg key f m] by (elim exE)
  from runs_printer [OF this, of ws "[]"]
    converse_rtranclp_into_rtranclp [where r = "printer_step F cfg key", OF printer_step.Receive [OF assms, of F cfg key m ws]]
  show ?thesis by auto
qed

section \<open>Buffers\<close>

text \<open>A worker is inside \<^verbatim>\<open>processJob\<close> while it may hold buffers; outside it holds none.\<close>

fun inside :: "wstage \<Rightarrow> bool" where
  "inside Announcing = False"
| "inside Fetching = False"
| "inside (Reporting r) = False"
| "inside Counting = False"
| "inside (Telling now) = False"
| "inside (Finished r) = False"
| "inside _ = True"

definition buffers_ok :: "'p machine \<times> worker list \<Rightarrow> bool" where
  "buffers_ok mws \<longleftrightarrow> (case mws of (m, ws) \<Rightarrow>
     (\<forall>w\<in>set ws. \<not> inside (wkStage w) \<longrightarrow> wkBufs w = []) \<and>
     (\<forall>a<length (mem m). all_zero (mem m ! a) \<or> (\<exists>w\<in>set ws. a \<in> set (wkBufs w))))"

lemma worker_fetches:
  assumes "wkStage w = Fetching" "worker_step F cfg key w m = (w', m')" "fetchBlob F (pBlobURL (wkFrame w)) m = (r, m1)"
  shows "(\<exists>e. w' = w\<lparr>wkStage := failing ''fetch blob: '' e\<rparr> \<and> m' = m1) \<or>
    (\<exists>b. w' = w\<lparr>wkStage := Decoding b, wkBufs := length (mem m1) # wkBufs w\<rparr> \<and> m' = m1\<lparr>mem := mem m1 @ [b]\<rparr>)"
proof (cases r)
  case (Inr b)
  then have "w' = w\<lparr>wkStage := Decoding b, wkBufs := length (mem m1) # wkBufs w\<rparr> \<and> m' = m1\<lparr>mem := mem m1 @ [b]\<rparr>"
    using assms by (cases w) (simp add: worker_defs alloc_def)
  then show ?thesis by blast
qed (use assms in \<open>auto simp: worker_defs\<close>)

text \<open>Decoding, unwrapping and opening only compute, and keep the result in a new buffer.\<close>

fun computing :: "wstage \<Rightarrow> bool" where
  "computing (Decoding blob) = True"
| "computing (Unwrapping blob ek) = True"
| "computing (Opening blob ak) = True"
| "computing _ = False"

lemma worker_computes:
  assumes "computing (wkStage w)" "worker_step F cfg key w m = (w', m')"
  shows "(\<exists>e. w' = w\<lparr>wkStage := Returning (Inl e)\<rparr> \<and> m' = m) \<or>
    (\<exists>b st. w' = w\<lparr>wkStage := st, wkBufs := length (mem m) # wkBufs w\<rparr> \<and> m' = m\<lparr>mem := mem m @ [b]\<rparr> \<and>
       (computing st \<or> (\<exists>pdf. st = Writing pdf)))"
proof -
  have held: "at_stage st (hold_buffer b (w, m)) =
      (w\<lparr>wkStage := st, wkBufs := length (mem m) # wkBufs w\<rparr>, m\<lparr>mem := mem m @ [b]\<rparr>)" for st b
    by (cases w) (simp add: at_stage_def hold_buffer_def alloc_def)
  have "(\<exists>e. worker_step F cfg key w m = (w\<lparr>wkStage := Returning (Inl e)\<rparr>, m)) \<or>
    (\<exists>b st. worker_step F cfg key w m = at_stage st (hold_buffer b (w, m)) \<and> (computing st \<or> (\<exists>pdf. st = Writing pdf)))"
  proof (cases "wkStage w")
    case (Decoding blob)
    show ?thesis
    proof (cases "StdDecode (pEncryptedKey (wkFrame w))")
      case None
      then have "worker_step F cfg key w m = (w\<lparr>wkStage := Returning (Inl (Err ''decode encrypted_key''))\<rparr>, m)"
        using Decoding by (simp add: worker_step_def at_stage_def failing_def)
      then show ?thesis by blast
    next
      case (Some ek)
      have "worker_step F cfg key w m = at_stage (Unwrapping blob ek) (hold_buffer ek (w, m))" using Decoding Some by (simp add: worker_step_def)
      moreover have "computing (Unwrapping blob ek) \<or> (\<exists>pdf. Unwrapping blob ek = Writing pdf)" by simp
      ultimately show ?thesis by blast
    qed
  next
    case (Unwrapping blob ek)
    show ?thesis
    proof (cases "DecryptAESKey (prims F) key ek")
      case (Inl e)
      then have "worker_step F cfg key w m = (w\<lparr>wkStage := Returning (Inl (Err (''unwrap AES key: '' @ err_text e)))\<rparr>, m)"
        using Unwrapping by (simp add: worker_step_def at_stage_def failing_def)
      then show ?thesis by blast
    next
      case (Inr ak)
      have "worker_step F cfg key w m = at_stage (Opening blob ak) (hold_buffer ak (w, m))" using Unwrapping Inr by (simp add: worker_step_def)
      moreover have "computing (Opening blob ak) \<or> (\<exists>pdf. Opening blob ak = Writing pdf)" by simp
      ultimately show ?thesis by blast
    qed
  next
    case (Opening blob ak)
    show ?thesis
    proof (cases "DecryptDocument (prims F) blob ak")
      case (Inl e)
      then have "worker_step F cfg key w m = (w\<lparr>wkStage := Returning (Inl (Err (''decrypt document: '' @ err_text e)))\<rparr>, m)"
        using Opening by (simp add: worker_step_def at_stage_def failing_def)
      then show ?thesis by blast
    next
      case (Inr pdf)
      have "worker_step F cfg key w m = at_stage (Writing pdf) (hold_buffer pdf (w, m))" using Opening Inr by (simp add: worker_step_def)
      moreover have "computing (Writing pdf) \<or> (\<exists>pdf. Writing pdf = Writing pdf)" by simp
      ultimately show ?thesis by blast
    qed
  qed (use assms(1) in simp_all)
  then show ?thesis unfolding held assms(2) prod.inject by (simp only: conj_assoc)
qed

text \<open>What one step does to memory: a new buffer the worker holds, one it wipes, or nothing.\<close>

lemma worker_memory:
  assumes "worker_step F cfg key w m = (w', m')" "\<not> inside (wkStage w) \<longrightarrow> wkBufs w = []"
  shows "(\<not> inside (wkStage w') \<longrightarrow> wkBufs w' = []) \<and>
    (mem m' = mem m \<and> wkBufs w' = wkBufs w \<or>
     (\<exists>b. mem m' = mem m @ [b] \<and> wkBufs w' = length (mem m) # wkBufs w) \<or>
     (\<exists>a. mem m' = (mem m)[a := zeroBytes (mem m ! a)] \<and> wkBufs w = a # wkBufs w'))"
proof (cases "wkStage w")
  case Fetching
  obtain r m1 where r: "fetchBlob F (pBlobURL (wkFrame w)) m = (r, m1)" by fastforce
  then have "mem m1 = mem m" using steps_mem(1) [of F "pBlobURL (wkFrame w)" m] by simp
  with worker_fetches [OF Fetching assms(1) r] show ?thesis
    by (elim disjE exE conjE) (simp_all add: failing_def)
next
  case (Writing pdf)
  obtain r m1 where r: "WriteFile F (wkPath w) pdf m = (r, m1)" by fastforce
  then have "mem m1 = mem m" using steps_mem(2) [of F "wkPath w" pdf m] by simp
  with assms Writing r show ?thesis by (cases r) (auto simp: worker_defs)
next
  case (Printing pdf)
  obtain r m1 where r: "(if cfDevMode cfg then (Inr (), m) else printDocument F (cfPrinterName cfg) (wkPath w) m) = (r, m1)" by fastforce
  then have "mem m1 = mem m" using steps_mem(4) [of F "cfPrinterName cfg" "wkPath w" m]
    by (cases "cfDevMode cfg") simp_all
  with assms Printing r show ?thesis by (cases r) (auto simp: worker_defs)
next
  case Unlinking
  obtain r m1 where r: "Remove F (wkPath w) m = (r, m1)" by fastforce
  then have "mem m1 = mem m" using steps_mem(3) [of F "wkPath w" m] by simp
  with assms Unlinking r show ?thesis by (cases r) (auto simp: worker_defs)
qed (use assms in \<open>auto simp: worker_defs alloc_def wipe_def split: worker_splits\<close>)

lemma set_nth_split:
  assumes "i < length ws"
  shows "set ws = insert (ws ! i) (set (take i ws) \<union> set (drop (Suc i) ws))"
    "set (ws[i := w]) = insert w (set (take i ws) \<union> set (drop (Suc i) ws))"
proof -
  have "set ws = set (take i ws @ ws ! i # drop (Suc i) ws)" using id_take_nth_drop [OF assms] by simp
  then show "set ws = insert (ws ! i) (set (take i ws) \<union> set (drop (Suc i) ws))"
    by (simp only: set_append list.set Un_insert_right)
  show "set (ws[i := w]) = insert w (set (take i ws) \<union> set (drop (Suc i) ws))"
    by (simp only: upd_conv_take_nth_drop [OF assms] set_append list.set Un_insert_right)
qed

lemma buffers_step: "printer_step F cfg key mws mws' \<Longrightarrow> buffers_ok mws \<Longrightarrow> buffers_ok mws'"
proof (induction rule: printer_step.induct)
  case (Work i ws m w' m')
  let ?w = "ws ! i"
  have held: "\<not> inside (wkStage ?w) \<longrightarrow> wkBufs ?w = []" using Work.hyps(1) Work.prems by (simp add: buffers_ok_def)
  note mem = worker_memory [OF Work.hyps(2) held]
  note old = set_nth_split(1) [OF Work.hyps(1)] and upd = set_nth_split(2) [OF Work.hyps(1), of w']
  have "all_zero (mem m' ! a) \<or> (\<exists>v\<in>set (ws[i := w']). a \<in> set (wkBufs v))" if a: "a < length (mem m')" for a
  proof -
    have was: "all_zero (mem m ! a) \<or> a \<in> set (wkBufs ?w) \<or> (\<exists>v\<in>set (take i ws) \<union> set (drop (Suc i) ws). a \<in> set (wkBufs v))"
      if "a < length (mem m)"
    proof -
      have "all_zero (mem m ! a) \<or> (\<exists>v\<in>set ws. a \<in> set (wkBufs v))" using Work.prems that by (simp add: buffers_ok_def)
      then show ?thesis unfolding old by auto
    qed
    from mem show ?thesis
    proof (elim conjE disjE exE)
      fix b assume "mem m' = mem m @ [b]" "wkBufs w' = length (mem m) # wkBufs ?w"
      with a was show ?thesis unfolding upd by (cases "a = length (mem m)") (auto simp: nth_append)
    next
      fix k assume "mem m' = (mem m)[k := zeroBytes (mem m ! k)]" "wkBufs ?w = k # wkBufs w'"
      with a was show ?thesis unfolding upd by (cases "a = k") auto
    qed (use a was in \<open>auto simp: upd\<close>)
  qed
  moreover have "\<forall>v\<in>set (ws[i := w']). \<not> inside (wkStage v) \<longrightarrow> wkBufs v = []"
    using Work.prems mem unfolding buffers_ok_def upd by (auto dest: in_set_takeD in_set_dropD)
  ultimately show ?case by (simp add: buffers_ok_def)
qed (auto simp: buffers_ok_def new_worker_def send_def)

lemma buffers_steps: "(printer_step F cfg key)\<^sup>*\<^sup>* mws mws' \<Longrightarrow> buffers_ok mws \<Longrightarrow> buffers_ok mws'"
  by (induction rule: rtranclp_induct) (blast intro: buffers_step)+

section \<open>Files\<close>

text \<open>A worker writes and removes no file but its own.\<close>

lemma file_ops_other:
  assumes "q \<noteq> p"
  shows "files (snd (WriteFile F p b m)) q = files m q" "files (snd (Remove F p m)) q = files m q"
proof -
  obtain r x where w: "os_write F p (pext m) = (r, x)" by fastforce
  then show "files (snd (WriteFile F p b m)) q = files m q" using assms by (cases r) (simp_all add: WriteFile_def)
  obtain d x where "os_remove F p (pext m) = (d, x)" by fastforce
  then show "files (snd (Remove F p m)) q = files m q"
    using assms by (cases d; cases "files m p = None") (simp_all add: Remove_def)
qed

lemma files_kept [simp]: "files (snd (printDocument F n p m)) = files m" "files (send fr m) = files m"
  by (simp_all add: printDocument_def send_def split: prod.splits)

lemma file_ops_done:
  "WriteFile F p b m = (Inr u, m') \<Longrightarrow> files m' p = Some b" "Remove F p m = (Inr u, m') \<Longrightarrow> files m' p = None"
proof -
  obtain r x where "os_write F p (pext m) = (r, x)" by fastforce
  then show "WriteFile F p b m = (Inr u, m') \<Longrightarrow> files m' p = Some b" by (cases r) (auto simp: WriteFile_def)
  obtain d y where "os_remove F p (pext m) = (d, y)" by fastforce
  then show "Remove F p m = (Inr u, m') \<Longrightarrow> files m' p = None"
    by (cases d; cases "files m p = None") (auto simp: Remove_def)
qed

text \<open>The stages a worker reaches only once its plaintext file is gone.\<close>

fun delivering :: "wstage \<Rightarrow> bool" where
  "delivering (Returning (Inr _)) = True"
| "delivering (Reporting (Inr _)) = True"
| "delivering Counting = True"
| "delivering (Telling _) = True"
| "delivering (Finished (Inr _)) = True"
| "delivering _ = False"

definition file_ok :: "(string \<Rightarrow> bytes option) \<Rightarrow> worker \<Rightarrow> bool" where
  "file_ok fs w \<longleftrightarrow> (\<forall>pdf. wkStage w = Printing pdf \<longrightarrow> fs (wkPath w) = Some pdf) \<and>
     (delivering (wkStage w) \<longrightarrow> fs (wkPath w) = None)"

lemma worker_files:
  assumes "worker_step F cfg key w m = (w', m')"
  shows "wkFrame w' = wkFrame w \<and> (\<forall>q. q \<noteq> wkPath w \<longrightarrow> files m' q = files m q) \<and>
    (file_ok (files m) w \<longrightarrow> file_ok (files m') w')" (is ?P)
proof -
  have quiet: ?P if "wkFrame w' = wkFrame w" "files m' = files m" "\<And>pdf. wkStage w' \<noteq> Printing pdf"
    "delivering (wkStage w') \<Longrightarrow> delivering (wkStage w)"
    using that by (simp add: file_ok_def wkPath_def)
  have pure: ?P if computing: "computing (wkStage w)"
  proof -
    have st: "\<not> delivering st \<and> (\<forall>pdf. st \<noteq> Printing pdf)" if "computing st \<or> (\<exists>pdf. st = Writing pdf)" for st
      using that by (cases st) simp_all
    consider e where "w' = w\<lparr>wkStage := Returning (Inl e)\<rparr>" "m' = m"
      | b st where "w' = w\<lparr>wkStage := st, wkBufs := length (mem m) # wkBufs w\<rparr>" "m' = m\<lparr>mem := mem m @ [b]\<rparr>"
        "computing st \<or> (\<exists>pdf. st = Writing pdf)"
      using worker_computes [OF computing assms] by blast
    then show ?P
    proof cases
      case 2
      with st show ?P by (intro quiet) simp_all
    qed (intro quiet; simp)
  qed
  show ?P
proof (cases "wkStage w")
  case Fetching
  obtain r m1 where r: "fetchBlob F (pBlobURL (wkFrame w)) m = (r, m1)" by fastforce
  then have "files m1 = files m" using fetchBlob_files [of F "pBlobURL (wkFrame w)" m] by simp
  with worker_fetches [OF Fetching assms r] show ?thesis
    by (elim disjE exE conjE) (simp_all add: file_ok_def failing_def wkPath_def)
next
  case (Writing pdf)
  obtain r m1 where r: "WriteFile F (wkPath w) pdf m = (r, m1)" by fastforce
  have "\<forall>q. q \<noteq> wkPath w \<longrightarrow> files m1 q = files m q"
    using file_ops_other(1) [where F = F and b = pdf and m = m and p = "wkPath w"] r by simp
  with assms Writing r file_ops_done(1) [of F "wkPath w" pdf m] show ?thesis
    by (cases r) (auto simp: worker_defs file_ok_def wkPath_def)
next
  case (Printing pdf)
  obtain r m1 where r: "(if cfDevMode cfg then (Inr (), m) else printDocument F (cfPrinterName cfg) (wkPath w) m) = (r, m1)" by fastforce
  then have "files m1 = files m" using files_kept(1) [of F "cfPrinterName cfg" "wkPath w" m]
    by (cases "cfDevMode cfg") simp_all
  with assms Printing r show ?thesis by (cases r) (auto simp: worker_defs file_ok_def)
next
  case (Discarding e)
  with assms file_ops_other(2) [where F = F and m = m and p = "wkPath w"] show ?thesis
    by (auto simp: worker_defs file_ok_def)
next
  case Unlinking
  obtain r m1 where r: "Remove F (wkPath w) m = (r, m1)" by fastforce
  have "\<forall>q. q \<noteq> wkPath w \<longrightarrow> files m1 q = files m q"
    using file_ops_other(2) [where F = F and m = m and p = "wkPath w"] r by simp
  with assms Unlinking r file_ops_done(2) [of F "wkPath w" m] show ?thesis
    by (cases r) (auto simp: worker_defs file_ok_def wkPath_def)
next
  case (Returning r)
  show ?thesis by (rule quiet; use assms Returning in \<open>cases r; force simp: worker_defs wipe_def split: list.splits\<close>)
next
  case (Reporting r)
  show ?thesis by (rule quiet; use assms Reporting in \<open>cases r; force simp: worker_defs\<close>)
next
  case Counting
  show ?thesis by (rule quiet; use assms Counting in \<open>force simp: worker_defs split: prod.splits\<close>)
next
  case (Decoding b)
  then show ?thesis by (intro pure) simp
next
  case (Unwrapping b ek)
  then show ?thesis by (intro pure) simp
next
  case (Opening b ak)
  then show ?thesis by (intro pure) simp
qed (rule quiet; use assms in \<open>force simp: worker_defs\<close>)+
qed

text \<open>As long as no two jobs share a file, no worker disturbs another.\<close>

definition files_ok :: "'p machine \<times> worker list \<Rightarrow> bool" where
  "files_ok mws \<longleftrightarrow> (case mws of (m, ws) \<Rightarrow> distinct (map wkPath ws) \<longrightarrow> (\<forall>w\<in>set ws. file_ok (files m) w))"

lemma files_step: "printer_step F cfg key mws mws' \<Longrightarrow> files_ok mws \<Longrightarrow> files_ok mws'"
proof (induction rule: printer_step.induct)
  case (Work i ws m w' m')
  let ?w = "ws ! i"
  note wf = worker_files [OF Work.hyps(2)]
  then have p: "wkPath w' = wkPath ?w" by (simp add: wkPath_def)
  then have paths: "map wkPath (ws[i := w']) = map wkPath ws"
    by (metis list_update_id map_update)
  have "file_ok (files m') v" if d: "distinct (map wkPath ws)" and v: "v \<in> set (ws[i := w'])" for v
  proof -
    have all: "\<forall>v\<in>set ws. file_ok (files m) v" using Work.prems d by (simp add: files_ok_def)
    from v obtain k where k: "k < length ws" "v = (ws[i := w']) ! k" by (metis in_set_conv_nth length_list_update)
    show ?thesis
    proof (cases "k = i")
      case True
      then show ?thesis using k all wf Work.hyps(1) by simp
    next
      case False
      then have "wkPath (ws ! k) \<noteq> wkPath ?w" using d k(1) Work.hyps(1) by (metis length_map nth_eq_iff_index_eq nth_map)
      then show ?thesis using False k all wf by (simp add: file_ok_def)
    qed
  qed
  then show ?case using paths by (simp add: files_ok_def)
qed (auto simp: files_ok_def file_ok_def new_worker_def send_def)

lemma files_steps: "(printer_step F cfg key)\<^sup>*\<^sup>* mws mws' \<Longrightarrow> files_ok mws \<Longrightarrow> files_ok mws'"
  by (induction rule: rtranclp_induct) (blast intro: files_step)+

section \<open>Slots\<close>

definition delivered_count :: "pframe list \<Rightarrow> nat" where
  "delivered_count frs = length (filter (\<lambda>x. pStatus x = ''delivered'') frs)"

lemma delivered_count_append [simp]: "delivered_count (xs @ ys) = delivered_count xs + delivered_count ys"
  by (simp add: delivered_count_def)

definition counted :: "string \<Rightarrow> nat \<Rightarrow> printer_slots" where
  "counted slot n = \<lparr>ssStatus = ''idle'', ssSlotID = slot, ssSlots = [(slot, \<lparr>Current = min 5 (int n), Max = 5\<rparr>)]\<rparr>"

lemma record_counted:
  "recordDelivery slot (counted slot n) = ((''idle'', ssSlots (counted slot (Suc n))), counted slot (Suc n))"
  by (simp add: recordDelivery_def counted_def bump_def Let_def copySlots_def)

lemma counted_sel [simp]: "ssSlotID (counted slot n) = slot" "ssStatus (counted slot n) = ''idle''"
  by (simp_all add: counted_def)

fun counts :: "wstage \<Rightarrow> bool" where
  "counts (Telling _) = True" | "counts (Finished (Inr _)) = True" | "counts _ = False"

text \<open>
  The slots count the workers past \<^verbatim>\<open>recordDelivery\<close>, and one delivered frame went out for each of
  them and each worker about to call it.
\<close>

definition slots_ok_by :: "string \<Rightarrow> 'p machine \<times> worker list \<Rightarrow> bool" where
  "slots_ok_by slot mws \<longleftrightarrow> (case mws of (m, ws) \<Rightarrow>
     (\<forall>w\<in>set ws. \<forall>now. wkStage w = Telling now \<longrightarrow> fst now = ''idle'') \<and>
     pslots m = counted slot (length (filter (\<lambda>w. counts (wkStage w)) ws)) \<and>
     delivered_count (sent m) = length (filter (\<lambda>w. counts (wkStage w) \<or> wkStage w = Counting) ws))"

lemma filter_update:
  assumes "i < length ws"
  shows "length (filter P (ws[i := w])) + of_bool (P (ws ! i)) = length (filter P ws) + of_bool (P w)"
proof -
  have "length (filter P ws) = length (filter P (take i ws @ ws ! i # drop (Suc i) ws))"
    using id_take_nth_drop [OF assms] by simp
  then show ?thesis by (simp add: upd_conv_take_nth_drop [OF assms])
qed

lemma worker_slots:
  assumes "worker_step F cfg key w m = (w', m')" "pslots m = counted slot n"
    "\<forall>now. wkStage w = Telling now \<longrightarrow> fst now = ''idle''"
  shows "(\<forall>now. wkStage w' = Telling now \<longrightarrow> fst now = ''idle'') \<and>
    pslots m' = counted slot (n + of_bool (counts (wkStage w')) - of_bool (counts (wkStage w))) \<and>
    (counts (wkStage w) \<longrightarrow> counts (wkStage w')) \<and>
    (counts (wkStage w) \<or> wkStage w = Counting \<longrightarrow> counts (wkStage w') \<or> wkStage w' = Counting) \<and>
    delivered_count (sent m') + of_bool (counts (wkStage w) \<or> wkStage w = Counting) =
      delivered_count (sent m) + of_bool (counts (wkStage w') \<or> wkStage w' = Counting)" (is ?P)
proof -
  have pure: ?P if "computing (wkStage w)"
  proof -
    have "\<not> counts (wkStage w)" "wkStage w \<noteq> Counting" using that by (cases "wkStage w"; simp)+
    moreover have "\<not> counts st \<and> st \<noteq> Counting \<and> (\<forall>now. st \<noteq> Telling now)" if "computing st \<or> (\<exists>pdf. st = Writing pdf)" for st
      using that by (cases st) simp_all
    ultimately show ?P using worker_computes [OF that assms(1)] assms(2) by (elim disjE exE conjE) auto
  qed
  show ?P
proof (cases "wkStage w")
  case Fetching
  obtain r m1 where r: "fetchBlob F (pBlobURL (wkFrame w)) m = (r, m1)" by fastforce
  then have "sent m1 = sent m" "pslots m1 = pslots m"
    using steps_sent(1) [of F "pBlobURL (wkFrame w)" m] steps_slots(1) [of F "pBlobURL (wkFrame w)" m] by simp_all
  with worker_fetches [OF Fetching assms(1) r] show ?thesis
    by (elim disjE exE conjE) (simp_all add: assms Fetching failing_def)
next
  case (Writing pdf)
  obtain r m1 where r: "WriteFile F (wkPath w) pdf m = (r, m1)" by fastforce
  then have "sent m1 = sent m" "pslots m1 = pslots m"
    using steps_sent(2) [of F "wkPath w" pdf m] steps_slots(2) [of F "wkPath w" pdf m] by simp_all
  with assms Writing r show ?thesis by (cases r) (auto simp: worker_defs)
next
  case (Printing pdf)
  obtain r m1 where r: "(if cfDevMode cfg then (Inr (), m) else printDocument F (cfPrinterName cfg) (wkPath w) m) = (r, m1)" by fastforce
  then have "sent m1 = sent m" "pslots m1 = pslots m"
    using steps_sent(4) [of F "cfPrinterName cfg" "wkPath w" m] steps_slots(4) [of F "cfPrinterName cfg" "wkPath w" m]
    by (cases "cfDevMode cfg"; simp)+
  with assms Printing r show ?thesis by (cases r) (auto simp: worker_defs)
next
  case (Discarding e)
  with assms show ?thesis by (auto simp: worker_defs)
next
  case Unlinking
  obtain r m1 where r: "Remove F (wkPath w) m = (r, m1)" by fastforce
  then have "sent m1 = sent m" "pslots m1 = pslots m"
    using steps_sent(3) [of F "wkPath w" m] steps_slots(3) [of F "wkPath w" m] by simp_all
  with assms Unlinking r show ?thesis by (cases r) (auto simp: worker_defs)
next
  case Counting
  with assms show ?thesis by (auto simp: worker_defs record_counted)
next
  case (Telling now)
  obtain st sl where now: "now = (st, sl)" by fastforce
  with assms Telling show ?thesis
    by (auto simp: worker_defs send_def state_frame_def delivered_count_def pframe0_def)
next
  case (Decoding b)
  then show ?thesis by (intro pure) simp
next
  case (Unwrapping b ek)
  then show ?thesis by (intro pure) simp
next
  case (Opening b ak)
  then show ?thesis by (intro pure) simp
next
  case Announcing
  then show ?thesis using assms
    by (auto simp: worker_defs send_def status_frame_def delivered_count_def)
next
  case (Reporting r)
  then show ?thesis using assms
    by (cases r) (auto simp: worker_defs send_def status_frame_def delivered_count_def)
next
  case (Returning r)
  then show ?thesis using assms
    by (cases "wkBufs w") (auto simp: worker_defs wipe_def)
next
  case (Finished r)
  then show ?thesis using assms by (auto simp: worker_defs)
qed
qed

lemma slots_step: "printer_step F cfg key mws mws' \<Longrightarrow> slots_ok_by slot mws \<Longrightarrow> slots_ok_by slot mws'"
proof (induction rule: printer_step.induct)
  case (Work i ws m w' m')
  let ?w = "ws ! i" and ?c = "\<lambda>w. counts (wkStage w)" and ?d = "\<lambda>w. counts (wkStage w) \<or> wkStage w = Counting"
  have w: "?w \<in> set ws" using Work.hyps(1) by simp
  have ok: "pslots m = counted slot (length (filter ?c ws))" "delivered_count (sent m) = length (filter ?d ws)"
    "\<forall>w\<in>set ws. \<forall>now. wkStage w = Telling now \<longrightarrow> fst now = ''idle''"
    using Work.prems by (simp_all add: slots_ok_by_def)
  note step = worker_slots [OF Work.hyps(2) ok(1) bspec [OF ok(3) w]]
  have "length (filter ?c (ws[i := w'])) = length (filter ?c ws) + of_bool (?c w') - of_bool (?c ?w)"
    using filter_update [OF Work.hyps(1), of ?c w'] by simp
  moreover have "delivered_count (sent m') = length (filter ?d (ws[i := w']))"
    using filter_update [OF Work.hyps(1), of ?d w'] step ok(2) by linarith
  moreover have "\<forall>w\<in>set (ws[i := w']). \<forall>now. wkStage w = Telling now \<longrightarrow> fst now = ''idle''"
    using ok(3) step set_update_subset_insert [of ws i w'] by blast
  ultimately show ?case using step by (simp add: slots_ok_by_def)
next
  case (Heartbeat m ws)
  then show ?case
    by (simp add: slots_ok_by_def snapshot_def send_def delivered_count_def state_frame_def)
qed (auto simp: slots_ok_by_def new_worker_def)

lemma slots_steps: "(printer_step F cfg key)\<^sup>*\<^sup>* mws mws' \<Longrightarrow> slots_ok_by slot mws \<Longrightarrow> slots_ok_by slot mws'"
  by (induction rule: rtranclp_induct) (blast intro: slots_step)+

section \<open>Races\<close>

text \<open>
  A delivery is counted and the count sent in two steps: two workers can send their state frames in
  the opposite order, and the last one then reports one document less than the slot holds.
\<close>

lemma stale_state_frame:
  assumes "wkStage v = Counting" "wkStage w = Counting" "pslots m = counted slot n"
  shows "\<exists>m' ws'. (printer_step F cfg key)\<^sup>*\<^sup>* (m, [v, w]) (m', ws') \<and> pslots m' = counted slot (n + 2) \<and>
    last (sent m') = state_frame ''idle'' (ssSlots (counted slot (n + 1)))"
proof -
  let ?t = "\<lambda>n. Telling (''idle'', ssSlots (counted slot n))" and ?m1 = "m\<lparr>pslots := counted slot (n + 1)\<rparr>"
    and ?m2 = "m\<lparr>pslots := counted slot (n + 2)\<rparr>" and ?f = "Finished (Inr ())"
  let ?m3 = "send (state_frame ''idle'' (ssSlots (counted slot (n + 2)))) ?m2"
  let ?m4 = "send (state_frame ''idle'' (ssSlots (counted slot (n + 1)))) ?m3"
  have count: "worker_step F cfg key u x = (u\<lparr>wkStage := ?t (Suc k)\<rparr>, x\<lparr>pslots := counted slot (Suc k)\<rparr>)"
    if "wkStage u = Counting" "pslots x = counted slot k" for u k x
    using that by (simp add: worker_defs record_counted)
  have tell: "worker_step F cfg key (u\<lparr>wkStage := ?t k\<rparr>) x = (u\<lparr>wkStage := ?f\<rparr>, send (state_frame ''idle'' (ssSlots (counted slot k))) x)"
    for u k x
    by (simp add: worker_defs)
  have w: "printer_step F cfg key (x, [y, z]) (x', [y', z])" if "worker_step F cfg key y x = (y', x')" for x y z x' y'
    using printer_step.Work [of 0 "[y, z]" F cfg key x] that by simp
  have z: "printer_step F cfg key (x, [y, z]) (x', [y, z'])" if "worker_step F cfg key z x = (z', x')" for x y z x' z'
    using printer_step.Work [of 1 "[y, z]" F cfg key x] that by simp
  have 1: "printer_step F cfg key (m, [v, w]) (?m1, [v\<lparr>wkStage := ?t (n + 1)\<rparr>, w])"
    using w [OF count [OF assms(1,3)]] by simp
  have 2: "printer_step F cfg key (?m1, [v\<lparr>wkStage := ?t (n + 1)\<rparr>, w]) (?m2, [v\<lparr>wkStage := ?t (n + 1)\<rparr>, w\<lparr>wkStage := ?t (n + 2)\<rparr>])"
    using z [OF count [OF assms(2), of ?m1 "n + 1"]] by simp
  have 3: "printer_step F cfg key (?m2, [v\<lparr>wkStage := ?t (n + 1)\<rparr>, w\<lparr>wkStage := ?t (n + 2)\<rparr>])
      (?m3, [v\<lparr>wkStage := ?t (n + 1)\<rparr>, w\<lparr>wkStage := ?f\<rparr>])"
    by (rule z [OF tell])
  have 4: "printer_step F cfg key (?m3, [v\<lparr>wkStage := ?t (n + 1)\<rparr>, w\<lparr>wkStage := ?f\<rparr>])
      (?m4, [v\<lparr>wkStage := ?f\<rparr>, w\<lparr>wkStage := ?f\<rparr>])"
    by (rule w [OF tell])
  have "(printer_step F cfg key)\<^sup>*\<^sup>* (m, [v, w]) (?m4, [v\<lparr>wkStage := ?f\<rparr>, w\<lparr>wkStage := ?f\<rparr>])"
    using converse_rtranclp_into_rtranclp [OF 1 converse_rtranclp_into_rtranclp [OF 2
      converse_rtranclp_into_rtranclp [OF 3 r_into_rtranclp [of "printer_step F cfg key", OF 4]]]] .
  moreover have "pslots ?m4 = counted slot (n + 2)" "last (sent ?m4) = state_frame ''idle'' (ssSlots (counted slot (n + 1)))"
    by (simp_all add: send_def)
  ultimately show ?thesis by blast
qed

text \<open>
  Two workers for one job share its file: whoever unlinks second finds it gone, and the printer reports
  the job failed although it was printed.
\<close>

lemma second_unlink_fails:
  assumes "wkStage v = Unlinking" "wkStage w = Unlinking" "wkPath v = wkPath w"
    "worker_step F cfg key v m = (v', m')" "wkStage v' = Returning (Inr ())"
  shows "\<exists>e. worker_step F cfg key w m' = (w\<lparr>wkStage := Returning (Inl e)\<rparr>, m')"
proof -
  obtain r m1 where r: "Remove F (wkPath v) m = (r, m1)" by fastforce
  have "r = Inr () \<and> m' = m1" using assms(1,4,5) r by (cases r) (auto simp: worker_defs)
  then have "files m' (wkPath w) = None" using file_ops_done(2) [of F "wkPath v" m] r assms(3) by auto
  then have "Remove F (wkPath w) m' = (Inl (Err ''no such file or directory''), m')" by (simp add: Remove_def)
  with assms(2) have "worker_step F cfg key w m' = (w\<lparr>wkStage := failing ''remove tmpfs: '' (Err ''no such file or directory'')\<rparr>, m')"
    by (simp add: worker_step_def at_stage_def)
  then show ?thesis unfolding failing_def by blast
qed

section \<open>Schedules\<close>

text \<open>Which worker goes next, step by step.\<close>

fun schedule :: "('k, 'p) outside \<Rightarrow> config \<Rightarrow> 'k \<Rightarrow> nat list \<Rightarrow> 'p machine \<times> worker list \<Rightarrow> 'p machine \<times> worker list" where
  "schedule F cfg key [] mws = mws"
| "schedule F cfg key (i # is) (m, ws) =
     (if i < length ws then
        (case worker_step F cfg key (ws ! i) m of (w', m') \<Rightarrow> schedule F cfg key is (m', ws[i := w']))
      else schedule F cfg key is (m, ws))"

lemma schedule_path: "(printer_step F cfg key)\<^sup>*\<^sup>* mws (schedule F cfg key is mws)"
proof (induction F cfg key "is" mws rule: schedule.induct)
  case (2 F cfg key i "is" m ws)
  show ?case
  proof (cases "i < length ws")
    case True
    obtain w' m' where s: "worker_step F cfg key (ws ! i) m = (w', m')" by fastforce
    have "printer_step F cfg key (m, ws) (m', ws[i := w'])" by (rule printer_step.Work [OF True s])
    with "2.IH"(1) [OF True s [symmetric]] s True show ?thesis
      by (simp add: converse_rtranclp_into_rtranclp)
  qed (use 2 in simp)
qed simp

lemma receive_path:
  "\<forall>f\<in>set fs. pType f = ''dispatch'' \<Longrightarrow> (printer_step F cfg key)\<^sup>*\<^sup>* (m, ws) (m, ws @ map new_worker fs)"
proof (induction fs arbitrary: ws)
  case (Cons f fs)
  then have "printer_step F cfg key (m, ws) (m, ws @ [new_worker f])" by (intro printer_step.Receive) simp
  with Cons.IH [of "ws @ [new_worker f]"] Cons.prems show ?case by (simp add: converse_rtranclp_into_rtranclp)
qed simp

end
