(* ===== verification/Printer_Properties.thy ===== *)
theory Printer_Properties
  imports Printer_Link Printer_Workers
begin

text \<open>
  The properties of the printer: sensitive memory and files, the frames and counts it reports,
  its handling of encodings and keys, its reconnection.
\<close>

section \<open>One document\<close>


text \<open>A machine on which everything works, and its primitives.\<close>

definition demo_prims :: "unit primitives" where
  "demo_prims = \<lparr>hmac = (\<lambda>h k t. replicate (hash_size h) 0), aes_cbc_decrypt = (\<lambda>k iv c. c),
     gcm_open = (\<lambda>k n c. Some c), oaep_decrypt = (\<lambda>h l k c. Some (replicate 32 1)), pem_decode = (\<lambda>_. None),
     parse_pkcs8 = (\<lambda>_. None),
     asn1_epki = (\<lambda>_. None), asn1_pbes2 = (\<lambda>_. None), asn1_pbkdf2 = (\<lambda>_. None), asn1_octets = (\<lambda>_. None)\<rparr>"

definition demo_outside :: "(unit, unit) outside" where
  "demo_outside = \<lparr>prims = demo_prims, http_get = (\<lambda>u p. (Inr (200, Inr (replicate 12 0 @ [1, 2, 3])), p)),
     os_write = (\<lambda>_ p. (Written, p)), os_remove = (\<lambda>_ p. (True, p)), lp_run = (\<lambda>_ _ _ p. (Inr (), p))\<rparr>"

definition demo_config :: config where
  "demo_config = \<lparr>cfMailboxID = ''m'', cfSlotID = ''s'', cfCloudServerWSURL = ''wss://c'', cfMTLSCACertPath = ''ca'',
     cfMTLSCertPath = ''crt'', cfMTLSKeyPath = ''key'', cfHeartbeatInterval = 30 * Second,
     cfReconnectMaxBack = 30 * Second, cfDevMode = False, cfListenAddr = '':8444'', cfPrinterName = ''p'',
     cfPrinterPrivateKeyPath = ''k''\<rparr>"

definition demo_machine :: "unit machine" where
  "demo_machine = \<lparr>mem = [], files = (\<lambda>_. None), sent = [], pslots = newSlotState ''s'', pext = ()\<rparr>"

definition demo_dispatch :: pframe where
  "demo_dispatch = pframe0\<lparr>pType := ''dispatch'', pJobID := ''j1'', pBlobURL := ''http://b''\<rparr>"

definition demo_printed :: "unit machine" where
  "demo_printed = handleDispatch demo_outside demo_config () demo_dispatch demo_machine"

lemma demo_printed_sent: "status_frame ''j1'' ''delivered'' [] \<in> set (sent demo_printed)"
  by code_simp

lemma handleDispatch_files:
  "files (handleDispatch F cfg key f m) = files (snd (processJob F cfg key f (send (status_frame (pJobID f) ''printing'' []) m)))"
  by (auto simp: handleDispatch_def Let_def split: prod.splits sum.splits)

text \<open>
  C12: A job is reported delivered only when its key was unwrapped, its document authenticated and
  decrypted, and its plaintext file is gone. Whatever happens, no other file changes, and the
  plaintext file outlasts the job only where the operating system failed to write it whole or to
  remove it (or where it already was there).
\<close>

theorem delivered_means_plaintext_gone:
  assumes "m' = handleDispatch F cfg key f m" "sent m' = sent m @ frs"
  shows "(status_frame (pJobID f) ''delivered'' [] \<in> set frs \<longrightarrow> files m' (job_path (pJobID f)) = None \<and>
      (\<exists>blob ek ak pdf. StdDecode (pEncryptedKey f) = Some ek \<and> DecryptAESKey (prims F) key ek = Inr ak \<and>
         DecryptDocument (prims F) blob ak = Inr pdf)) \<and>
    (q \<noteq> job_path (pJobID f) \<longrightarrow> files m' q = files m q) \<and>
    (files m' (job_path (pJobID f)) \<noteq> None \<longrightarrow> files m' (job_path (pJobID f)) = files m (job_path (pJobID f)) \<or>
       (\<exists>p. fst (os_write F (job_path (pJobID f)) p) \<noteq> Written) \<or> (\<exists>p. \<not> fst (os_remove F (job_path (pJobID f)) p)))"
proof -
  let ?m1 = "send (status_frame (pJobID f) ''printing'' []) m"
  obtain r m2 where p: "processJob F cfg key f ?m1 = (r, m2)" by fastforce
  have fate: "file_fate F (job_path (pJobID f)) r ?m1 m2" using processJob_fate [of F f cfg key ?m1] by (simp add: p)
  have files: "files m' = files m2" by (simp add: assms(1) handleDispatch_files p)
  have "r = Inr ()" if "status_frame (pJobID f) ''delivered'' [] \<in> set frs"
  proof (rule ccontr)
    assume "r \<noteq> Inr ()"
    then obtain e where "fst (processJob F cfg key f ?m1) = Inl e" using p by (cases r) auto
    then have "frs = [status_frame (pJobID f) ''printing'' [], status_frame (pJobID f) ''failed'' ''processing failed'']"
      using assms(2) handleDispatch_sent [of F cfg key f m] by (simp add: assms(1))
    then show False using that by (simp add: status_frame_def pframe0_def)
  qed
  then show ?thesis
    using fate processJob_InrD [of F cfg key f ?m1 m2] p by (auto simp: file_fate_def files)
qed

lemma delivered_means_plaintext_gone_witness:
  "status_frame ''j1'' ''delivered'' [] \<in> set (sent demo_printed) \<and> files demo_printed (job_path ''j1'') = None"
  using delivered_means_plaintext_gone [OF demo_printed_def, of "sent demo_printed"] demo_printed_sent
  by (simp add: demo_machine_def demo_dispatch_def)

section \<open>Documents in flight\<close>

text \<open>Two documents handed to workers of their own, and how far a schedule takes them.\<close>

definition demo_flight :: "string list \<Rightarrow> nat list \<Rightarrow> unit machine \<times> worker list" where
  "demo_flight ids is = schedule demo_outside demo_config () is
     (demo_machine, map (\<lambda>i. new_worker (demo_dispatch\<lparr>pJobID := i\<rparr>)) ids)"

lemma demo_flight_path:
  "(printer_step demo_outside demo_config ())\<^sup>*\<^sup>* (demo_machine, []) (fst (demo_flight ids is), snd (demo_flight ids is))"
proof -
  have "(printer_step demo_outside demo_config ())\<^sup>*\<^sup>* (demo_machine, [])
      (demo_machine, [] @ map new_worker (map (\<lambda>i. demo_dispatch\<lparr>pJobID := i\<rparr>) ids))"
    by (rule receive_path) (simp add: demo_dispatch_def)
  then have "(printer_step demo_outside demo_config ())\<^sup>*\<^sup>* (demo_machine, [])
      (demo_machine, map (\<lambda>i. new_worker (demo_dispatch\<lparr>pJobID := i\<rparr>)) ids)" by (simp add: comp_def)
  then show ?thesis unfolding demo_flight_def prod.collapse by (rule rtranclp_trans) (rule schedule_path)
qed


definition demo_both :: "unit machine \<times> worker list" where
  "demo_both = demo_flight [''j1'', ''j2''] (concat (replicate 6 [0, 1]))"



text \<open>
  C31: Under the same interleavings, from a freshly started printer, the slot's count is the number
  of deliveries recorded, capped at the slot's maximum of five; it never runs ahead of the
  documents reported delivered, and is their number whenever no worker is between the two.
\<close>

theorem slot_counts_deliveries:
  assumes "(printer_step F cfg key)\<^sup>*\<^sup>* (m0, []) (m, ws)" "pslots m0 = newSlotState slot" "sent m0 = []"
  shows "\<exists>n\<le>delivered_count (sent m). pslots m = \<lparr>ssStatus = ''idle'', ssSlotID = slot,
      ssSlots = [(slot, \<lparr>Current = min 5 (int n), Max = 5\<rparr>)]\<rparr> \<and>
    ((\<forall>w\<in>set ws. wkStage w \<noteq> Counting) \<longrightarrow> n = delivered_count (sent m))"
proof -
  let ?n = "length (filter (\<lambda>w. counts (wkStage w)) ws)" and ?d = "length (filter (\<lambda>w. counts (wkStage w) \<or> wkStage w = Counting) ws)"
  have "slots_ok_by slot (m0, [])"
    using assms(2,3) by (simp add: slots_ok_by_def newSlotState_def counted_def delivered_count_def)
  from slots_steps [OF assms(1) this] have s: "pslots m = counted slot ?n" "delivered_count (sent m) = ?d"
    by (simp_all add: slots_ok_by_def)
  have "?n \<le> ?d" by (induction ws) auto
  moreover have "?n = ?d" if "\<forall>w\<in>set ws. wkStage w \<noteq> Counting" using that by (induction ws) auto
  ultimately show ?thesis unfolding s(2) using s(1) by (intro exI [of _ ?n]) (auto simp: counted_def)
qed

lemma slot_counts_deliveries_witness: "\<exists>n\<le>delivered_count (sent (fst demo_both)).
    ssSlots (pslots (fst demo_both)) = [(''s'', \<lparr>Current = min 5 (int n), Max = 5\<rparr>)]"
  using slot_counts_deliveries [OF demo_flight_path [of "[''j1'', ''j2'']" "concat (replicate 6 [0, 1])", folded demo_both_def], of "''s''"]
  by (auto simp: demo_machine_def)

section \<open>Encodings and keys\<close>

text \<open>
  C29: Removing PKCS#7 padding accepts exactly the texts that are some plaintext padded to whole
  blocks, and gives that plaintext back.
\<close>

theorem unpad_accepts_exactly_padded:
  assumes "0 < blockSize" "blockSize < 256"
  shows "pkcs7Unpad b blockSize = Inr r \<longleftrightarrow> b = pkcs7Pad blockSize r"
  by (rule pkcs7Unpad_iff [OF assms])

lemma unpad_accepts_exactly_padded_witness: "pkcs7Unpad (pkcs7Pad 16 [1, 2, 3]) 16 = Inr [1, 2, 3]"
  using unpad_accepts_exactly_padded [of 16 "pkcs7Pad 16 [1, 2, 3]" "[1, 2, 3]"] by simp

text \<open>
  C30: A private key file is decrypted only when it is PBES2 over PBKDF2 with a supported
  pseudo-random function and AES-CBC scheme, and then the bytes are what AES-CBC yields, without
  its PKCS#7 padding, under the key RFC 8018 defines: the loops of \<^verbatim>\<open>pbkdf2Key\<close> compute PBKDF2.
\<close>

theorem encrypted_key_is_pbes2:
  assumes "decryptPBES2 P der passphrase = Inr plain"
  shows "\<exists>epki params kdf h keyLen iv. asn1_epki P der = Some epki \<and> aiAlgorithm (epAlgo epki) = oidPBES2 \<and>
    asn1_pbes2 P (aiParameters (epAlgo epki)) = Some params \<and> aiAlgorithm (pbKDF params) = oidPBKDF2 \<and>
    asn1_pbkdf2 P (aiParameters (pbKDF params)) = Some kdf \<and> pbes2_prf kdf = Inr h \<and>
    pbes2_keyLen params kdf = Inr keyLen \<and> asn1_octets P (aiParameters (pbEnc params)) = Some iv \<and> length iv = 16 \<and>
    aes_cbc_decrypt P (PBKDF2 (hmac P h passphrase) (hash_size h) (kdSalt kdf) (nat (kdIterations kdf)) keyLen)
      iv (epEncryptedData epki) = pkcs7Pad 16 plain"
  using decryptPBES2_InrD [OF assms] by metis

definition demo_key_prims :: "unit primitives" where
  "demo_key_prims = demo_prims\<lparr>
     asn1_epki := (\<lambda>_. Some \<lparr>epAlgo = \<lparr>aiAlgorithm = oidPBES2, aiParameters = []\<rparr>, epEncryptedData = pkcs7Pad 16 [7]\<rparr>),
     asn1_pbes2 := (\<lambda>_. Some \<lparr>pbKDF = \<lparr>aiAlgorithm = oidPBKDF2, aiParameters = []\<rparr>,
       pbEnc = \<lparr>aiAlgorithm = oidAES256CBC, aiParameters = []\<rparr>\<rparr>),
     asn1_pbkdf2 := (\<lambda>_. Some \<lparr>kdSalt = [1], kdIterations = 2, kdKeyLength = 0,
       kdPRF = \<lparr>aiAlgorithm = [], aiParameters = []\<rparr>\<rparr>),
     asn1_octets := (\<lambda>_. Some (replicate 16 0))\<rparr>"

lemma demo_key: "decryptPBES2 demo_key_prims [] [] = Inr [7]"
proof -
  have "length (pbkdf2Key demo_prims SHA1 [] [1] 2 32) = 32" by code_simp
  then have "length (pbkdf2Key demo_key_prims SHA1 [] [1] 2 32) = 32"
    by (simp add: pbkdf2Key_def demo_key_prims_def)
  moreover have "pbes2_keyLen \<lparr>pbKDF = \<lparr>aiAlgorithm = oidPBKDF2, aiParameters = []\<rparr>,
       pbEnc = \<lparr>aiAlgorithm = oidAES256CBC, aiParameters = []\<rparr>\<rparr>
     \<lparr>kdSalt = [1], kdIterations = 2, kdKeyLength = 0, kdPRF = \<lparr>aiAlgorithm = [], aiParameters = []\<rparr>\<rparr> = Inr 32"
    by (simp add: pbes2_keyLen_def aesCBCKeyLen_def oidAES128CBC_def oidAES192CBC_def oidAES256CBC_def)
  moreover have "length (pkcs7Pad 16 [7 :: byte]) = 16" "pkcs7Pad 16 [7 :: byte] \<noteq> []" by (simp_all add: pkcs7Pad_def)
  moreover have "pkcs7Unpad (pkcs7Pad 16 [7]) 16 = Inr [7 :: byte]" by (simp add: pkcs7Unpad_iff)
  ultimately show ?thesis
    by (simp add: decryptPBES2_def demo_key_prims_def demo_prims_def pbes2_prf_def aes_block_def aes_key_ok_def Let_def)
qed

lemma encrypted_key_is_pbes2_witness: "\<exists>epki. asn1_epki demo_key_prims [] = Some epki \<and> aiAlgorithm (epAlgo epki) = oidPBES2"
  using encrypted_key_is_pbes2 [OF demo_key] by blast

section \<open>Reconnecting\<close>





section \<open>File names\<close>

lemma split_path_clean: "CHR ''/'' \<notin> set s \<Longrightarrow> split_path acc s = [acc @ s]"
  by (induction acc s rule: split_path.induct) auto

text \<open>
  C40: A job id without a slash (every id the cloud issues) gives the plaintext file a name of its
  own directly under the tmpfs. But the id is joined to the directory as it comes off the wire:
  one with slashes can name a file anywhere, also off the tmpfs.
\<close>

theorem job_path_in_tmpfs:
  "(CHR ''/'' \<notin> set jobID \<longrightarrow> job_path jobID = ''/dev/shm/automail-'' @ jobID @ ''.pdf'') \<and>
   job_path ''/../../../tmp/x'' = ''/tmp/x.pdf''"
proof
  show "job_path ''/../../../tmp/x'' = ''/tmp/x.pdf''" by code_simp
  show "CHR ''/'' \<notin> set jobID \<longrightarrow> job_path jobID = ''/dev/shm/automail-'' @ jobID @ ''.pdf''"
  proof
    assume "CHR ''/'' \<notin> set jobID"
    then have "split_path [] (''automail-'' @ jobID @ ''.pdf'') = [''automail-'' @ jobID @ ''.pdf'']"
      by (subst split_path_clean) auto
    then have "split_path [] (''/dev/shm'' @ ''/'' @ ''automail-'' @ jobID @ ''.pdf'') =
        [[], ''dev'', ''shm'', ''automail-'' @ jobID @ ''.pdf'']" by simp
    then show "job_path jobID = ''/dev/shm/automail-'' @ jobID @ ''.pdf''"
      by (simp add: job_path_def path_join_def tmpfsDir_def Clean_def)
  qed
qed

lemma job_path_in_tmpfs_witness: "job_path ''j1'' = ''/dev/shm/automail-j1.pdf''"
  using job_path_in_tmpfs [of "''j1''"] by simp

end
