(* ===== verification/Delivery.thy ===== *)
theory Delivery
  imports Cluster_Ops Printer_Workers
begin

text \<open>
  From the dispatch frame to paper and back: what the printer does with a frame when the blob, the
  key and the operating system are in order, and what the hub makes of the frames it sends while
  the database answers.
\<close>

section \<open>A document that prints\<close>

text \<open>
  The portal uploads the sealed document with its 12-byte IV in front and submits the AES key
  wrapped for the printer: \<^verbatim>\<open>sealed_for\<close> says that this is such a blob.
\<close>

definition sealed_for :: "('k, 'p) outside \<Rightarrow> 'k \<Rightarrow> bytes \<Rightarrow> bytes \<Rightarrow> bytes \<Rightarrow> bool" where
  "sealed_for F key ek doc blob \<longleftrightarrow> (\<exists>ak iv sealed. blob = iv @ sealed \<and> length iv = 12 \<and>
     oaep_decrypt (prims F) SHA256 [] key ek = Some ak \<and> length ak = 32 \<and> gcm_open (prims F) ak iv sealed = Some doc)"

text \<open>The file is written, \<^verbatim>\<open>lp\<close> succeeds on a file that holds the document, the file is removed.\<close>

definition paper :: "('k, 'p) outside \<Rightarrow> config \<Rightarrow> string \<Rightarrow> bytes \<Rightarrow> 'p \<Rightarrow> 'p \<Rightarrow> bool" where
  "paper F cfg j doc p p' \<longleftrightarrow> (\<exists>p1 p2. os_write F (job_path j) p = (Written, p1) \<and> \<not> cfDevMode cfg \<and>
     lp_run F (cfPrinterName cfg) (job_path j) (Some doc) p1 = (Inr (), p2) \<and>
     os_remove F (job_path j) p2 = (True, p'))"

lemma wipe_outer [simp]: "pext (snd (wipe a rm)) = pext (snd rm)" "files (snd (wipe a rm)) = files (snd rm)"
  by (simp_all add: wipe_def split: prod.splits)

lemma alloc_ext [simp]: "alloc b m = (a, m1) \<Longrightarrow> pext m1 = pext m"
  by (auto simp: alloc_def)

definition printed :: "string \<Rightarrow> 'p \<Rightarrow> unit res \<times> 'p machine \<Rightarrow> bool" where
  "printed j p rm \<longleftrightarrow> fst rm = Inr () \<and> pext (snd rm) = p \<and> files (snd rm) (job_path j) = None"

lemma printed_wipe [simp]: "printed j p (wipe a rm) \<longleftrightarrow> printed j p rm"
  by (simp add: printed_def)

lemma stage4_prints:
  assumes "paper F cfg (pJobID f) doc (pext m) p'"
  shows "printed (pJobID f) p' (stage4 F cfg f doc m)"
proof -
  obtain a m1 where a: "alloc doc m = (a, m1)" by fastforce
  have "printed (pJobID f) p' (print_plain F cfg f doc m1)"
    using assms alloc_ext [OF a]
    by (auto simp: printed_def paper_def print_plain_def WriteFile_def printDocument_def Remove_def Let_def)
  then show ?thesis using a by (simp add: stage4_def)
qed

lemma processJob_prints:
  assumes "status < 400" "http_get F (pBlobURL f) (pext m) = (Inr (status, Inr blob), p1)"
    "StdDecode (pEncryptedKey f) = Some ek" "sealed_for F key ek doc blob" "paper F cfg (pJobID f) doc p1 p'"
  shows "printed (pJobID f) p' (processJob F cfg key f m)"
proof -
  from assms(4) obtain ak iv sealed where blob: "blob = iv @ sealed" "length iv = 12" and
    key: "oaep_decrypt (prims F) SHA256 [] key ek = Some ak" "length ak = 32" "gcm_open (prims F) ak iv sealed = Some doc"
    unfolding sealed_for_def by blast
  let ?m1 = "m\<lparr>pext := p1\<rparr>"
  have f: "fetchBlob F (pBlobURL f) m = (Inr blob, ?m1)" using assms(1,2) by (simp add: fetchBlob_def)
  obtain a1 m2 where 1: "alloc blob ?m1 = (a1, m2)" by fastforce
  obtain a2 m3 where 2: "alloc ek m2 = (a2, m3)" by fastforce
  obtain a3 m4 where 3: "alloc ak m3 = (a3, m4)" by fastforce
  have x: "pext m4 = p1" using alloc_ext [OF 1] alloc_ext [OF 2] alloc_ext [OF 3] by simp
  have "DecryptAESKey (prims F) key ek = Inr ak" using key by (simp add: DecryptAESKey_def)
  moreover have "DecryptDocument (prims F) blob ak = Inr doc"
    using key blob by (simp add: DecryptDocument_def gcm_nonce_size_def)
  ultimately have e: "processJob F cfg key f m = wipe a1 (wipe a2 (wipe a3 (stage4 F cfg f doc m4)))"
    using f 1 2 3 assms(3) by (simp add: processJob_stages stage1_def stage2_def stage3_def)
  show ?thesis using stage4_prints [of F cfg f doc m4 p'] assms(5) x unfolding e by simp
qed

lemma counted_slots_ok: "slots_ok (ssSlots (counted slot n))"
  by (simp add: counted_def slots_ok_def canonical_def slot_ok_def in_int64_def)

text \<open>The frames such a document makes the printer send.\<close>

lemma handleDispatch_prints:
  assumes "status < 400" "http_get F (pBlobURL f) (pext m) = (Inr (status, Inr blob), p1)"
    "StdDecode (pEncryptedKey f) = Some ek" "sealed_for F key ek doc blob" "paper F cfg (pJobID f) doc p1 p'"
    "pslots m = counted slot n"
  shows "\<exists>st sl. slots_ok sl \<and> sent (handleDispatch F cfg key f m) = sent m @
      [status_frame (pJobID f) ''printing'' [], status_frame (pJobID f) ''delivered'' [], state_frame st sl]" (is ?sent)
    and "pext (handleDispatch F cfg key f m) = p' \<and> files (handleDispatch F cfg key f m) (job_path (pJobID f)) = None" (is ?rest)
proof -
  let ?m1 = "send (status_frame (pJobID f) ''printing'' []) m"
  have "pext ?m1 = pext m" by (simp add: send_def)
  with assms have p: "printed (pJobID f) p' (processJob F cfg key f ?m1)"
    by (intro processJob_prints [OF assms(1)]) simp_all
  then show ?rest
    by (cases "processJob F cfg key f ?m1") (auto simp: printed_def handleDispatch_def send_def Let_def split: prod.splits)
  show ?sent using p handleDispatch_sent [of F cfg key f m] assms(6) counted_slots_ok [of slot "Suc n"]
    by (intro exI [of _ "''idle''"] exI [of _ "ssSlots (counted slot (Suc n))"])
      (simp add: printed_def record_counted)
qed

text \<open>A blob that is gone: the job fails, with nothing printed.\<close>

lemma handleDispatch_gone:
  assumes "http_get F (pBlobURL f) (pext m) = (Inr (status, body), p')" "400 \<le> status"
  shows "sent (handleDispatch F cfg key f m) = sent m @
    [status_frame (pJobID f) ''printing'' [], status_frame (pJobID f) ''failed'' ''processing failed'']"
proof -
  let ?m1 = "send (status_frame (pJobID f) ''printing'' []) m"
  have "fst (fetchBlob F (pBlobURL f) ?m1) = Inl (Err ''blob fetch returned status'')"
    using assms by (simp add: fetchBlob_def send_def)
  then have "\<exists>e. fst (processJob F cfg key f ?m1) = Inl e"
    by (cases "fetchBlob F (pBlobURL f) ?m1") (simp add: processJob_stages)
  then show ?thesis using handleDispatch_sent [of F cfg key f m] by auto
qed

section \<open>What the hub makes of it\<close>

lemma status_frame_read: "frame_read (pframe_json (status_frame j st e)) = Some (cloud_view (status_frame j st e))"
  by (rule frame_read_pframe_json) (simp add: status_frame_def pframe0_def slots_ok_def canonical_def)

lemma status_frame_sel [simp]:
  "fType (cloud_view (status_frame j st e)) = ''status''" "fJobID (cloud_view (status_frame j st e)) = j"
  "fStatus (cloud_view (status_frame j st e)) = st"
  by (simp_all add: cloud_view_def status_frame_def)

text \<open>Frames as the texts the socket carries.\<close>

definition wire_of :: "pframe list \<Rightarrow> wire list" where
  "wire_of fs = map (\<lambda>p. Some (pframe_json p)) fs"

context answering
begin

lemma up_query:
  "up (ext w) \<Longrightarrow> job_of (db w) i \<noteq> None \<Longrightarrow> \<exists>row w'. qUpdateJobStatus E i st w = (Inr row, w')"
  using up_answers [of "ext w"]
  by (auto simp: qUpdateJobStatus_def pg_at_def pg_def UpdateJobStatus_def split: prod.splits)

lemma job_status: "job_of t i \<noteq> None \<longleftrightarrow> status_of t i \<noteq> None"
  by (simp add: status_of_def)

text \<open>A status frame for a job that exists sets its status, whatever it was.\<close>

lemma hub_applies:
  assumes "up (ext w)" "status_of (db w) i \<noteq> None" "uuid_parse E (fJobID f) = Some i"
  shows "\<exists>w'. onStatus E (main_hub E) f w = Some w' \<and> status_of (db w') i = Some (fStatus f) \<and> up (ext w')"
proof -
  obtain w' where w': "onStatus E (main_hub E) f w = Some w'" using onStatus_Some [OF main_hub_ok] by blast
  obtain row w1 where "qUpdateJobStatus E i (fStatus f) w = (Inr row, w1)"
    using up_query [OF assms(1)] assms(2) job_status by blast
  from onStatus_applied(1) [OF main_hub_ok assms(3) this w'] quiet_onStatus [OF w'] w' assms(1)
  show ?thesis by simp
qed

lemma hub_reads_status:
  assumes "up (ext w)" "status_of (db w) i \<noteq> None" "uuid_parse E j = Some i"
  shows "\<exists>w'. readLoop E (main_hub E) m (Some (pframe_json (status_frame j st e)) # xs) w = readLoop E (main_hub E) m xs w' \<and>
    status_of (db w') i = Some st \<and> up (ext w')"
  using hub_applies [OF assms(1,2), of "cloud_view (status_frame j st e)"] assms(3)
  by (auto simp: status_frame_read)

lemma hub_reads_state:
  assumes "slots_ok sl"
  shows "\<exists>w'. readLoop E (main_hub E) m [Some (pframe_json (state_frame st sl))] w = Some w' \<and> jobs (db w') = jobs (db w)"
proof -
  have "frame_read (pframe_json (state_frame st sl)) = Some (cloud_view (state_frame st sl))"
    using assms by (simp add: frame_read_pframe_json state_frame_def)
  moreover have "fType (cloud_view (state_frame st sl)) = ''state''" by (simp add: cloud_view_def state_frame_def)
  ultimately show ?thesis using onState_db(2) by simp
qed

text \<open>The frames of a document that prints, and of one that fails.\<close>

lemma hub_reads_delivery:
  assumes "up (ext w)" "status_of (db w) i \<noteq> None" "uuid_parse E j = Some i" "slots_ok sl"
  shows "\<exists>w'. readLoop E (main_hub E) m
      (wire_of [status_frame j ''printing'' [], status_frame j ''delivered'' [], state_frame st sl]) w = Some w' \<and>
    status_of (db w') i = Some ''delivered''"
proof -
  from hub_reads_status [OF assms(1-3)] obtain w1 where
    w1: "readLoop E (main_hub E) m (Some (pframe_json (status_frame j ''printing'' [])) #
        wire_of [status_frame j ''delivered'' [], state_frame st sl]) w =
      readLoop E (main_hub E) m (wire_of [status_frame j ''delivered'' [], state_frame st sl]) w1"
      "status_of (db w1) i = Some ''printing''" "up (ext w1)" by blast
  from w1(2) have "status_of (db w1) i \<noteq> None" by simp
  from hub_reads_status [OF w1(3) this assms(3)] obtain w2 where
    w2: "readLoop E (main_hub E) m (Some (pframe_json (status_frame j ''delivered'' [])) # wire_of [state_frame st sl]) w1 =
      readLoop E (main_hub E) m (wire_of [state_frame st sl]) w2" "status_of (db w2) i = Some ''delivered''" by blast
  from hub_reads_state [OF assms(4), of m st w2] obtain w3 where
    w3: "readLoop E (main_hub E) m [Some (pframe_json (state_frame st sl))] w2 = Some w3" "jobs (db w3) = jobs (db w2)" by blast
  have "status_of (db w3) i = Some ''delivered''" using w2(2) w3(2) by (simp only: status_of_def job_of_def)
  with w1(1) w2(1) w3(1) show ?thesis by (simp only: wire_of_def list.map) blast
qed

lemma hub_reads_failure:
  assumes "up (ext w)" "status_of (db w) i \<noteq> None" "uuid_parse E j = Some i"
  shows "\<exists>w'. readLoop E (main_hub E) m (wire_of [status_frame j ''printing'' [], status_frame j ''failed'' e]) w = Some w' \<and>
    status_of (db w') i = Some ''failed''"
proof -
  from hub_reads_status [OF assms] obtain w1 where
    w1: "readLoop E (main_hub E) m (Some (pframe_json (status_frame j ''printing'' [])) # wire_of [status_frame j ''failed'' e]) w =
      readLoop E (main_hub E) m (wire_of [status_frame j ''failed'' e]) w1"
      "status_of (db w1) i = Some ''printing''" "up (ext w1)" by blast
  from w1(2) have "status_of (db w1) i \<noteq> None" by simp
  from hub_reads_status [OF w1(3) this assms(3)] obtain w2 where
    w2: "readLoop E (main_hub E) m [Some (pframe_json (status_frame j ''failed'' e))] w1 = readLoop E (main_hub E) m [] w2"
      "status_of (db w2) i = Some ''failed''" by blast
  from w1(1) w2 show ?thesis by (simp only: wire_of_def list.map readLoop.simps(1)) blast
qed

end

section \<open>From the claim to paper and back\<close>

text \<open>A dispatched job still exists whatever happens next.\<close>

lemma dispatched_job_persists:
  assumes "attemptDispatch E f w = (Inr dispatching, w1)" "uuid_parse E (rfJobID f) = Some i" "(world_step E s)\<^sup>*\<^sup>* w1 v"
  shows "status_of (db v) i \<noteq> None"
proof -
  have "jobs_marked i dispatching (db w) (db w1)" using attempt_outcomes [OF assms(1,2)] by auto
  then obtain j where "job_of (db w1) i = Some j"
    using status_of_marked by (fastforce simp: jobs_marked_def status_of_def)
  with db_le_job [OF world_mono.steps_le [OF assms(3)]] show ?thesis by (fastforce simp: status_of_def)
qed

end
