(* ===== verification/Delivery_Properties.thy ===== *)
theory Delivery_Properties
  imports Demo Delivery Printer_Properties
begin

text \<open>
  The properties of a document's whole way: from the dispatch frame of a claimed job over the
  printer to the row in the database, when all goes well and when its blob is gone.
\<close>

section \<open>From the claim to paper and back\<close>

context answering
begin

lemma printed_is_delivered:
  assumes "attemptDispatch E f w = (Inr dispatching, w1)" "uuid_parse E (rfJobID f) = Some i"
    "(world_step E s)\<^sup>*\<^sup>* w1 v" "up (ext v)" "pJobID pf = rfJobID f"
    "status < 400" "http_get F (pBlobURL pf) (pext m) = (Inr (status, Inr blob), p1)"
    "StdDecode (pEncryptedKey pf) = Some ek" "sealed_for F key ek doc blob" "paper F cfg (pJobID pf) doc p1 p'"
    "pslots m = counted slot n" "m' = handleDispatch F cfg key pf m"
  shows "\<exists>v'. readLoop E (main_hub E) mbx (wire_of (drop (length (sent m)) (sent m'))) v = Some v' \<and>
    status_of (db v') i = Some ''delivered''"
proof -
  from handleDispatch_prints(1) [OF assms(6-11)] obtain st sl where sl: "slots_ok sl" and
    "drop (length (sent m)) (sent m') =
      [status_frame (pJobID pf) ''printing'' [], status_frame (pJobID pf) ''delivered'' [], state_frame st sl]"
    unfolding assms(12) by auto
  then show ?thesis
    using hub_reads_delivery [OF assms(4) dispatched_job_persists [OF assms(1-3)] _ sl, of "pJobID pf"] assms(2,5)
    by simp
qed

end

text \<open>
  C7: A document the sender sealed for the printer reaches paper, and the database says so. When an
  attempt of any node dispatches the job and publishes its frame, the hub pumps that frame to the
  printer, and the printer's key, file system and \<^verbatim>\<open>lp\<close> work, then \<^verbatim>\<open>lp\<close> is run on a file holding
  exactly the sender's document, that file is gone afterwards, and once the hub has read the frames
  the printer sent, the job is delivered: whatever else the service did in the meantime.
\<close>

theorem document_reaches_paper:
  assumes "answering E up" "publish_history E hist"
    "f = FromJob E i mb sl ek b" "uuid_parse E (uuid_string E i) = Some i"
    "attemptDispatch E f w = (Inr dispatching, w1)"
    "hist (ext w1) = hist (ext w) @ [(ChanDispatch (rfMailboxID f), payload)]"
    "printer_readLoop (map Some (pumpDispatch [PumpMsg payload True])) = [pf]"
    "(world_step E s)\<^sup>*\<^sup>* w1 v" "up (ext v)"
    "http_get F (pBlobURL pf) (pext m) = (Inr (200, Inr blob), p1)" "sealed_for F key ek doc blob"
    "paper F cfg (uuid_string E i) doc p1 p'" "pslots m = counted slot n"
    "m' = handleDispatch F cfg key pf m"
  shows "pext m' = p' \<and> files m' (job_path (uuid_string E i)) = None \<and>
    (\<exists>v'. readLoop E (main_hub E) mbx (wire_of (drop (length (sent m)) (sent m'))) v = Some v' \<and>
       status_of (db v') i = Some ''delivered'')"
proof -
  from publish_history.attempt_publishes [OF assms(2,5)] assms(6)
  obtain url where "payload = dispatch_frame f url" by auto
  then have pf: "pJobID pf = uuid_string E i" "StdDecode (pEncryptedKey pf) = Some ek"
    using assms(7) by (auto simp: assms(3) FromJob_def dispatch_frame_def pframe_read_dispatchPayload pframe0_def)
  have f: "uuid_parse E (rfJobID f) = Some i" "pJobID pf = rfJobID f" using assms(4) pf by (simp_all add: assms(3) FromJob_def)
  have paper: "paper F cfg (pJobID pf) doc p1 p'" using assms(12) pf by simp
  have ok: "(200 :: nat) < 400" by simp
  note print = handleDispatch_prints [OF ok assms(10) pf(2) assms(11) paper assms(13)]
  show ?thesis
    using print(2) answering.printed_is_delivered [OF assms(1,5) f(1) assms(8,9) f(2) ok assms(10) pf(2) assms(11) paper assms(13,14)]
    by (simp add: pf assms(14))
qed

lemma demo_uuid: "uuid_parse ref_env (uuid_string ref_env 10) = Some 10"
  by code_simp

lemma demo_up: "ref_up (ext demo_world)" "ref_up (ext (snd (attemptDispatch ref_env demo_ref demo_world)))"
  by code_simp+

lemma demo_dispatched:
  "attemptDispatch ref_env demo_ref demo_world = (Inr dispatching, snd (attemptDispatch ref_env demo_ref demo_world))"
  "rfPublished (ext (snd (attemptDispatch ref_env demo_ref demo_world))) \<noteq> rfPublished (ext demo_world)"
proof -
  have "fst (attemptDispatch ref_env demo_ref demo_world) = Inr dispatching" by code_simp
  then show "attemptDispatch ref_env demo_ref demo_world = (Inr dispatching, snd (attemptDispatch ref_env demo_ref demo_world))"
    by (metis prod.collapse)
qed code_simp

lemma demo_sealed: "sealed_for demo_outside () [1, 2, 3] [1, 2, 3] (replicate 12 0 @ [1, 2, 3])"
  by (auto simp: sealed_for_def demo_outside_def demo_prims_def)

lemma demo_slots: "pslots demo_machine = counted ''s'' 0"
  by (simp add: demo_machine_def newSlotState_def counted_def)

lemma document_reaches_paper_witness:
  "\<exists>pf v'. readLoop ref_env (main_hub ref_env) ''m'' (wire_of (sent (handleDispatch demo_outside demo_config () pf demo_machine)))
      (snd (attemptDispatch ref_env demo_ref demo_world)) = Some v' \<and> status_of (db v') 10 = Some ''delivered''"
proof -
  let ?w1 = "snd (attemptDispatch ref_env demo_ref demo_world)"
  from ref_publish.attempt_publishes [OF demo_dispatched(1)] demo_dispatched(2) obtain url where
    p: "rfPublished (ext ?w1) = rfPublished (ext demo_world) @ [(ChanDispatch (rfMailboxID demo_ref), dispatch_frame demo_ref url)]"
    by auto
  obtain pf where pf: "printer_readLoop (map Some (pumpDispatch [PumpMsg (dispatch_frame demo_ref url) True])) = [pf]"
    by (simp add: dispatch_frame_def pframe_read_dispatchPayload)
  have get: "http_get demo_outside (pBlobURL pf) (pext demo_machine) = (Inr (200, Inr (replicate 12 0 @ [1, 2, 3])), ())"
    by (simp add: demo_outside_def)
  have paper: "paper demo_outside demo_config (uuid_string ref_env 10) [1, 2, 3] () ()"
    by (simp add: paper_def demo_outside_def demo_config_def)
  from document_reaches_paper [OF ref_answers.answering_axioms ref_publish.publish_history_axioms demo_ref_def demo_uuid
      demo_dispatched(1) p pf rtranclp.rtrancl_refl demo_up(2) get demo_sealed paper demo_slots refl, of "''m''"]
  show ?thesis by (auto simp: demo_machine_def)
qed

section \<open>A frame that comes twice\<close>

context answering
begin

lemma second_frame_fails:
  assumes "up (ext v)" "status_of (db v) i \<noteq> None" "uuid_parse E (pJobID f) = Some i"
    "status < 400" "http_get F (pBlobURL f) (pext m) = (Inr (status, Inr blob), p1)"
    "StdDecode (pEncryptedKey f) = Some ek" "sealed_for F key ek doc blob" "paper F cfg (pJobID f) doc p1 p'"
    "pslots m = counted slot n" "m1 = handleDispatch F cfg key f m"
    "400 \<le> gone" "http_get F (pBlobURL f) p' = (Inr (gone, body), p2)" "m2 = handleDispatch F cfg key f m1"
  shows "\<exists>v1 v2. readLoop E (main_hub E) mbx (wire_of (drop (length (sent m)) (sent m1))) v = Some v1 \<and>
    status_of (db v1) i = Some ''delivered'' \<and>
    readLoop E (main_hub E) mbx (wire_of (drop (length (sent m1)) (sent m2))) v1 = Some v2 \<and>
    status_of (db v2) i = Some ''failed''"
proof -
  note print = handleDispatch_prints [OF assms(4-9)]
  from print(1) obtain st sl where sl: "slots_ok sl" and
    1: "drop (length (sent m)) (sent m1) =
      [status_frame (pJobID f) ''printing'' [], status_frame (pJobID f) ''delivered'' [], state_frame st sl]"
    unfolding assms(10) by auto
  from hub_reads_delivery [OF assms(1-3) sl] obtain v1 where
    v1: "readLoop E (main_hub E) mbx (wire_of (drop (length (sent m)) (sent m1))) v = Some v1"
      "status_of (db v1) i = Some ''delivered''" unfolding 1 by blast
  have up: "up (ext v1)" "status_of (db v1) i \<noteq> None" using quiet_readLoop [OF v1(1)] assms(1) v1(2) by simp_all
  have "http_get F (pBlobURL f) (pext m1) = (Inr (gone, body), p2)" using print(2) assms(10,12) by simp
  from handleDispatch_gone [OF this assms(11)] have
    2: "drop (length (sent m1)) (sent m2) =
      [status_frame (pJobID f) ''printing'' [], status_frame (pJobID f) ''failed'' ''processing failed'']"
    unfolding assms(13) by simp
  from hub_reads_failure [OF up assms(3)] v1 show ?thesis unfolding 2 by blast
qed

end

text \<open>
  C33: No status is final. When a printer gets the frame of a job a second time (C38 shows how) after
  the first delivery had the blob deleted, it finds nothing to fetch, reports the job failed, and
  the hub writes that over the delivered row: the document is on paper and the database says it failed.
\<close>

theorem redelivery_overwrites_delivered:
  assumes "answering E up" "up (ext v)" "status_of (db v) i \<noteq> None" "uuid_parse E (pJobID f) = Some i"
    "status < 400" "http_get F (pBlobURL f) (pext m) = (Inr (status, Inr blob), p1)"
    "StdDecode (pEncryptedKey f) = Some ek" "sealed_for F key ek doc blob" "paper F cfg (pJobID f) doc p1 p'"
    "pslots m = counted slot n" "m1 = handleDispatch F cfg key f m"
    "400 \<le> gone" "http_get F (pBlobURL f) p' = (Inr (gone, body), p2)" "m2 = handleDispatch F cfg key f m1"
  shows "\<exists>v1 v2. readLoop E (main_hub E) mbx (wire_of (drop (length (sent m)) (sent m1))) v = Some v1 \<and>
    status_of (db v1) i = Some ''delivered'' \<and>
    readLoop E (main_hub E) mbx (wire_of (drop (length (sent m1)) (sent m2))) v1 = Some v2 \<and>
    status_of (db v2) i = Some ''failed''"
  by (rule answering.second_frame_fails [OF assms])

text \<open>The outside of a printer whose blob is gone after the first fetch.\<close>

definition demo_once :: "(unit, nat) outside" where
  "demo_once = \<lparr>prims = demo_prims,
     http_get = (\<lambda>u p. if p = 0 then (Inr (200, Inr (replicate 12 0 @ [1, 2, 3])), 1) else (Inr (404, Inr []), p)),
     os_write = (\<lambda>_ p. (Written, p)), os_remove = (\<lambda>_ p. (True, p)), lp_run = (\<lambda>_ _ _ p. (Inr (), p))\<rparr>"

definition demo_printer :: "nat machine" where
  "demo_printer = \<lparr>mem = [], files = (\<lambda>_. None), sent = [], pslots = newSlotState ''s'', pext = 0\<rparr>"

definition demo_frame :: pframe where
  "demo_frame = demo_dispatch\<lparr>pJobID := ref_uuid_string 10, pEncryptedKey := StdEncode [1, 2, 3]\<rparr>"

lemma redelivery_overwrites_delivered_witness:
  "\<exists>v1 v2 xs. readLoop ref_env (main_hub ref_env) ''m''
      (wire_of (sent (handleDispatch demo_once demo_config () demo_frame demo_printer))) demo_world = Some v1 \<and>
    status_of (db v1) 10 = Some ''delivered'' \<and>
    readLoop ref_env (main_hub ref_env) ''m'' xs v1 = Some v2 \<and> status_of (db v2) 10 = Some ''failed''"
proof -
  let ?m1 = "handleDispatch demo_once demo_config () demo_frame demo_printer"
  have exists: "status_of (db demo_world) 10 \<noteq> None" by code_simp
  have parse: "uuid_parse ref_env (pJobID demo_frame) = Some 10"
    using demo_uuid by (simp add: demo_frame_def ref_env_def)
  have get: "http_get demo_once (pBlobURL demo_frame) (pext demo_printer) = (Inr (200, Inr (replicate 12 0 @ [1, 2, 3])), 1)"
    "http_get demo_once (pBlobURL demo_frame) 1 = (Inr (404, Inr []), 1)"
    by (simp_all add: demo_once_def demo_printer_def)
  have key: "StdDecode (pEncryptedKey demo_frame) = Some [1, 2, 3]" by (simp add: demo_frame_def)
  have seal: "sealed_for demo_once () [1, 2, 3] [1, 2, 3] (replicate 12 0 @ [1, 2, 3])"
    by (auto simp: sealed_for_def demo_once_def demo_prims_def)
  have paper: "paper demo_once demo_config (pJobID demo_frame) [1, 2, 3] 1 1"
    by (simp add: paper_def demo_once_def demo_config_def)
  have slots: "pslots demo_printer = counted ''s'' 0" by (simp add: demo_printer_def newSlotState_def counted_def)
  have codes: "(200 :: nat) < 400" "(400 :: nat) \<le> 404" by simp_all
  from redelivery_overwrites_delivered [OF ref_answers.answering_axioms demo_up(1) exists parse codes(1) get(1) key seal paper
      slots refl codes(2) get(2) refl, of "''m''"]
  show ?thesis by (auto simp: demo_printer_def)
qed

end
