(* ===== verification/Tls.thy ===== *)
theory Tls
  imports Prelude
begin

text \<open>
  What the two services use of Go's \<^verbatim>\<open>crypto/tls\<close>: the fields they set in a \<^verbatim>\<open>tls.Config\<close>, and
  which peers a handshake under such a configuration lets through. Whether a certificate chains up
  to a pool, and carries a host's name, is a parameter.
\<close>

section \<open>The listening side\<close>

datatype client_auth = NoClientCert | RequestClientCert | RequireAnyClientCert
  | VerifyClientCertIfGiven | RequireAndVerifyClientCert

record 'pool tls_server =
  ClientAuth :: client_auth
  ClientCAs :: 'pool
  MinVersion :: nat

definition VersionTLS12 :: nat where "VersionTLS12 = 771"

text \<open>The certificate a client presented, if it did, against the server's policy.\<close>

fun client_admitted :: "client_auth \<Rightarrow> ('cert \<Rightarrow> bool) \<Rightarrow> 'cert option \<Rightarrow> bool" where
  "client_admitted NoClientCert ok peer = True"
| "client_admitted RequestClientCert ok peer = True"
| "client_admitted RequireAnyClientCert ok peer = (peer \<noteq> None)"
| "client_admitted VerifyClientCertIfGiven ok peer = (case peer of None \<Rightarrow> True | Some c \<Rightarrow> ok c)"
| "client_admitted RequireAndVerifyClientCert ok peer = (case peer of None \<Rightarrow> False | Some c \<Rightarrow> ok c)"

definition accepts_client :: "('pool \<Rightarrow> 'cert \<Rightarrow> bool) \<Rightarrow> 'pool tls_server \<Rightarrow> nat \<Rightarrow> 'cert option \<Rightarrow> bool" where
  "accepts_client verify cfg version peer \<longleftrightarrow>
     MinVersion cfg \<le> version \<and> client_admitted (ClientAuth cfg) (verify (ClientCAs cfg)) peer"

section \<open>The dialling side\<close>

record ('pool, 'cert) tls_client =
  RootCAs :: 'pool
  Certificates :: "'cert list"
  InsecureSkipVerify :: bool

definition accepts_server :: "('pool \<Rightarrow> 'cert \<Rightarrow> bool) \<Rightarrow> ('cert \<Rightarrow> string \<Rightarrow> bool) \<Rightarrow> ('pool, 'cert) tls_client
    \<Rightarrow> string \<Rightarrow> 'cert \<Rightarrow> bool" where
  "accepts_server verify names cfg host c \<longleftrightarrow> InsecureSkipVerify cfg \<or> (verify (RootCAs cfg) c \<and> names c host)"

text \<open>The client presents the first certificate it has, when the server asks for one.\<close>

definition presented :: "client_auth \<Rightarrow> ('pool, 'cert) tls_client \<Rightarrow> 'cert option" where
  "presented auth cfg = (if auth = NoClientCert \<or> Certificates cfg = [] then None else Some (hd (Certificates cfg)))"

definition handshake :: "('pool \<Rightarrow> 'cert \<Rightarrow> bool) \<Rightarrow> ('cert \<Rightarrow> string \<Rightarrow> bool) \<Rightarrow> ('pool, 'cert) tls_client \<Rightarrow> string
    \<Rightarrow> 'pool tls_server \<Rightarrow> 'cert \<Rightarrow> nat \<Rightarrow> bool" where
  "handshake verify names client host srv server_cert version \<longleftrightarrow>
     accepts_server verify names client host server_cert \<and>
     accepts_client verify srv version (presented (ClientAuth srv) client)"

text \<open>\<^verbatim>\<open>RequireAndVerifyClientCert\<close> is the one policy under which every admitted client is verified.\<close>

lemma verified_only_iff:
  "(\<forall>ok peer. client_admitted auth ok peer \<longrightarrow> (\<exists>c :: 'cert. peer = Some c \<and> ok c)) \<longleftrightarrow>
     auth = RequireAndVerifyClientCert"
proof
  assume *: "\<forall>ok peer. client_admitted auth ok peer \<longrightarrow> (\<exists>c :: 'cert. peer = Some c \<and> ok c)"
  show "auth = RequireAndVerifyClientCert"
    using spec [OF spec [OF *, of "\<lambda>_. False"], of None] spec [OF spec [OF *, of "\<lambda>_. False"], of "Some undefined"]
    by (cases auth) auto
qed (auto split: option.splits)

lemma verified_client:
  assumes "accepts_client verify cfg version peer" "ClientAuth cfg = RequireAndVerifyClientCert"
  shows "\<exists>c. peer = Some c \<and> verify (ClientCAs cfg) c \<and> MinVersion cfg \<le> version"
  using assms by (auto simp: accepts_client_def split: option.splits)

end
