(* ===== verification/Cloud_Start.thy ===== *)
theory Cloud_Start
  imports Router Tls Printer_Crypto
begin

text \<open>
  The start of \<^verbatim>\<open>services/cloud/main.go\<close>: the environment it requires, the keys it loads, the clients
  it builds, the internal listener with its TLS policy and its routes, the profiler's switch
  (\<^verbatim>\<open>pprof.go\<close>); then the life of the whole process from its start to its end.
\<close>

section \<open>What the start is given\<close>

text \<open>
  The operating system and the libraries \<^verbatim>\<open>main\<close> calls: files, PEM and key parsing, certificate
  pools, the validation each client's constructor does, the clock syntax of \<^verbatim>\<open>time.ParseDuration\<close>.
\<close>

record minio_client =
  mcEndpoint :: string
  mcAccessKey :: string
  mcSecretKey :: string
  mcSecure :: bool
  mcRegion :: string

record ('s, 'k, 'pub, 'pool) startup =
  suGetenv :: "string \<Rightarrow> string"
  suReadFile :: "string \<Rightarrow> bytes res"
  suPem :: "bytes \<Rightarrow> pem_block option"
  suPKCS8 :: "bytes \<Rightarrow> 'k parsed_key res"
  suPKIX :: "bytes \<Rightarrow> 'pub parsed_key res"
  suPool :: "bytes \<Rightarrow> 'pool option"
  suSqlOpen :: "string \<Rightarrow> unit res"
  suRedisURL :: "string \<Rightarrow> unit res"
  suMinioNew :: "minio_client \<Rightarrow> unit res"
  suPresign :: "minio_client \<Rightarrow> string \<Rightarrow> string \<Rightarrow> int \<Rightarrow> 's \<Rightarrow> string res \<times> 's"
  suHostname :: "string res"
  suDuration :: "string \<Rightarrow> int option"

text \<open>\<^verbatim>\<open>log.Fatalf\<close> ends the process: the left side of the result.\<close>

definition fatal :: "string \<Rightarrow> go_error \<Rightarrow> 'a res" where
  "fatal what e = Inl (Err (what @ err_text e))"

definition cloud_mustEnv :: "('s, 'k, 'pub, 'pool) startup \<Rightarrow> string \<Rightarrow> string res" where
  "cloud_mustEnv L key =
     (if suGetenv L key = [] then Inl (Err (''required env var '' @ key @ '' is not set'')) else Inr (suGetenv L key))"

definition loadRSAPrivateKey :: "('s, 'k, 'pub, 'pool) startup \<Rightarrow> string \<Rightarrow> 'k res" where
  "loadRSAPrivateKey L path =
     (case suReadFile L path of Inl e \<Rightarrow> Inl e | Inr raw \<Rightarrow>
      case suPem L raw of None \<Rightarrow> Inl (Err (''no PEM block in '' @ path)) | Some block \<Rightarrow>
      case suPKCS8 L (pemBytes block) of Inl e \<Rightarrow> Inl e
      | Inr (OtherKey _) \<Rightarrow> Inl (Err (path @ '' is not an RSA private key''))
      | Inr (RsaKey key) \<Rightarrow> Inr key)"

definition loadRSAPublicKey :: "('s, 'k, 'pub, 'pool) startup \<Rightarrow> string \<Rightarrow> 'pub res" where
  "loadRSAPublicKey L path =
     (case suReadFile L path of Inl e \<Rightarrow> Inl e | Inr raw \<Rightarrow>
      case suPem L raw of None \<Rightarrow> Inl (Err (''no PEM block in '' @ path)) | Some block \<Rightarrow>
      case suPKIX L (pemBytes block) of Inl e \<Rightarrow> Inl e
      | Inr (OtherKey _) \<Rightarrow> Inl (Err (path @ '' is not an RSA public key''))
      | Inr (RsaKey key) \<Rightarrow> Inr key)"

section \<open>The internal listener\<close>

definition internalTLSConfig :: "'pool \<Rightarrow> 'pool tls_server" where
  "internalTLSConfig caPool =
     \<lparr>ClientAuth = RequireAndVerifyClientCert, ClientCAs = caPool, MinVersion = VersionTLS12\<rparr>"

datatype internal_endpoint = InternalHealthz | GetPrinterLink

definition internal_routes :: "internal_endpoint routes" where
  "internal_routes =
     [([], [Lit ''internal'', Lit ''healthz''], InternalHealthz),
      (''GET'', [Lit ''internal'', Lit ''printer-link''], GetPrinterLink)]"

record 'pool internal_server =
  inAddr :: string
  inRoutes :: "internal_endpoint routes"
  inTLS :: "'pool tls_server"
  inReadHeaderTimeout :: int

definition newMTLSServer :: "('s, 'k, 'pub, 'pool) startup \<Rightarrow> string \<Rightarrow> 'pool internal_server res" where
  "newMTLSServer L addr =
     (case suReadFile L (suGetenv L ''MTLS_CA_CERT_PATH'') of Inl e \<Rightarrow> Inl e | Inr caCert \<Rightarrow>
      case suPool L caCert of None \<Rightarrow> Inl (Err ''failed to parse internal CA cert'') | Some caPool \<Rightarrow>
        Inr \<lparr>inAddr = addr, inRoutes = internal_routes, inTLS = internalTLSConfig caPool,
             inReadHeaderTimeout = 10 * Second\<rparr>)"

definition internalHealthzHandler :: response where
  "internalHealthzHandler = WriteJSON 200 (JObj [(''status'', JStr ''ok'')])"

text \<open>\<^verbatim>\<open>PrinterLink\<close> of \<^verbatim>\<open>handlers/printerlink.go\<close>: the upgrade and what \<^verbatim>\<open>Accept\<close> does up to its loop.\<close>

definition PrinterLink :: "'s env \<Rightarrow> conn \<Rightarrow> wire \<Rightarrow> registry \<Rightarrow> 's world \<Rightarrow> accept_result \<times> registry \<times> 's world" where
  "PrinterLink E c first reg w = accept_begin E (main_hub E) c first reg w"

text \<open>
  A connection to the internal listener: the TLS version it negotiated and the certificate the
  client presented, then one request. A handshake the policy refuses reaches no handler.
\<close>

datatype internal_result = HandshakeRefused | Answered response | Linked accept_result

definition serve_internal :: "('pool \<Rightarrow> 'cert \<Rightarrow> bool) \<Rightarrow> 'pool internal_server \<Rightarrow> 's env \<Rightarrow> nat \<Rightarrow> 'cert option
    \<Rightarrow> string \<Rightarrow> string list \<Rightarrow> conn \<Rightarrow> wire \<Rightarrow> registry \<Rightarrow> 's world \<Rightarrow> internal_result \<times> registry \<times> 's world" where
  "serve_internal verify srv E version peer m path c first reg w =
     (if \<not> accepts_client verify (inTLS srv) version peer then (HandshakeRefused, reg, w)
      else (case route (inRoutes srv) m path of
              Routed InternalHealthz _ \<Rightarrow> (Answered internalHealthzHandler, reg, w)
            | Routed GetPrinterLink _ \<Rightarrow> (case PrinterLink E c first reg w of (r, reg', w') \<Rightarrow> (Linked r, reg', w'))
            | x \<Rightarrow> (Answered (mux_error x), reg, w)))"

section \<open>The profiler\<close>

definition pprof_paths :: "string list list" where
  "pprof_paths = [[''debug'', ''pprof'', ''/''], [''debug'', ''pprof'', ''cmdline''], [''debug'', ''pprof'', ''profile''],
     [''debug'', ''pprof'', ''symbol''], [''debug'', ''pprof'', ''trace'']]"

text \<open>The address of the profiler's own listener and what is registered on it, if it starts.\<close>

definition startPprof :: "string \<Rightarrow> (string \<times> string list list) option" where
  "startPprof addr = (if addr = [] then None else Some (addr, pprof_paths))"

section \<open>The start\<close>

text \<open>What a node's dispatcher and handlers run with, and the listeners \<^verbatim>\<open>main\<close> opens for them.\<close>

record ('s, 'k, 'pub) node_start =
  nsServer :: "'s server"
  nsJWTPriv :: 'k
  nsJWTPub :: 'pub
  nsDispatcher :: Dispatcher

record 'pool listeners =
  liInternal :: "'pool internal_server option"
  liPprof :: "(string \<times> string list list) option"
  liPublicAddr :: string
  liPublicReadHeaderTimeout :: int

definition start_minio :: "('s, 'k, 'pub, 'pool) startup \<Rightarrow> 's env \<Rightarrow> ('s, unit res) op" where
  "start_minio L E w =
     (case cloud_mustEnv L ''MINIO_ENDPOINT'' of Inl e \<Rightarrow> (Inl e, w) | Inr endpoint \<Rightarrow>
      case cloud_mustEnv L ''MINIO_ACCESS_KEY'' of Inl e \<Rightarrow> (Inl e, w) | Inr access \<Rightarrow>
      case cloud_mustEnv L ''MINIO_SECRET_KEY'' of Inl e \<Rightarrow> (Inl e, w) | Inr secret \<Rightarrow>
      case suMinioNew L \<lparr>mcEndpoint = endpoint, mcAccessKey = access, mcSecretKey = secret,
          mcSecure = (suGetenv L ''MINIO_SECURE'' = ''true''), mcRegion = []\<rparr> of
        Inl e \<Rightarrow> (fatal ''minio client: '' e, w)
      | Inr _ \<Rightarrow>
          (case EnsureBucket E w of
             (Inl e, w1) \<Rightarrow> (fatal ''minio bucket: '' e, w1)
           | (Inr _, w1) \<Rightarrow> (Inr (), w1)))"

text \<open>The client that signs upload URLs: the one every blob operation uses, or a public one.\<close>

definition start_presigner :: "('s, 'k, 'pub, 'pool) startup \<Rightarrow> 's env
    \<Rightarrow> (string \<Rightarrow> string \<Rightarrow> int \<Rightarrow> 's \<Rightarrow> string res \<times> 's) res" where
  "start_presigner L E =
     (let pub = suGetenv L ''MINIO_PUBLIC_ENDPOINT'' in
      if pub = [] then Inr (m_presign_put E)
      else (let region = (if suGetenv L ''MINIO_REGION'' = [] then ''us-east-1'' else suGetenv L ''MINIO_REGION'') in
        case cloud_mustEnv L ''MINIO_ACCESS_KEY'' of Inl e \<Rightarrow> Inl e | Inr access \<Rightarrow>
        case cloud_mustEnv L ''MINIO_SECRET_KEY'' of Inl e \<Rightarrow> Inl e | Inr secret \<Rightarrow>
          (let client = \<lparr>mcEndpoint = pub, mcAccessKey = access, mcSecretKey = secret,
               mcSecure = (suGetenv L ''MINIO_PUBLIC_SECURE'' = ''true''), mcRegion = region\<rparr>
           in case suMinioNew L client of
                Inl e \<Rightarrow> fatal ''minio public client: '' e
              | Inr _ \<Rightarrow> Inr (suPresign L client))))"

definition start_clients :: "('s, 'k, 'pub, 'pool) startup \<Rightarrow> unit res" where
  "start_clients L =
     (case cloud_mustEnv L ''DATABASE_URL'' of Inl e \<Rightarrow> Inl e | Inr dsn \<Rightarrow>
      case suSqlOpen L dsn of Inl e \<Rightarrow> fatal ''postgres open: '' e | Inr _ \<Rightarrow>
      case cloud_mustEnv L ''REDIS_URL'' of Inl e \<Rightarrow> Inl e | Inr url \<Rightarrow>
      case suRedisURL L url of Inl e \<Rightarrow> fatal ''redis URL: '' e | Inr _ \<Rightarrow> Inr ())"

definition start_keys :: "('s, 'k, 'pub, 'pool) startup \<Rightarrow> ('k \<times> 'pub) res" where
  "start_keys L =
     (case cloud_mustEnv L ''JWT_PRIVATE_KEY_PATH'' of Inl e \<Rightarrow> Inl e | Inr privPath \<Rightarrow>
      case loadRSAPrivateKey L privPath of Inl e \<Rightarrow> fatal ''JWT private key: '' e | Inr priv \<Rightarrow>
      case cloud_mustEnv L ''JWT_PUBLIC_KEY_PATH'' of Inl e \<Rightarrow> Inl e | Inr pubPath \<Rightarrow>
      case loadRSAPublicKey L pubPath of Inl e \<Rightarrow> fatal ''JWT public key: '' e | Inr pub \<Rightarrow> Inr (priv, pub))"

definition start_nodeID :: "('s, 'k, 'pub, 'pool) startup \<Rightarrow> 's env \<Rightarrow> ('s, string) op" where
  "start_nodeID L E w =
     (if suGetenv L ''NODE_ID'' \<noteq> [] then (suGetenv L ''NODE_ID'', w)
      else (case suHostname L of
              Inr hostname \<Rightarrow> (hostname, w)
            | Inl _ \<Rightarrow> (case call (uuid_new E) w of (u, w1) \<Rightarrow> (uuid_string E u, w1))))"

definition start_internal :: "('s, 'k, 'pub, 'pool) startup \<Rightarrow> 'pool internal_server option res" where
  "start_internal L =
     (let mtlsPort = suGetenv L ''MTLS_PORT'' in
      if mtlsPort = [] then Inr None
      else (case newMTLSServer L ('':'' @ mtlsPort) of
              Inl e \<Rightarrow> fatal ''internal mTLS listener: '' e | Inr srv \<Rightarrow> Inr (Some srv)))"

text \<open>Up to the start of the dispatcher's loop.\<close>

definition cloud_start :: "('s, 'k, 'pub, 'pool) startup \<Rightarrow> 's env \<Rightarrow> ('s, ('s, 'k, 'pub) node_start res) op" where
  "cloud_start L E w =
     (case start_clients L of Inl e \<Rightarrow> (Inl e, w) | Inr _ \<Rightarrow>
      case start_minio L E w of (Inl e, w1) \<Rightarrow> (Inl e, w1) | (Inr _, w1) \<Rightarrow>
      case start_presigner L E of Inl e \<Rightarrow> (Inl e, w1) | Inr presigner \<Rightarrow>
      case start_keys L of Inl e \<Rightarrow> (Inl e, w1) | Inr (jwtPriv, jwtPub) \<Rightarrow>
      case cloud_mustEnv L ''APP_ENCRYPTION_KEY'' of Inl e \<Rightarrow> (Inl e, w1) | Inr appKey \<Rightarrow>
      case start_nodeID L E w1 of (nodeID, w2) \<Rightarrow>
      case EnsureGroup E w2 of
        (Inl e, w3) \<Rightarrow> (fatal ''dispatch: create consumer group: '' e, w3)
      | (Inr _, w3) \<Rightarrow>
          (Inr \<lparr>nsServer = \<lparr>AppKey = appKey, UploadPresigner = Some presigner, DrainClosed = False\<rparr>,
             nsJWTPriv = jwtPriv, nsJWTPub = jwtPub,
             nsDispatcher = \<lparr>NodeID = nodeID, SweepInt = 0, ReapIdle = 0\<rparr>\<rparr>, w3))"

text \<open>The listeners, opened with the dispatcher already running.\<close>

definition start_listeners :: "('s, 'k, 'pub, 'pool) startup \<Rightarrow> 'pool listeners res" where
  "start_listeners L =
     (case start_internal L of Inl e \<Rightarrow> Inl e | Inr internal \<Rightarrow>
        Inr \<lparr>liInternal = internal, liPprof = startPprof (suGetenv L ''PPROF_ADDR''),
          liPublicAddr = '':'' @ (if suGetenv L ''PORT'' = [] then ''8080'' else suGetenv L ''PORT''),
          liPublicReadHeaderTimeout = 10 * Second\<rparr>)"

definition defaultShutdownGrace :: int where "defaultShutdownGrace = 20 * Second"

definition shutdown_grace :: "('s, 'k, 'pub, 'pool) startup \<Rightarrow> int" where
  "shutdown_grace L =
     (let v = suGetenv L ''SHUTDOWN_TIMEOUT'' in
      if v = [] then defaultShutdownGrace
      else (case suDuration L v of Some d \<Rightarrow> d | None \<Rightarrow> defaultShutdownGrace))"

section \<open>The life of the process\<close>

text \<open>
  What \<^verbatim>\<open>main\<close> waits for: a listener that ended by itself, which ends the process at once, or a
  signal, after which the shutdown sequence runs. Until then the node's world takes any steps.
\<close>

datatype main_event = ListenerDied | Signalled

datatype 's cloud_exit = Fatal "'s world" | ShutDown "(string \<times> bool) list" "'s process"

definition running :: "'s world \<Rightarrow> 's process" where
  "running w = \<lparr>prWorld = w, prDraining = False, prStopDispatcher = False, prSockets = [],
     prPublicDown = False, prInternalDown = False\<rparr>"

definition main_wait :: "'s env \<Rightarrow> ('s, 'k, 'pub) node_start \<Rightarrow> 'pool listeners \<Rightarrow> registry \<Rightarrow> bool \<Rightarrow> (conn \<Rightarrow> bool)
    \<Rightarrow> unit res \<Rightarrow> unit res \<Rightarrow> main_event \<Rightarrow> 's world \<Rightarrow> 's cloud_exit" where
  "main_wait E nd li reg loop_returns closes public_shutdown internal_shutdown ev w =
     (case ev of
        ListenerDied \<Rightarrow> Fatal w
      | Signalled \<Rightarrow>
          (case runShutdown (main_steps E (nsDispatcher nd) loop_returns reg closes public_shutdown
                 (if liInternal li = None then None else Some internal_shutdown)) (running w) of
             (log, p) \<Rightarrow> ShutDown log p))"

inductive cloud_run :: "('s, 'k, 'pub, 'pool) startup \<Rightarrow> 's env \<Rightarrow> 's world \<Rightarrow> 's cloud_exit \<Rightarrow> bool" for L E w where
  NotStarted: "cloud_start L E w = (Inl e, w1) \<Longrightarrow> cloud_run L E w (Fatal w1)"
| NotListening: "cloud_start L E w = (Inr nd, w1) \<Longrightarrow> start_listeners L = Inl e \<Longrightarrow>
    (world_step E (nsServer nd))\<^sup>*\<^sup>* w1 w2 \<Longrightarrow> cloud_run L E w (Fatal w2)"
| Served: "cloud_start L E w = (Inr nd, w1) \<Longrightarrow> start_listeners L = Inr li \<Longrightarrow>
    (world_step E (nsServer nd))\<^sup>*\<^sup>* w1 w2 \<Longrightarrow>
    cloud_run L E w (main_wait E nd li reg loop_returns closes public_shutdown internal_shutdown ev w2)"

fun exit_world :: "'s cloud_exit \<Rightarrow> 's world" where
  "exit_world (Fatal w) = w"
| "exit_world (ShutDown log p) = prWorld p"

section \<open>Facts about the start\<close>

lemma cloud_mustEnv_InrD: "cloud_mustEnv L k = Inr v \<Longrightarrow> v = suGetenv L k \<and> suGetenv L k \<noteq> []"
  by (auto simp: cloud_mustEnv_def split: if_splits)

lemma fatal_Inr [simp]: "fatal m e \<noteq> Inr x" "Inr x \<noteq> fatal m e"
  by (simp_all add: fatal_def)

lemma start_clients_InrD:
  "start_clients L = Inr u \<Longrightarrow> suGetenv L ''DATABASE_URL'' \<noteq> [] \<and> suGetenv L ''REDIS_URL'' \<noteq> []"
  by (auto simp: start_clients_def split: sum.splits dest!: cloud_mustEnv_InrD)

lemma start_minio_InrD:
  "start_minio L E w = (Inr u, w') \<Longrightarrow> suGetenv L ''MINIO_ENDPOINT'' \<noteq> [] \<and>
     suGetenv L ''MINIO_ACCESS_KEY'' \<noteq> [] \<and> suGetenv L ''MINIO_SECRET_KEY'' \<noteq> [] \<and> EnsureBucket E w = (Inr (), w')"
  by (auto simp: start_minio_def split: sum.splits prod.splits dest!: cloud_mustEnv_InrD)

lemma start_minio_db [simp]: "db (snd (start_minio L E w)) = db w"
proof -
  have e: "EnsureBucket E w = (x, w1) \<Longrightarrow> db w1 = db w" for x w1 using minio_db(1) [of E w] by simp
  show ?thesis by (auto simp: start_minio_def split: sum.splits prod.splits dest: e)
qed

lemma start_keys_InrD:
  "start_keys L = Inr (priv, pub) \<Longrightarrow> suGetenv L ''JWT_PRIVATE_KEY_PATH'' \<noteq> [] \<and> suGetenv L ''JWT_PUBLIC_KEY_PATH'' \<noteq> [] \<and>
     loadRSAPrivateKey L (suGetenv L ''JWT_PRIVATE_KEY_PATH'') = Inr priv \<and>
     loadRSAPublicKey L (suGetenv L ''JWT_PUBLIC_KEY_PATH'') = Inr pub"
  by (auto simp: start_keys_def split: sum.splits dest!: cloud_mustEnv_InrD)

lemma start_nodeID_db [simp]: "db (snd (start_nodeID L E w)) = db w"
  by (auto simp: start_nodeID_def split: sum.splits prod.splits dest: call_eqD)

lemma EnsureGroup_db [simp]: "db (snd (EnsureGroup E w)) = db w"
  by (auto simp: EnsureGroup_def split: sum.splits prod.splits dest: call_eqD)

lemma cloud_start_db: "cloud_start L E w = (r, w') \<Longrightarrow> db w' = db w"
  using start_minio_db [of L E w] start_nodeID_db [of L E "snd (start_minio L E w)"]
    EnsureGroup_db [of E "snd (start_nodeID L E (snd (start_minio L E w)))"]
  by (auto simp: cloud_start_def simp del: start_minio_db start_nodeID_db EnsureGroup_db split: sum.splits prod.splits)

lemma newMTLSServer_InrD:
  "newMTLSServer L addr = Inr srv \<Longrightarrow> inTLS srv = internalTLSConfig (ClientCAs (inTLS srv)) \<and>
     inRoutes srv = internal_routes \<and>
     (\<exists>pem. suReadFile L (suGetenv L ''MTLS_CA_CERT_PATH'') = Inr pem \<and> suPool L pem = Some (ClientCAs (inTLS srv)))"
  by (auto simp: newMTLSServer_def internalTLSConfig_def split: sum.splits option.splits)

lemma serve_internal_verified:
  assumes "newMTLSServer L addr = Inr srv" "serve_internal verify srv E version peer m path c first reg w = (res, reg', w')"
    "res \<noteq> HandshakeRefused"
  shows "VersionTLS12 \<le> version \<and> (\<exists>cert pem pool. peer = Some cert \<and> verify pool cert \<and>
    suReadFile L (suGetenv L ''MTLS_CA_CERT_PATH'') = Inr pem \<and> suPool L pem = Some pool)"
proof -
  have "accepts_client verify (inTLS srv) version peer"
    using assms(2,3) by (auto simp: serve_internal_def split: if_splits)
  moreover have "ClientAuth (inTLS srv) = RequireAndVerifyClientCert" "MinVersion (inTLS srv) = VersionTLS12"
    using newMTLSServer_InrD [OF assms(1)] by (metis internalTLSConfig_def tls_server.select_convs(1),
      metis internalTLSConfig_def tls_server.select_convs(3))
  ultimately show ?thesis
    using verified_client newMTLSServer_InrD [OF assms(1)] by metis
qed

lemma main_wait_db: "db (exit_world (main_wait E nd li reg lr closes pub internal ev w)) = db w"
proof (cases ev)
  case Signalled
  let ?i = "if liInternal li = None then None else Some internal"
  obtain log p where lp: "runShutdown (main_steps E (nsDispatcher nd) lr reg closes pub ?i) (running w) = (log, p)"
    by fastforce
  from main_shutdown(7) [OF lp] show ?thesis
    using Signalled lp RemoveConsumer_db [of E "nsDispatcher nd" w] by (simp add: main_wait_def running_def)
qed (simp add: main_wait_def)

lemma cloud_run_db:
  assumes "cloud_run L E w x"
  shows "db (exit_world x) = db w \<or> (\<exists>nd w1 w2. cloud_start L E w = (Inr nd, w1) \<and> db w1 = db w \<and>
    (world_step E (nsServer nd))\<^sup>*\<^sup>* w1 w2 \<and> db (exit_world x) = db w2)"
  using assms by (cases rule: cloud_run.cases) (auto simp: main_wait_db dest: cloud_start_db intro!: exI)

end
