(* ===== verification/Printer_Start.thy ===== *)
theory Printer_Start
  imports Printer_Link Tls Serve_Mux
begin

text \<open>
  The start of the printer (\<^verbatim>\<open>main.go\<close>), its half of the mutual TLS (\<^verbatim>\<open>mtls.go\<close>) and the listener of
  its health probe (\<^verbatim>\<open>health.go\<close>).
\<close>

section \<open>Mutual TLS\<close>

text \<open>Files, certificate pools and key pairs, as \<^verbatim>\<open>os\<close>, \<^verbatim>\<open>crypto/x509\<close> and \<^verbatim>\<open>crypto/tls\<close> read them.\<close>

record ('pool, 'cert) tls_files =
  tfReadFile :: "string \<Rightarrow> bytes res"
  tfPool :: "bytes \<Rightarrow> 'pool option"
  tfKeyPair :: "string \<Rightarrow> string \<Rightarrow> 'cert res"

definition newMTLSClientConfig :: "('pool, 'cert) tls_files \<Rightarrow> config \<Rightarrow> ('pool, 'cert) tls_client res" where
  "newMTLSClientConfig T cfg =
     (case tfReadFile T (cfMTLSCACertPath cfg) of Inl e \<Rightarrow> Inl (Err (''read CA cert: '' @ err_text e)) | Inr caCert \<Rightarrow>
      case tfPool T caCert of
        None \<Rightarrow> Inl (Err (''failed to parse internal CA cert at '' @ cfMTLSCACertPath cfg))
      | Some caPool \<Rightarrow>
          (case tfKeyPair T (cfMTLSCertPath cfg) (cfMTLSKeyPath cfg) of
             Inl e \<Rightarrow> Inl (Err (''load client cert/key: '' @ err_text e))
           | Inr cert \<Rightarrow> Inr \<lparr>RootCAs = caPool, Certificates = [cert], InsecureSkipVerify = False\<rparr>))"

lemma newMTLSClientConfig_InrD:
  "newMTLSClientConfig T cfg = Inr client \<Longrightarrow> \<not> InsecureSkipVerify client \<and>
     (\<exists>pem. tfReadFile T (cfMTLSCACertPath cfg) = Inr pem \<and> tfPool T pem = Some (RootCAs client)) \<and>
     (\<exists>cert. tfKeyPair T (cfMTLSCertPath cfg) (cfMTLSKeyPath cfg) = Inr cert \<and> Certificates client = [cert])"
  by (auto simp: newMTLSClientConfig_def split: sum.splits option.splits)

section \<open>The start\<close>

text \<open>
  \<^verbatim>\<open>main\<close>: a failing configuration or key ends the process before anything runs; otherwise the
  printer enters its connection loop with a fresh slot state.
\<close>

definition printer_main :: "'k primitives \<Rightarrow> (string \<Rightarrow> bytes res) \<Rightarrow> (string \<Rightarrow> string option)
    \<Rightarrow> (config \<times> 'k \<times> printer_slots) res \<times> (string \<Rightarrow> string option)" where
  "printer_main P readFile envv =
     (case loadConfig (\<lambda>k. case envv k of None \<Rightarrow> [] | Some v \<Rightarrow> v) of
        Inl e \<Rightarrow> (Inl e, envv)
      | Inr cfg \<Rightarrow>
          (case loadDocKey P readFile (cfPrinterPrivateKeyPath cfg) envv of
             (Inl e, _, envv1) \<Rightarrow> (Inl (Err (''printer: load document private key: '' @ err_text e)), envv1)
           | (Inr key, _, envv1) \<Rightarrow> (Inr (cfg, key, newSlotState (cfSlotID cfg)), envv1)))"

lemma loadDocKey_disposes:
  assumes "loadDocKey P readFile path envv = (r, buf, envv')" "envv ''PRINTER_KEY_PASSPHRASE'' = Some pass" "pass \<noteq> []"
  shows "envv' = envv(''PRINTER_KEY_PASSPHRASE'' := None)" "buf = replicate (length pass) 0"
  using assms by (auto simp: loadDocKey_def Let_def zeroBytes_replicate split: sum.splits)

text \<open>A started printer runs with no passphrase in its environment, and all else as it was.\<close>

lemma printer_main_InrD:
  assumes "printer_main P readFile envv = (Inr (cfg, key, slots), envv')"
  shows "envv' = envv(''PRINTER_KEY_PASSPHRASE'' := None)" "slots = newSlotState (cfSlotID cfg)"
    "\<exists>pem pass. readFile (cfPrinterPrivateKeyPath cfg) = Inr pem \<and> envv ''PRINTER_KEY_PASSPHRASE'' = Some pass \<and>
       loadPrinterPrivateKey P pem (map of_char pass) = Inr key"
  using assms
  by (auto simp: printer_main_def loadDocKey_def Let_def split: sum.splits prod.splits option.splits if_splits)

section \<open>The health listener\<close>

text \<open>
  \<^verbatim>\<open>startHealthServer\<close>: a listener with one route. The listener ending is fatal to the process.
\<close>

record health_server =
  hsAddr :: string
  hsRoutes :: "unit routes"
  hsReadHeaderTimeout :: int

definition health_server :: "string \<Rightarrow> health_server" where
  "health_server addr = \<lparr>hsAddr = addr, hsRoutes = [(''GET'', [Lit ''healthz''], ())], hsReadHeaderTimeout = 10 * Second\<rparr>"

definition startHealthServer :: "string \<Rightarrow> (health_server \<Rightarrow> unit res) \<Rightarrow> unit res" where
  "startHealthServer addr listenAndServe =
     (case listenAndServe (health_server addr) of
        Inl e \<Rightarrow> Inl (Err (''healthcheck listener failed: '' @ err_text e)) | Inr _ \<Rightarrow> Inr ())"

text \<open>A request to it: the status and, where the probe answers, its body.\<close>

definition serve_health :: "health_server \<Rightarrow> bool \<Rightarrow> string \<Rightarrow> string list \<Rightarrow> nat \<times> json option" where
  "serve_health h connected m path =
     (case route (hsRoutes h) m path of
        Routed _ _ \<Rightarrow> (200, Some (healthzHandler connected)) | NotAllowed _ \<Rightarrow> (405, None) | NoRoute \<Rightarrow> (404, None))"

lemma serve_health_ok: "serve_health (health_server addr) c ''GET'' [''healthz''] = (200, Some (healthzHandler c))"
  by (simp add: serve_health_def health_server_def route_def method_match_def)

end
