(* ===== verification/Start_Properties.thy ===== *)
theory Start_Properties
  imports Demo Cloud_Start Printer_Start
begin

text \<open>
  The properties of the start of a cloud node and of the TLS link between the two services.
\<close>

section \<open>A node that starts has everything it needs\<close>

definition required_vars :: "string list" where
  "required_vars = [''DATABASE_URL'', ''REDIS_URL'', ''MINIO_ENDPOINT'', ''MINIO_ACCESS_KEY'', ''MINIO_SECRET_KEY'',
     ''JWT_PRIVATE_KEY_PATH'', ''JWT_PUBLIC_KEY_PATH'', ''APP_ENCRYPTION_KEY'']"

text \<open>
  C26: A node starts only with every required variable set, with both token keys read and parsed as
  RSA keys, with the bucket and the consumer group in place; any other start ends the process. The
  start leaves the database alone. The internal listener is opened exactly when its port is set, and
  the profiler exactly when its address is.
\<close>

theorem start_needs_everything:
  assumes "cloud_start L E w = (Inr nd, w')"
  shows "(\<forall>k\<in>set required_vars. suGetenv L k \<noteq> []) \<and>
    loadRSAPrivateKey L (suGetenv L ''JWT_PRIVATE_KEY_PATH'') = Inr (nsJWTPriv nd) \<and>
    loadRSAPublicKey L (suGetenv L ''JWT_PUBLIC_KEY_PATH'') = Inr (nsJWTPub nd) \<and>
    AppKey (nsServer nd) = suGetenv L ''APP_ENCRYPTION_KEY'' \<and> \<not> draining (nsServer nd) \<and>
    fst (EnsureBucket E w) = Inr () \<and> (\<exists>u. EnsureGroup E u = (Inr (), w')) \<and> db w' = db w \<and>
    (start_listeners L = Inr li \<longrightarrow> (liInternal li = None \<longleftrightarrow> suGetenv L ''MTLS_PORT'' = []) \<and>
       (liPprof li = None \<longleftrightarrow> suGetenv L ''PPROF_ADDR'' = []))"
proof -
  obtain u w1 presigner w2 nodeID where
    c: "start_clients L = Inr u" and m: "start_minio L E w = (Inr (), w1)" and
    k: "start_keys L = Inr (nsJWTPriv nd, nsJWTPub nd)" and
    a: "cloud_mustEnv L ''APP_ENCRYPTION_KEY'' = Inr (AppKey (nsServer nd))" and
    g: "EnsureGroup E w2 = (Inr (), w')" and d: "\<not> draining (nsServer nd)"
    using assms by (auto simp: cloud_start_def draining_def split: sum.splits prod.splits)
  show ?thesis
    using start_clients_InrD [OF c] start_minio_InrD [OF m] start_keys_InrD [OF k] cloud_mustEnv_InrD [OF a]
      g d cloud_start_db [OF assms]
    by (auto simp: required_vars_def start_listeners_def start_internal_def startPprof_def Let_def split: sum.splits)
qed

definition demo_vars :: "(string \<times> string) list" where
  "demo_vars = map (\<lambda>k. (k, ''v'')) required_vars @ [(''NODE_ID'', ''node-1''), (''MTLS_PORT'', ''8443''),
     (''MTLS_CA_CERT_PATH'', ''ca'')]"

definition demo_startup :: "(ref_state, nat, nat, nat) startup" where
  "demo_startup = \<lparr>suGetenv = (\<lambda>k. case map_of demo_vars k of None \<Rightarrow> [] | Some v \<Rightarrow> v),
     suReadFile = (\<lambda>p. Inr (map of_char p)), suPem = (\<lambda>b. Some \<lparr>pemType = ''PRIVATE KEY'', pemBytes = b\<rparr>),
     suPKCS8 = (\<lambda>b. Inr (RsaKey 1)), suPKIX = (\<lambda>b. Inr (RsaKey 2)), suPool = (\<lambda>b. Some (length b)),
     suSqlOpen = (\<lambda>_. Inr ()), suRedisURL = (\<lambda>_. Inr ()), suMinioNew = (\<lambda>_. Inr ()),
     suPresign = (\<lambda>_ b p ttl s. (Inr p, s)), suHostname = Inr ''host'', suDuration = (\<lambda>_. None)\<rparr>"

definition demo_started :: "(ref_state, nat, nat) node_start res \<times> ref_state world" where
  "demo_started = cloud_start demo_startup ref_env demo_world"

definition demo_node :: "(ref_state, nat, nat) node_start" where
  "demo_node = projr (fst demo_started)"

lemma demo_started_ok: "cloud_start demo_startup ref_env demo_world = (Inr demo_node, snd demo_started)"
proof -
  have "isl (fst demo_started) = False" by code_simp
  then show ?thesis by (cases "fst demo_started") (auto simp: demo_node_def demo_started_def prod_eq_iff)
qed

lemma start_needs_everything_witness:
  "AppKey (nsServer demo_node) = ''v'' \<and> nsJWTPriv demo_node = 1 \<and> db (snd demo_started) = demo_db"
  using start_needs_everything [OF demo_started_ok]
  by (simp add: demo_startup_def loadRSAPrivateKey_def demo_vars_def required_vars_def demo_world_def)

section \<open>The printer link\<close>

text \<open>
  C36: The link between printer and cloud is authenticated on both sides. The internal listener
  hands a request to a handler only over TLS 1.2 or newer and from a client whose certificate chains
  up to the authority the node's operator configured. And a connection the printer's own
  configuration and that listener agree on presents the printer's key pair, which the cloud verifies,
  and a server certificate for the host dialled, which chains up to the printer's authority.
\<close>

theorem printer_link_is_mutual_tls:
  assumes "newMTLSServer L addr = Inr srv"
  shows "(serve_internal verify srv E version peer m path c first reg w = (res, reg', w') \<and> res \<noteq> HandshakeRefused \<longrightarrow>
      VersionTLS12 \<le> version \<and> (\<exists>cert pem pool. peer = Some cert \<and> verify pool cert \<and>
        suReadFile L (suGetenv L ''MTLS_CA_CERT_PATH'') = Inr pem \<and> suPool L pem = Some pool)) \<and>
    (newMTLSClientConfig T cfg = Inr client \<and> handshake verify names client host (inTLS srv) crt version \<longrightarrow>
      (\<exists>own pem pool. tfKeyPair T (cfMTLSCertPath cfg) (cfMTLSKeyPath cfg) = Inr own \<and>
        verify (ClientCAs (inTLS srv)) own \<and> names crt host \<and> verify pool crt \<and>
        tfReadFile T (cfMTLSCACertPath cfg) = Inr pem \<and> tfPool T pem = Some pool))"
proof (intro conjI impI)
  assume "serve_internal verify srv E version peer m path c first reg w = (res, reg', w') \<and> res \<noteq> HandshakeRefused"
  then show "VersionTLS12 \<le> version" "\<exists>cert pem pool. peer = Some cert \<and> verify pool cert \<and>
      suReadFile L (suGetenv L ''MTLS_CA_CERT_PATH'') = Inr pem \<and> suPool L pem = Some pool"
    using serve_internal_verified [OF assms] by blast+
next
  assume *: "newMTLSClientConfig T cfg = Inr client \<and> handshake verify names client host (inTLS srv) crt version"
  have auth: "ClientAuth (inTLS srv) = RequireAndVerifyClientCert"
    using newMTLSServer_InrD [OF assms] by (metis internalTLSConfig_def tls_server.select_convs(1))
  from * newMTLSClientConfig_InrD have c: "\<not> InsecureSkipVerify client"
    "\<exists>pem. tfReadFile T (cfMTLSCACertPath cfg) = Inr pem \<and> tfPool T pem = Some (RootCAs client)"
    "\<exists>own. tfKeyPair T (cfMTLSCertPath cfg) (cfMTLSKeyPath cfg) = Inr own \<and> Certificates client = [own]" by blast+
  then obtain own where own: "tfKeyPair T (cfMTLSCertPath cfg) (cfMTLSKeyPath cfg) = Inr own" "Certificates client = [own]"
    by blast
  from * c(1) have s: "verify (RootCAs client) crt" "names crt host"
    and "accepts_client verify (inTLS srv) version (presented RequireAndVerifyClientCert client)"
    by (auto simp: handshake_def accepts_server_def auth)
  from verified_client [OF this(3) auth] own have "verify (ClientCAs (inTLS srv)) own" by (auto simp: presented_def)
  with own(1) s c(2) show "\<exists>own pem pool. tfKeyPair T (cfMTLSCertPath cfg) (cfMTLSKeyPath cfg) = Inr own \<and>
      verify (ClientCAs (inTLS srv)) own \<and> names crt host \<and> verify pool crt \<and>
      tfReadFile T (cfMTLSCACertPath cfg) = Inr pem \<and> tfPool T pem = Some pool" by blast
qed

definition demo_listener :: "nat internal_server" where
  "demo_listener = projr (newMTLSServer demo_startup '':8443'')"

lemma demo_listener_ok: "newMTLSServer demo_startup '':8443'' = Inr demo_listener"
  by (simp add: demo_listener_def newMTLSServer_def demo_startup_def)

text \<open>A certificate is a number that has to equal the pool's.\<close>

lemma printer_link_is_mutual_tls_witness:
  "fst (serve_internal (=) demo_listener ref_env 771 (Some 7) ''GET'' [''internal'', ''healthz''] 0 None [] demo_world)
     = HandshakeRefused"
proof -
  have "\<not> (\<exists>cert pem pool. Some (7 :: nat) = Some cert \<and> pool = cert \<and>
      suReadFile demo_startup (suGetenv demo_startup ''MTLS_CA_CERT_PATH'') = Inr pem \<and> suPool demo_startup pem = Some pool)"
    by (simp add: demo_startup_def demo_vars_def required_vars_def)
  then show ?thesis
    using printer_link_is_mutual_tls [OF demo_listener_ok, of "(=)" ref_env 771 "Some 7" "''GET''"
        "[''internal'', ''healthz'']" 0 None "[]" demo_world, THEN conjunct1]
    by (metis prod.collapse)
qed

end
