(* ===== verification/Spec2Isabelle.thy ===== *)
theory Spec2Isabelle
  imports Dispatch_Properties Queue_Properties Link_Properties Api_Properties Account_Properties
    Admin_Properties Printer_Properties Delivery_Properties Start_Properties
begin

text \<open>
  Automail is a mailbox printing service: a sender's browser encrypts a document for a resident's
  mailbox unit, uploads the ciphertext to object storage and submits a job; cloud nodes behind a load
  balancer route the job to the one node that holds the unit's socket; the printer in the unit
  fetches, decrypts, prints and wipes. This library models the two Go services of the repository,
  \<^verbatim>\<open>src/services/cloud\<close> and \<^verbatim>\<open>src/services/printer\<close>, and proves what makes them correct.

  Parts and how they interact. HTTP handlers (\<^verbatim>\<open>handlers\<close>, behind the wrappers of
  \<^verbatim>\<open>middleware.go\<close>) write Postgres (\<^verbatim>\<open>db\<close>) and hand a new job to \<^verbatim>\<open>dispatch.TryDispatch\<close>. An attempt
  (\<^verbatim>\<open>dispatch/route.go\<close>) reads the printer-state cache (\<^verbatim>\<open>store\<close>), claims the row under a row lock and
  publishes a frame on the mailbox's channel; a job that cannot go out goes to a Redis stream, which
  every node's dispatcher (\<^verbatim>\<open>dispatch/dispatcher.go\<close>) works off as a member of one consumer group. The
  hub (\<^verbatim>\<open>link\<close>) accepts printer sockets, relays published frames down them, and turns state and
  status frames into cache entries, row updates and published events, which \<^verbatim>\<open>StreamJob\<close> relays to
  the sender. The printer (\<^verbatim>\<open>services/printer\<close>) keeps the socket and handles dispatch frames.

  The model. \<^verbatim>\<open>Services\<close> fixes the state: a world is the database (\<^verbatim>\<open>Tables\<close>: one list of rows per table,
  one statement per query of \<^verbatim>\<open>queries.sql.go\<close>) and an unspecified state of the services. Everything
  outside the repository (Redis, MinIO, Postgres' failures, uuid, bcrypt, JWT, pgcrypto, random bytes,
  the clock) is a field of the record \<^verbatim>\<open>env\<close>, a function over that state which may answer with any
  value or error; theorems quantify over all of them, so they cover every failure, including a
  statement or commit whose answer is lost. An operation of the code is a function from worlds to a
  result (a sum: Go's error or its value) and a world. The libraries the start of a process calls are
  fields of the records \<^verbatim>\<open>startup\<close> and \<^verbatim>\<open>tls_files\<close> in the same way. A loop over received events takes
  the list of them. Operations run on one world. In \<^verbatim>\<open>Cluster\<close> those of all nodes interleave: a step is a
  whole request, frame sequence or registration, one read or scan of the queue, or one handled entry.
  Where interleaving inside such a step matters, the operation is cut further: the claim has its own
  step relation (\<^verbatim>\<open>Claim_System\<close>), which the code's attempts are proved to follow, an attempt its claim
  and what comes after it (\<^verbatim>\<open>after_claim\<close>, C27), and \<^verbatim>\<open>Refresh\<close> its read and its grant (\<^verbatim>\<open>Accounts\<close>).

  Theories, by part (source in brackets):
  \<^item> vocabulary: \<^verbatim>\<open>Prelude\<close> (errors, Go strings and integers, keyed rows, the locale \<^verbatim>\<open>codec\<close>),
    \<^verbatim>\<open>Strconv\<close>, \<^verbatim>\<open>Utf8\<close>, \<^verbatim>\<open>Base64\<close>, \<^verbatim>\<open>Json\<close>: what the sources use of Go's standard library;
  \<^item> database [db/models.go, queries.sql.go, schema.sql]: \<^verbatim>\<open>Tables\<close>, \<^verbatim>\<open>Schema\<close> (constraints and
    monotonicity of every statement), \<^verbatim>\<open>Services\<close> (failures, transactions);
  \<^item> wire formats [link/frames.go, printer/frames.go, the payloads of route.go and jobs.go]: \<^verbatim>\<open>Frames\<close>;
  \<^item> names and printer-state cache [store/]: \<^verbatim>\<open>Store\<close> with the locale \<^verbatim>\<open>kv_service\<close>; object store
    [minioclient/]: \<^verbatim>\<open>Minioclient\<close>; observations of the services: \<^verbatim>\<open>Observe\<close>;
  \<^item> dispatch [dispatch/route.go, dispatcher.go]: \<^verbatim>\<open>Route\<close>, \<^verbatim>\<open>Route_Facts\<close> (the contract of one attempt),
    \<^verbatim>\<open>Claim_System\<close> (nodes racing for one job), \<^verbatim>\<open>Dispatcher\<close>, \<^verbatim>\<open>Stream_Facts\<close> and \<^verbatim>\<open>Dispatcher_Facts\<close> (the
    locales \<^verbatim>\<open>stream_service\<close> and \<^verbatim>\<open>stream_cursor\<close>, conservation of work, termination), \<^verbatim>\<open>Turns\<close> (what every
    handled entry does to the database, a whole turn does), \<^verbatim>\<open>Progress\<close> (what drains and sweeps achieve
    while the services answer);
  \<^item> printer link [link/hub.go, registry.go]: \<^verbatim>\<open>Hub\<close>, \<^verbatim>\<open>Hub_Facts\<close>;
  \<^item> HTTP [handlers/, middleware.go, authctx/, jwtutil/]: \<^verbatim>\<open>Http\<close>, \<^verbatim>\<open>Accounts\<close>, \<^verbatim>\<open>Jobs_Api\<close>, \<^verbatim>\<open>Recipients\<close>,
    \<^verbatim>\<open>Admin\<close> with their facts, and \<^verbatim>\<open>Zero_Knowledge\<close> (noninterference of the reading handlers);
  \<^item> process [main.go, shutdown.go, pprof.go, handlers/printerlink.go]: \<^verbatim>\<open>Cloud_Main\<close> (endpoints and
    their guards, the step relation of a node's world, shutdown), \<^verbatim>\<open>Serve_Mux\<close> and \<^verbatim>\<open>Router\<close> (patterns,
    the public table and server), \<^verbatim>\<open>Tls\<close>, \<^verbatim>\<open>Cloud_Start\<close> (the start with its fatal errors, the
    internal listener, the life of the process);
  \<^item> all nodes together: \<^verbatim>\<open>Cluster_Ops\<close> (what each whole operation does to the claims on existing jobs and
    to the stream) and \<^verbatim>\<open>Cluster\<close> (their step relation, which the turns of \<^verbatim>\<open>Run\<close> are proved to follow;
    the fate of an accepted job);
  \<^item> printer [services/printer]: \<^verbatim>\<open>Printer_Crypto\<close>, \<^verbatim>\<open>Printer_Job\<close> (one document, in memory, on the tmpfs and
    through \<^verbatim>\<open>lp\<close>, which sees the file's content), \<^verbatim>\<open>Printer_Facts\<close>, \<^verbatim>\<open>Printer_Workers\<close> (several documents in
    flight: the goroutines of \<^verbatim>\<open>handleDispatch\<close> interleave step by step; the sequential \<^verbatim>\<open>handleDispatch\<close>
    is proved to be one of the paths), \<^verbatim>\<open>Printer_Link\<close>, \<^verbatim>\<open>Printer_Start\<close>;
  \<^item> both services: \<^verbatim>\<open>Delivery\<close> (what the printer does with a frame, and what the hub then makes of the
    frames it sends back);
  \<^item> \<^verbatim>\<open>Ref_Env\<close>: a computable environment that satisfies every law of the locales (it interprets each
    of them), and \<^verbatim>\<open>Demo\<close>, a small instance on it where theorems with hypotheses are evaluated.

  Properties: \<^verbatim>\<open>Dispatch_Properties\<close> (claim, attempt), \<^verbatim>\<open>Queue_Properties\<close> (stream, loop, shutdown),
  \<^verbatim>\<open>Link_Properties\<close>, \<^verbatim>\<open>Api_Properties\<close>, \<^verbatim>\<open>Account_Properties\<close>, \<^verbatim>\<open>Admin_Properties\<close>, \<^verbatim>\<open>Printer_Properties\<close>,
  \<^verbatim>\<open>Delivery_Properties\<close> (from the claim to paper and back), \<^verbatim>\<open>Start_Properties\<close>, and below those that span
  the whole cloud service. C27, C33 and C37 to C40 show behaviour the sources' own comments do not
  promise: a job lost when two nodes handle its entry at the same time, a delivered job that ends
  failed because its frame came twice, a job stranded by a crash, a double dispatch after a lost reply, overlapping
  refreshes that both succeed, a job id that leaves the tmpfs.

  Laws assumed of the services. \<^verbatim>\<open>kv_service\<close>: SET stores with a deadline, GET answers until it.
  \<^verbatim>\<open>stream_service\<close>: what XADD, XREADGROUP, XACK, XAUTOCLAIM, XPENDING and DELCONSUMER do to the backlog
  and the pending entries list, failures included. \<^verbatim>\<open>stream_ids\<close>: an
  entry id is never given out twice. \<^verbatim>\<open>stream_cursor\<close>: the cursor of XAUTOCLAIM moves forward. \<^verbatim>\<open>calm_scan\<close>
  (C6 only): states in which no call fails and the dispatcher's calls disturb neither the cached
  printer states nor the subscriptions; a scan claims the idle entries it passes, and passes a hundred
  before it gives up. \<^verbatim>\<open>publish_history\<close>, \<^verbatim>\<open>deliveries\<close>: what PUBLISH does to the
  messages seen. \<^verbatim>\<open>answering\<close> (C7 and C33 only): the states in which the database answers, which
  the calls of an operation do not leave. Each law speaks of one command, so it holds in any order of the nodes' commands.

  Bounds. A drain makes at most twenty reads of ten entries, as in the source. The reclaim loop has
  no bound in the source; it is a partial function, and C4 proves that it returns. Nothing else needs fuel.
  Integers are 64 bits wide where the sources compute with \<^verbatim>\<open>int\<close> or \<^verbatim>\<open>time.Duration\<close>.

  Not modelled: log lines; contexts and timeouts, which appear as failures and as \<^verbatim>\<open>ctx_err\<close>; sockets,
  and what a mux does before it routes (cleaning a path, decoding its segments); goroutine scheduling
  inside one hub; in the printer, where the workers do interleave, \<^verbatim>\<open>slotState\<close>'s mutex makes its methods
  atomic, and a frame counts as sent when it is handed to the socket (one that is lost with the
  connection is not sent again); lower-casing outside ASCII in
  \<^verbatim>\<open>strings.ToLower\<close> and in ILIKE; JSON texts, which are parse trees; the tables \<^verbatim>\<open>residents\<close> and
  \<^verbatim>\<open>mailboxes\<close> as the seeding scripts fill them. The portal (TypeScript), the infrastructure files and the
  test harness under \<^verbatim>\<open>tests/\<close> are outside the two services.
\<close>

section \<open>Every history\<close>

definition demo_wstep :: "ref_state world" where
  "demo_wstep = snd (public_handler ref_env demo_server ''node-1'' True [] PostJobs demo_submit demo_world)"

lemma demo_history: "(world_step ref_env demo_server)\<^sup>*\<^sup>* demo_world demo_wstep"
  unfolding demo_wstep_def by (rule r_into_rtranclp) (rule world_step.Request)






text \<open>
  C14: Over any such sequence the audit log only grows at its end; a job never disappears and keeps
  its owner, routing, key, blob reference and page count; accounts stay as they are and new ones
  never have another role than sender; a revoked refresh token stays revoked.
\<close>

theorem database_only_grows:
  assumes "(world_step E s)\<^sup>*\<^sup>* w w'"
  shows "prefix (audit_events (db w)) (audit_events (db w')) \<and>
    (job_of (db w) i = Some j \<longrightarrow> (\<exists>j'. job_of (db w') i = Some j' \<and> job_core j' = job_core j)) \<and>
    (\<exists>new. senders (db w') = senders (db w) @ new \<and> (\<forall>a\<in>set new. snRole a = ''sender'')) \<and>
    tokens_le (refresh_tokens (db w)) (refresh_tokens (db w'))"
proof -
  have "db_le (db w) (db w')" by (rule world_mono.steps_le [OF assms])
  then show ?thesis using db_le_job [of "db w" "db w'" i j] by (auto simp: db_le_def senders_le_def)
qed

lemma database_only_grows_witness: "\<exists>j'. job_of (db demo_wstep) 10 = Some j' \<and> job_core j' = job_core demo_job"
proof -
  have "job_of (db demo_world) 10 = Some demo_job"
    by (simp add: job_of_def demo_world_def demo_db_def demo_job_def)
  then show ?thesis using database_only_grows [OF demo_history, of 10 demo_job] by blast
qed

section \<open>What may be read\<close>

definition demo_other_key :: "ref_state world" where
  "demo_other_key = demo_world\<lparr>db := demo_db\<lparr>jobs := [demo_job\<lparr>jEncryptedKey := [9, 9], jBlobRef := ''blobs/z''\<rparr>]\<rparr>\<rparr>"

text \<open>
  C10: The zero-knowledge boundary: no reading endpoint (recipients, public keys, job streams and
  histories, the operator's views, the probes), for any caller, answers differently when nothing
  but the wrapped keys and blob references of jobs is different.
\<close>

theorem readers_are_blind:
  assumes "reading_endpoint ep" "redacted (db w) = redacted (db v)" "ext w = ext v"
  shows "fst (public_handler E s n sok evs ep r w) = fst (public_handler E s n sok evs ep r v) \<and>
    ext (snd (public_handler E s n sok evs ep r w)) = ext (snd (public_handler E s n sok evs ep r v))"
  by (rule blind_handlerD [OF public_handler_blind [OF assms(1)]]) (simp add: same_view_def assms(2,3))

lemma readers_are_blind_witness:
  "fst (public_handler ref_env demo_server ''n'' True [] GetJobs demo_request demo_world) =
   fst (public_handler ref_env demo_server ''n'' True [] GetJobs demo_request demo_other_key)"
proof -
  have "redacted (db demo_world) = redacted (db demo_other_key)" "ext demo_world = ext demo_other_key"
    by (simp_all add: redacted_def demo_world_def demo_other_key_def demo_db_def demo_job_def redact_def)
  from readers_are_blind [OF _ this, of GetJobs] show ?thesis by (simp add: reading_endpoint_def)
qed

end
